(* ===== verification/Prelude.thy ===== *)
theory Prelude
  imports Main "HOL-Library.Word"
begin

text \<open>
  Shared vocabulary of the development: machine integers of the Rust sources as words,
  the \<^verbatim>\<open>Result\<close> type with its \<^verbatim>\<open>?\<close> operator, big-endian byte conversions, buffers and
  byte streams, and the generic lemmas on them that the component theories use.
\<close>

unbundle bit_operations_syntax

named_theorems result_simps \<open>sequencing of fallible operations\<close>
named_theorems wire_simps \<open>definitions that evaluate a wire format\<close>

section \<open>Machine integers and buffers\<close>

type_synonym byte = "8 word"
type_synonym u16 = "16 word"
type_synonym u32 = "32 word"
type_synonym u64 = "64 word"
type_synonym bytes = "8 word list"

section \<open>Result\<close>

text \<open>Rust's \<^verbatim>\<open>Result<T, E>\<close>; the error comes second, as in the sources.\<close>

datatype ('a, 'e) result = Ok 'a | Err 'e

text \<open>\<open>and_then r f\<close> is \<^verbatim>\<open>f(r?)\<close>: an early return with the error of \<open>r\<close>.\<close>

fun and_then :: "('a, 'e) result \<Rightarrow> ('a \<Rightarrow> ('b, 'e) result) \<Rightarrow> ('b, 'e) result" where
  "and_then (Ok x) f = f x"
| "and_then (Err e) f = Err e"

fun map_err :: "('e \<Rightarrow> 'f) \<Rightarrow> ('a, 'e) result \<Rightarrow> ('a, 'f) result" where
  "map_err f (Ok x) = Ok x"
| "map_err f (Err e) = Err (f e)"

fun map_ok :: "('a \<Rightarrow> 'b) \<Rightarrow> ('a, 'e) result \<Rightarrow> ('b, 'e) result" where
  "map_ok f (Ok x) = Ok (f x)"
| "map_ok f (Err e) = Err e"

fun is_ok :: "('a, 'e) result \<Rightarrow> bool" where
  "is_ok (Ok x) = True"
| "is_ok (Err e) = False"

definition ok_or :: "'a option \<Rightarrow> 'e \<Rightarrow> ('a, 'e) result" where
  "ok_or x e = (case x of None \<Rightarrow> Err e | Some y \<Rightarrow> Ok y)"

lemma ok_or_simps [simp]: "ok_or None e = Err e" "ok_or (Some y) e = Ok y"
  by (simp_all add: ok_or_def)

lemma ok_or_Ok: "ok_or x e = Ok y \<longleftrightarrow> x = Some y"
  by (cases x) auto

lemma and_then_Ok_iff [result_simps]:
  "and_then r f = Ok y \<longleftrightarrow> (\<exists>x. r = Ok x \<and> f x = Ok y)"
  by (cases r) auto

lemma and_then_Err_iff [result_simps]:
  "and_then r f = Err e \<longleftrightarrow> r = Err e \<or> (\<exists>x. r = Ok x \<and> f x = Err e)"
  by (cases r) auto

lemma map_err_Ok_iff [result_simps]: "map_err f r = Ok y \<longleftrightarrow> r = Ok y"
  by (cases r) auto

lemma map_err_Err_iff [result_simps]: "map_err f r = Err e \<longleftrightarrow> (\<exists>x. r = Err x \<and> e = f x)"
  by (cases r) auto

lemma map_ok_Ok_iff [result_simps]: "map_ok f r = Ok y \<longleftrightarrow> (\<exists>x. r = Ok x \<and> y = f x)"
  by (cases r) auto

lemma is_ok_iff: "is_ok r \<longleftrightarrow> (\<exists>x. r = Ok x)"
  by (cases r) auto

section \<open>Big-endian byte conversions\<close>

text \<open>
  \<^verbatim>\<open>to_be_bytes\<close> and \<^verbatim>\<open>from_be_bytes\<close> of the fixed-width integers, for any width. The
  count of bytes is explicit: 2 for \<^verbatim>\<open>u16\<close>, 4 for \<^verbatim>\<open>u32\<close> and an IPv4 address, 16 for
  an IPv6 address or a UUID.
\<close>

fun to_be_bytes :: "nat \<Rightarrow> 'a::len word \<Rightarrow> bytes" where
  "to_be_bytes 0 w = []"
| "to_be_bytes (Suc n) w = ucast (drop_bit (8 * n) w) # to_be_bytes n w"

definition from_be_bytes :: "bytes \<Rightarrow> 'a::len word" where
  "from_be_bytes bs = foldl (\<lambda>acc b. push_bit 8 acc OR ucast b) 0 bs"

lemma length_to_be_bytes [simp]: "length (to_be_bytes n w) = n"
  by (induction n) auto

lemma from_be_bytes_Nil [simp]: "from_be_bytes [] = 0"
  by (simp add: from_be_bytes_def)

lemma from_be_bytes_snoc: "from_be_bytes (bs @ [b]) = push_bit 8 (from_be_bytes bs) OR ucast b"
  by (simp add: from_be_bytes_def)

lemma to_be_bytes_nth:
  "i < n \<Longrightarrow> to_be_bytes n w ! i = ucast (drop_bit (8 * (n - 1 - i)) w)"
proof (induction n arbitrary: i)
  case (Suc n)
  then show ?case by (cases i) auto
qed simp

lemma to_be_bytes_snoc:
  "to_be_bytes (Suc n) w = to_be_bytes n (drop_bit 8 w) @ [ucast w]"
  by (induction n) (auto simp: drop_bit_drop_bit ac_simps)

lemma from_be_bytes_to_be_bytes_bit:
  "bit (from_be_bytes (to_be_bytes n w) :: 'a::len word) k \<longleftrightarrow> k < 8 * n \<and> bit (w :: 'a word) k"
proof (induction n arbitrary: w k)
  case (Suc n)
  show ?case
    by (simp only: to_be_bytes_snoc from_be_bytes_snoc)
       (auto simp: bit_simps Suc.IH dest: bit_imp_le_length)
qed simp

lemma from_be_bytes_to_be_bytes:
  assumes "LENGTH('a::len) \<le> 8 * n"
  shows "from_be_bytes (to_be_bytes n w) = (w :: 'a word)"
  by (rule bit_word_eqI) (use assms in \<open>auto simp: from_be_bytes_to_be_bytes_bit\<close>)

lemma drop_bit_8_from_be_bytes_snoc:
  assumes "8 * Suc (length bs) \<le> LENGTH('a::len)"
  shows "drop_bit 8 (from_be_bytes (bs @ [b]) :: 'a word) = from_be_bytes bs"
    and "ucast (from_be_bytes (bs @ [b]) :: 'a word) = b"
proof -
  have hi: "\<not> bit (from_be_bytes bs :: 'a word) k" if "8 * length bs \<le> k" for k
    using that
  proof (induction bs arbitrary: k rule: rev_induct)
    case (snoc x xs)
    then show ?case
      by (auto simp: from_be_bytes_snoc bit_simps dest: bit_imp_le_length)
  qed simp
  show "drop_bit 8 (from_be_bytes (bs @ [b]) :: 'a word) = from_be_bytes bs"
  proof (rule bit_word_eqI)
    fix k assume k: "k < LENGTH('a)"
    show "bit (drop_bit 8 (from_be_bytes (bs @ [b]) :: 'a word)) k
        = bit (from_be_bytes bs :: 'a word) k"
      using assms hi [of k]
      by (cases "8 * length bs \<le> k")
         (auto simp: from_be_bytes_snoc bit_simps dest: bit_imp_le_length)
  qed
  show "ucast (from_be_bytes (bs @ [b]) :: 'a word) = b"
    using assms by (intro bit_word_eqI) (auto simp: from_be_bytes_snoc bit_simps)
qed

lemma to_be_bytes_from_be_bytes:
  assumes "length bs = n" and "8 * n \<le> LENGTH('a::len)"
  shows "to_be_bytes n (from_be_bytes bs :: 'a word) = bs"
  using assms
proof (induction n arbitrary: bs)
  case (Suc n)
  then obtain ys y where bs: "bs = ys @ [y]" by (cases bs rule: rev_cases) auto
  with Suc show ?case
    by (simp only: to_be_bytes_snoc bs drop_bit_8_from_be_bytes_snoc length_append_singleton) simp
qed simp

end
