(* ===== verification/Codec.thy ===== *)
theory Codec
  imports Prelude
begin

text \<open>
  The interface every wire format of the program offers its callers: an encoder that
  appends to a growable buffer, and a decoder that takes one frame off the front of a
  byte slice and returns the rest. The locale \<open>frame_codec\<close> states the laws
  (round trip, canonicity, progress); the facts a client of the format needs (frames are
  self-delimiting, a sequence of frames reads back in order, a cut-off frame is never
  accepted) are proved once from them. The component theories interpret the locale on
  their own encoders and decoders.
\<close>

section \<open>Buffers and slices\<close>

text \<open>\<^verbatim>\<open>bytes::BufMut\<close> on a growable buffer.\<close>

definition put_u8 :: "bytes \<Rightarrow> byte \<Rightarrow> bytes" where
  "put_u8 dst b = dst @ [b]"

definition put_u16 :: "bytes \<Rightarrow> u16 \<Rightarrow> bytes" where
  "put_u16 dst w = dst @ to_be_bytes 2 w"

definition put_slice :: "bytes \<Rightarrow> bytes \<Rightarrow> bytes" where
  "put_slice dst src = dst @ src"

lemmas put_defs = put_u8_def put_u16_def put_slice_def

text \<open>\<^verbatim>\<open>&input[i..j]\<close>; every use is guarded by a length check of the source.\<close>

definition slice :: "nat \<Rightarrow> nat \<Rightarrow> 'a list \<Rightarrow> 'a list" where
  "slice i j xs = take (j - i) (drop i xs)"

lemma length_slice [simp]: "j \<le> length xs \<Longrightarrow> length (slice i j xs) = j - i"
  by (simp add: slice_def)

lemma drop_slice: "i \<le> j \<Longrightarrow> drop i xs = slice i j xs @ drop j xs"
  by (simp add: slice_def) (metis append_take_drop_id drop_drop le_add_diff_inverse2)

lemma slice_two: "Suc i < length xs \<Longrightarrow> slice i (i + 2) xs = [xs ! i, xs ! Suc i]"
  by (simp add: slice_def numeral_2_eq_2 take_Suc_conv_app_nth)

lemma slice_append_left: "j \<le> length xs \<Longrightarrow> slice i j (xs @ ys) = slice i j xs"
  by (cases "i \<le> length xs") (simp_all add: slice_def)

lemma slice_skip: "length xs \<le> i \<Longrightarrow> slice i j (xs @ ys) = slice (i - length xs) (j - length xs) ys"
  by (simp add: slice_def)

lemma slice_0_length: "n = length xs \<Longrightarrow> slice 0 n xs = xs"
  by (simp add: slice_def)

lemma slice_exact: "length p = i \<Longrightarrow> length m = j - i \<Longrightarrow> i \<le> j \<Longrightarrow> slice i j (p @ m @ r) = m"
  by (simp add: slice_def)

lemma nth_drop_Cons: "i < length xs \<Longrightarrow> drop i xs = xs ! i # drop (Suc i) xs"
  by (simp add: Cons_nth_drop_Suc)

abbreviation u16_from_be_bytes :: "byte \<Rightarrow> byte \<Rightarrow> u16" where
  "u16_from_be_bytes a b \<equiv> from_be_bytes [a, b]"

lemma u16_bytes_roundtrip [simp]:
  "from_be_bytes (to_be_bytes 2 w) = (w :: u16)"
  "to_be_bytes 2 (u16_from_be_bytes a b) = [a, b]"
  by (simp_all add: from_be_bytes_to_be_bytes to_be_bytes_from_be_bytes)

lemma to_be_bytes_2: "to_be_bytes 2 w = [ucast (drop_bit 8 w), ucast w]"
  by (simp add: numeral_2_eq_2)

lemma u16_from_be_bytes_ucast [simp]:
  "u16_from_be_bytes (ucast (drop_bit 8 w)) (ucast (w :: u16)) = w"
  using u16_bytes_roundtrip(1) [of w] by (simp only: to_be_bytes_2)

lemma unat_of_nat_u16: "n \<le> 65535 \<Longrightarrow> unat (of_nat n :: u16) = n"
  by (simp add: unat_of_nat)

lemma unat_of_nat_u8: "n \<le> 255 \<Longrightarrow> unat (of_nat n :: byte) = n"
  by (simp add: unat_of_nat)

lemma unat_byte_le: "unat (b :: byte) \<le> 255"
  using unsigned_less [where 'a = nat, of b] by simp

lemma unat_u16_le: "unat (w :: u16) \<le> 65535"
  using unsigned_less [where 'a = nat, of w] by simp

section \<open>Byte streams\<close>

text \<open>
  \<^verbatim>\<open>read_exact\<close> on a stream whose peer sends the given bytes and then finishes: the
  bytes read and those left, or nothing when the stream ends first.
\<close>

definition read_exact :: "nat \<Rightarrow> bytes \<Rightarrow> (bytes \<times> bytes) option" where
  "read_exact n s = (if length s < n then None else Some (take n s, drop n s))"

lemma read_exact_append [simp]: "n = length xs \<Longrightarrow> read_exact n (xs @ s) = Some (xs, s)"
  by (simp add: read_exact_def)

lemma read_exact_SomeD: "read_exact n s = Some (xs, r) \<Longrightarrow> s = xs @ r \<and> length xs = n"
  by (auto simp: read_exact_def split: if_splits)

lemma read_exact_None: "read_exact n s = None \<longleftrightarrow> length s < n"
  by (simp add: read_exact_def)

section \<open>Sequences of frames\<close>

text \<open>A reader that takes \<open>n\<close> frames off a buffer, one after the other.\<close>

fun decode_frames ::
    "(bytes \<Rightarrow> ('a \<times> bytes, 'e) result) \<Rightarrow> nat \<Rightarrow> bytes \<Rightarrow> ('a list \<times> bytes, 'e) result" where
  "decode_frames dec 0 bs = Ok ([], bs)"
| "decode_frames dec (Suc n) bs =
     and_then (dec bs) (\<lambda>(x, rest).
     and_then (decode_frames dec n rest) (\<lambda>(xs, rest'). Ok (x # xs, rest')))"

section \<open>The contract of a wire format\<close>

locale frame_codec =
  fixes encode :: "'a \<Rightarrow> bytes"
    and decode :: "bytes \<Rightarrow> ('a \<times> bytes, 'e) result"
    and valid :: "'a \<Rightarrow> bool"
  assumes decode_encode: "valid x \<Longrightarrow> decode (encode x @ rest) = Ok (x, rest)"
    and decode_sound: "decode bs = Ok (x, rest) \<Longrightarrow> valid x \<and> bs = encode x @ rest"
    and encode_nonempty: "valid x \<Longrightarrow> encode x \<noteq> []"
begin

lemma decode_iff: "decode bs = Ok (x, rest) \<longleftrightarrow> valid x \<and> bs = encode x @ rest"
  using decode_encode decode_sound by blast

lemma decode_progress: "decode bs = Ok (x, rest) \<Longrightarrow> length rest < length bs"
  by (auto simp: decode_iff encode_nonempty)

lemma self_delimiting:
  assumes "valid x" and "valid y" and "encode x @ r = encode y @ s"
  shows "x = y \<and> r = s"
proof -
  have "Ok (x, r) = decode (encode x @ r)" using assms(1) by (simp only: decode_encode)
  also have "\<dots> = Ok (y, s)" using assms(2) by (simp only: assms(3) decode_encode)
  finally show ?thesis by simp
qed

lemma encode_inj: "valid x \<Longrightarrow> valid y \<Longrightarrow> encode x = encode y \<Longrightarrow> x = y"
  using self_delimiting [of x y "[]" "[]"] by simp

lemma decode_cut_off:
  assumes v: "valid x" and k: "k < length (encode x)"
  shows "\<exists>e. decode (take k (encode x)) = Err e"
proof (cases "decode (take k (encode x))")
  case (Ok p)
  obtain y r where p: "p = (y, r)" by (cases p)
  with Ok have y: "valid y" "take k (encode x) = encode y @ r" by (auto simp: decode_iff)
  have "encode x = encode y @ (r @ drop k (encode x))"
    using y(2) by (metis append_assoc append_take_drop_id)
  then have "encode x @ [] = encode y @ (r @ drop k (encode x))" by simp
  from self_delimiting [OF v y(1) this] have "drop k (encode x) = []" by blast
  with k show ?thesis by simp
qed simp

lemma decode_frames_encode:
  assumes "\<forall>x \<in> set xs. valid x"
  shows "decode_frames decode (length xs) (concat (map encode xs) @ rest) = Ok (xs, rest)"
  using assms by (induction xs) (simp_all add: decode_encode)

lemma decode_frames_sound:
  "decode_frames decode n bs = Ok (xs, rest) \<Longrightarrow>
     length xs = n \<and> (\<forall>x \<in> set xs. valid x) \<and> bs = concat (map encode xs) @ rest"
proof (induction n arbitrary: bs xs)
  case (Suc n)
  from Suc.prems obtain x r ys where "decode bs = Ok (x, r)"
    and "decode_frames decode n r = Ok (ys, rest)" and "xs = x # ys"
    by (auto simp: and_then_Ok_iff)
  with Suc.IH [of r ys] show ?case by (auto simp: decode_iff)
qed simp

end

end
