(* ===== verification/Protocol.thy ===== *)
theory Protocol
  imports Codec
begin

text \<open>
  The wire protocol crate, \<^verbatim>\<open>crates/zuicity-protocol/src/lib.rs\<close>: the 64-bit counter,
  the proxy header and its runtime metadata, UDP-over-stream frames, the authentication
  command, and the certificate-chain pin hash. SHA-256, base64 and the PEM reader are
  third-party and appear as arguments.
\<close>

section \<open>The 64-bit counter\<close>

type_synonym AtomicCounter64 = u64

definition counter_new :: "u64 \<Rightarrow> AtomicCounter64" where
  "counter_new value = value"

definition counter_default :: AtomicCounter64 where
  "counter_default = counter_new 0"

definition counter_load :: "AtomicCounter64 \<Rightarrow> u64" where
  "counter_load c = c"

text \<open>Each update returns the previous value and the new state of the counter.\<close>

definition fetch_add :: "AtomicCounter64 \<Rightarrow> u64 \<Rightarrow> u64 \<times> AtomicCounter64" where
  "fetch_add c value = (let previous = c in (previous, previous + value))"

definition fetch_update ::
    "AtomicCounter64 \<Rightarrow> (u64 \<Rightarrow> u64 option) \<Rightarrow> (u64, u64) result \<times> AtomicCounter64" where
  "fetch_update c f =
     (let previous = c in
      case f previous of
        Some next \<Rightarrow> (Ok previous, next)
      | None \<Rightarrow> (Err previous, c))"

section \<open>Constants\<close>

definition VERSION_0 :: byte where "VERSION_0 = 0"
definition CMD_AUTHENTICATION :: byte where "CMD_AUTHENTICATION = 0"
definition AUTH_TOKEN_LEN :: nat where "AUTH_TOKEN_LEN = 32"
definition AUTH_UUID_LEN :: nat where "AUTH_UUID_LEN = 16"
definition COMMAND_HEADER_LEN :: nat where "COMMAND_HEADER_LEN = 2"

definition AUTHENTICATION_FRAME_LEN :: nat where
  "AUTHENTICATION_FRAME_LEN = COMMAND_HEADER_LEN + AUTH_UUID_LEN + AUTH_TOKEN_LEN"

definition NETWORK_TCP :: byte where "NETWORK_TCP = 1"
definition NETWORK_UDP :: byte where "NETWORK_UDP = 3"
definition ADDR_TYPE_IPV4 :: byte where "ADDR_TYPE_IPV4 = 0"
definition ADDR_TYPE_IPV6 :: byte where "ADDR_TYPE_IPV6 = 1"
definition ADDR_TYPE_DOMAIN :: byte where "ADDR_TYPE_DOMAIN = 2"
definition RUNTIME_ADDR_TYPE_IPV4 :: byte where "RUNTIME_ADDR_TYPE_IPV4 = 1"
definition RUNTIME_ADDR_TYPE_DOMAIN :: byte where "RUNTIME_ADDR_TYPE_DOMAIN = 3"
definition RUNTIME_ADDR_TYPE_IPV6 :: byte where "RUNTIME_ADDR_TYPE_IPV6 = 4"
definition UDP_PAYLOAD_LENGTH_LEN :: nat where "UDP_PAYLOAD_LENGTH_LEN = 2"

lemmas protocol_consts [wire_simps] =
  VERSION_0_def CMD_AUTHENTICATION_def AUTH_TOKEN_LEN_def AUTH_UUID_LEN_def
  COMMAND_HEADER_LEN_def AUTHENTICATION_FRAME_LEN_def NETWORK_TCP_def NETWORK_UDP_def
  ADDR_TYPE_IPV4_def ADDR_TYPE_IPV6_def ADDR_TYPE_DOMAIN_def
  RUNTIME_ADDR_TYPE_IPV4_def RUNTIME_ADDR_TYPE_DOMAIN_def RUNTIME_ADDR_TYPE_IPV6_def
  UDP_PAYLOAD_LENGTH_LEN_def

section \<open>Errors\<close>

datatype ProtocolError =
    UnknownNetwork byte
  | UnknownAddrType byte
  | UnknownRuntimeAddrType byte
  | UnexpectedVersion byte
  | UnexpectedCommandType byte
  | Exporter string
  | DomainTooLong nat
  | UdpPayloadTooLong nat
  | Truncated nat nat \<comment> \<open>needed, available\<close>
  | InvalidCertificateChainPem

definition require_len :: "bytes \<Rightarrow> nat \<Rightarrow> (unit, ProtocolError) result" where
  "require_len input needed =
     (if length input < needed then Err (Truncated needed (length input)) else Ok ())"

section \<open>Networks, address types, addresses\<close>

datatype Network = Tcp | Udp

fun Network_as_u8 :: "Network \<Rightarrow> byte" where
  "Network_as_u8 Tcp = NETWORK_TCP"
| "Network_as_u8 Udp = NETWORK_UDP"

definition Network_try_from :: "byte \<Rightarrow> (Network, ProtocolError) result" where
  "Network_try_from value =
     (if value = NETWORK_TCP then Ok Tcp
      else if value = NETWORK_UDP then Ok Udp
      else Err (UnknownNetwork value))"

datatype AddrType = AddrTypeIpv4 | AddrTypeIpv6 | AddrTypeDomain

fun AddrType_as_u8 :: "AddrType \<Rightarrow> byte" where
  "AddrType_as_u8 AddrTypeIpv4 = ADDR_TYPE_IPV4"
| "AddrType_as_u8 AddrTypeIpv6 = ADDR_TYPE_IPV6"
| "AddrType_as_u8 AddrTypeDomain = ADDR_TYPE_DOMAIN"

definition AddrType_try_from :: "byte \<Rightarrow> (AddrType, ProtocolError) result" where
  "AddrType_try_from value =
     (if value = ADDR_TYPE_IPV4 then Ok AddrTypeIpv4
      else if value = ADDR_TYPE_IPV6 then Ok AddrTypeIpv6
      else if value = ADDR_TYPE_DOMAIN then Ok AddrTypeDomain
      else Err (UnknownAddrType value))"

text \<open>
  \<^verbatim>\<open>std::net\<close> addresses are their octets in network order; a word of 32 or 128 bits
  with \<open>to_be_bytes\<close> as \<^verbatim>\<open>octets()\<close> carries exactly that.
\<close>

type_synonym Ipv4Addr = "32 word"
type_synonym Ipv6Addr = "128 word"

definition Ipv4Addr_octets :: "Ipv4Addr \<Rightarrow> bytes" where
  "Ipv4Addr_octets = to_be_bytes 4"

definition Ipv6Addr_octets :: "Ipv6Addr \<Rightarrow> bytes" where
  "Ipv6Addr_octets = to_be_bytes 16"

definition Ipv4Addr_new :: "byte \<Rightarrow> byte \<Rightarrow> byte \<Rightarrow> byte \<Rightarrow> Ipv4Addr" where
  "Ipv4Addr_new a b c d = from_be_bytes [a, b, c, d]"

definition Ipv6Addr_from :: "bytes \<Rightarrow> Ipv6Addr" where
  "Ipv6Addr_from = from_be_bytes"

lemma octets_length [simp]:
  "length (Ipv4Addr_octets a) = 4" "length (Ipv6Addr_octets b) = 16"
  by (simp_all add: Ipv4Addr_octets_def Ipv6Addr_octets_def)

lemma Ipv6Addr_from_octets [simp]: "Ipv6Addr_from (Ipv6Addr_octets a) = a"
  by (simp add: Ipv6Addr_from_def Ipv6Addr_octets_def from_be_bytes_to_be_bytes)

lemma Ipv6Addr_octets_from [simp]: "length bs = 16 \<Longrightarrow> Ipv6Addr_octets (Ipv6Addr_from bs) = bs"
  by (simp add: Ipv6Addr_from_def Ipv6Addr_octets_def to_be_bytes_from_be_bytes)

lemma Ipv4Addr_octets_new [simp]: "Ipv4Addr_octets (Ipv4Addr_new a b c d) = [a, b, c, d]"
  by (simp add: Ipv4Addr_new_def Ipv4Addr_octets_def to_be_bytes_from_be_bytes)

lemma Ipv4Addr_octets_cases:
  obtains a b c d where "Ipv4Addr_octets w = [a, b, c, d]" and "w = Ipv4Addr_new a b c d"
proof -
  have "length (Ipv4Addr_octets w) = Suc (Suc (Suc (Suc 0)))" by simp
  then obtain a b c d where oct: "Ipv4Addr_octets w = [a, b, c, d]"
    by (auto simp only: length_Suc_conv length_0_conv)
  have "from_be_bytes (Ipv4Addr_octets w) = w"
    by (simp add: Ipv4Addr_octets_def from_be_bytes_to_be_bytes)
  then have "w = Ipv4Addr_new a b c d" by (simp add: oct Ipv4Addr_new_def)
  with oct show thesis by (rule that)
qed

datatype ProxyAddress = Ipv4 Ipv4Addr | Ipv6 Ipv6Addr | Domain bytes

fun runtime_metadata_len :: "ProxyAddress \<Rightarrow> nat" where
  "runtime_metadata_len (Ipv4 _) = 1 + 4 + 2"
| "runtime_metadata_len (Ipv6 _) = 1 + 16 + 2"
| "runtime_metadata_len (Domain d) = 1 + 1 + length d + 2"

section \<open>Runtime metadata\<close>

text \<open>The encoder returns its result and the buffer, which keeps what was written before an error.\<close>

definition encode_runtime_metadata ::
    "ProxyAddress \<Rightarrow> u16 \<Rightarrow> bytes \<Rightarrow> (unit, ProtocolError) result \<times> bytes" where
  "encode_runtime_metadata address port dst =
     (case address of
        Ipv4 addr \<Rightarrow>
          (Ok (), put_u16 (put_slice (put_u8 dst RUNTIME_ADDR_TYPE_IPV4) (Ipv4Addr_octets addr)) port)
      | Ipv6 addr \<Rightarrow>
          (Ok (), put_u16 (put_slice (put_u8 dst RUNTIME_ADDR_TYPE_IPV6) (Ipv6Addr_octets addr)) port)
      | Domain d \<Rightarrow>
          (let domain_len = length d in
           if domain_len > 255 then (Err (DomainTooLong domain_len), dst)
           else (Ok (),
             put_u16
               (put_slice (put_u8 (put_u8 dst RUNTIME_ADDR_TYPE_DOMAIN) (of_nat domain_len)) d)
               port)))"

definition decode_runtime_metadata ::
    "bytes \<Rightarrow> (ProxyAddress \<times> u16 \<times> nat, ProtocolError) result" where
  "decode_runtime_metadata input =
     and_then (require_len input 1) (\<lambda>_.
     if input ! 0 = RUNTIME_ADDR_TYPE_IPV4 then
       (let consumed = 1 + 4 + 2 in
        and_then (require_len input consumed) (\<lambda>_.
          Ok (Ipv4 (Ipv4Addr_new (input ! 1) (input ! 2) (input ! 3) (input ! 4)),
              u16_from_be_bytes (input ! 5) (input ! 6), consumed)))
     else if input ! 0 = RUNTIME_ADDR_TYPE_IPV6 then
       (let consumed = 1 + 16 + 2 in
        and_then (require_len input consumed) (\<lambda>_.
          Ok (Ipv6 (Ipv6Addr_from (slice 1 17 input)),
              u16_from_be_bytes (input ! 17) (input ! 18), consumed)))
     else if input ! 0 = RUNTIME_ADDR_TYPE_DOMAIN then
       and_then (require_len input 2) (\<lambda>_.
         (let domain_len = unat (input ! 1);
              consumed = 1 + 1 + domain_len + 2
          in and_then (require_len input consumed) (\<lambda>_.
            (let domain_end = 2 + domain_len in
             Ok (Domain (slice 2 domain_end input),
                 u16_from_be_bytes (input ! domain_end) (input ! (domain_end + 1)), consumed)))))
     else Err (UnknownRuntimeAddrType (input ! 0)))"

section \<open>Proxy headers\<close>

record ProxyHeader =
  ph_network :: Network
  ph_address :: ProxyAddress
  ph_port :: u16

definition ProxyHeader_new :: "Network \<Rightarrow> ProxyAddress \<Rightarrow> u16 \<Rightarrow> ProxyHeader" where
  "ProxyHeader_new n a p = \<lparr>ph_network = n, ph_address = a, ph_port = p\<rparr>"

definition ProxyHeader_encoded_len :: "ProxyHeader \<Rightarrow> nat" where
  "ProxyHeader_encoded_len h = 1 + runtime_metadata_len (ph_address h)"

definition ProxyHeader_encode_to ::
    "ProxyHeader \<Rightarrow> bytes \<Rightarrow> (unit, ProtocolError) result \<times> bytes" where
  "ProxyHeader_encode_to h dst =
     encode_runtime_metadata (ph_address h) (ph_port h) (put_u8 dst (Network_as_u8 (ph_network h)))"

definition ProxyHeader_encode_target_to ::
    "ProxyHeader \<Rightarrow> bytes \<Rightarrow> (unit, ProtocolError) result \<times> bytes" where
  "ProxyHeader_encode_target_to h dst = encode_runtime_metadata (ph_address h) (ph_port h) dst"

definition ProxyHeader_decode :: "bytes \<Rightarrow> (ProxyHeader \<times> bytes, ProtocolError) result" where
  "ProxyHeader_decode input =
     and_then (require_len input 2) (\<lambda>_.
     and_then (Network_try_from (input ! 0)) (\<lambda>network.
     and_then (decode_runtime_metadata (drop 1 input)) (\<lambda>(address, port, consumed).
     Ok (ProxyHeader_new network address port, drop (1 + consumed) input))))"

section \<open>UDP-over-stream frames\<close>

definition encode_udp_datagram ::
    "ProxyHeader \<Rightarrow> bytes \<Rightarrow> bytes \<Rightarrow> (unit, ProtocolError) result \<times> bytes" where
  "encode_udp_datagram header payload dst =
     (let payload_len = length payload in
      if payload_len > 65535 then (Err (UdpPayloadTooLong payload_len), dst)
      else case ProxyHeader_encode_target_to header dst of
          (Err e, dst') \<Rightarrow> (Err e, dst')
        | (Ok _, dst') \<Rightarrow> (Ok (), put_slice (put_u16 dst' (of_nat payload_len)) payload))"

definition decode_udp_datagram ::
    "bytes \<Rightarrow> (ProxyHeader \<times> bytes \<times> bytes, ProtocolError) result" where
  "decode_udp_datagram input =
     and_then (decode_runtime_metadata input) (\<lambda>(address, port, consumed).
     (let rest = drop consumed input in
      and_then (require_len rest UDP_PAYLOAD_LENGTH_LEN) (\<lambda>_.
      (let payload_len = unat (u16_from_be_bytes (rest ! 0) (rest ! 1));
           frame_len = UDP_PAYLOAD_LENGTH_LEN + payload_len
       in and_then (require_len rest frame_len) (\<lambda>_.
          Ok (ProxyHeader_new Udp address port,
              slice UDP_PAYLOAD_LENGTH_LEN frame_len rest,
              drop frame_len rest))))))"

section \<open>The authentication command\<close>

type_synonym Uuid = "128 word"

definition Uuid_as_bytes :: "Uuid \<Rightarrow> bytes" where
  "Uuid_as_bytes = to_be_bytes 16"

definition Uuid_from_bytes :: "bytes \<Rightarrow> Uuid" where
  "Uuid_from_bytes = from_be_bytes"

record AuthenticationRequest =
  ar_uuid :: Uuid
  ar_token :: bytes \<comment> \<open>\<open>[u8; AUTH_TOKEN_LEN]\<close>\<close>

definition AuthenticationRequest_new :: "Uuid \<Rightarrow> bytes \<Rightarrow> AuthenticationRequest" where
  "AuthenticationRequest_new uuid token = \<lparr>ar_uuid = uuid, ar_token = token\<rparr>"

definition AuthenticationRequest_encoded_len :: "AuthenticationRequest \<Rightarrow> nat" where
  "AuthenticationRequest_encoded_len r = AUTHENTICATION_FRAME_LEN"

definition AuthenticationRequest_encode_to :: "AuthenticationRequest \<Rightarrow> bytes \<Rightarrow> bytes" where
  "AuthenticationRequest_encode_to r dst =
     put_slice
       (put_slice (put_u8 (put_u8 dst VERSION_0) CMD_AUTHENTICATION) (Uuid_as_bytes (ar_uuid r)))
       (ar_token r)"

definition AuthenticationRequest_decode ::
    "bytes \<Rightarrow> (AuthenticationRequest \<times> bytes, ProtocolError) result" where
  "AuthenticationRequest_decode input =
     and_then (require_len input AUTHENTICATION_FRAME_LEN) (\<lambda>_.
     (let version = input ! 0 in
      if version \<noteq> VERSION_0 then Err (UnexpectedVersion version)
      else let command = input ! 1 in
      if command \<noteq> CMD_AUTHENTICATION then Err (UnexpectedCommandType command)
      else
        (let uuid = slice COMMAND_HEADER_LEN (COMMAND_HEADER_LEN + AUTH_UUID_LEN) input;
             token = slice (COMMAND_HEADER_LEN + AUTH_UUID_LEN) AUTHENTICATION_FRAME_LEN input
         in Ok (AuthenticationRequest_new (Uuid_from_bytes uuid) token,
                drop AUTHENTICATION_FRAME_LEN input))))"

text \<open>The exporter fills the buffer it is given from a label and a context, or fails.\<close>

definition export_authentication_token ::
    "Uuid \<Rightarrow> bytes \<Rightarrow> (bytes \<Rightarrow> bytes \<Rightarrow> bytes \<Rightarrow> (bytes, ProtocolError) result)
     \<Rightarrow> (bytes, ProtocolError) result" where
  "export_authentication_token uuid password exporter =
     (let token = replicate AUTH_TOKEN_LEN 0 in
      and_then (exporter token (Uuid_as_bytes uuid) password) Ok)"

section \<open>Certificate-chain pin hash\<close>

definition cert_chain_step :: "(bytes \<Rightarrow> bytes) \<Rightarrow> bytes option \<Rightarrow> bytes \<Rightarrow> bytes option" where
  "cert_chain_step sha256 chain_hash cert =
     (let cert_hash = sha256 cert in
      Some (case chain_hash of
              None \<Rightarrow> cert_hash
            | Some previous \<Rightarrow> sha256 (previous @ cert_hash)))"

definition generate_cert_chain_hash :: "(bytes \<Rightarrow> bytes) \<Rightarrow> bytes list \<Rightarrow> bytes option" where
  "generate_cert_chain_hash sha256 raw_certs = foldl (cert_chain_step sha256) None raw_certs"

definition generate_cert_chain_hash_base64_from_pem ::
    "(bytes \<Rightarrow> bytes list option) \<Rightarrow> (bytes \<Rightarrow> bytes) \<Rightarrow> (bytes \<Rightarrow> string) \<Rightarrow> bytes
     \<Rightarrow> (string, ProtocolError) result" where
  "generate_cert_chain_hash_base64_from_pem pem_certs sha256 url_safe_encode pem =
     and_then (ok_or (pem_certs pem) InvalidCertificateChainPem) (\<lambda>raw_certs.
     and_then (ok_or (generate_cert_chain_hash sha256 raw_certs) InvalidCertificateChainPem)
       (\<lambda>chain_hash. Ok (url_safe_encode chain_hash)))"


section \<open>Correctness of the metadata codec\<close>

fun wf_address :: "ProxyAddress \<Rightarrow> bool" where
  "wf_address (Domain d) = (length d \<le> 255)"
| "wf_address _ = True"

definition metadata_bytes :: "ProxyAddress \<Rightarrow> u16 \<Rightarrow> bytes" where
  "metadata_bytes a p = snd (encode_runtime_metadata a p [])"

lemma encode_runtime_metadata_eq:
  "encode_runtime_metadata a p dst =
     (if wf_address a then (Ok (), dst @ metadata_bytes a p)
      else (Err (DomainTooLong (runtime_metadata_len a - 4)), dst))"
  by (cases a) (simp_all add: encode_runtime_metadata_def metadata_bytes_def put_defs Let_def)

lemma length_metadata_bytes:
  "wf_address a \<Longrightarrow> length (metadata_bytes a p) = runtime_metadata_len a"
  by (cases a) (simp_all add: encode_runtime_metadata_def metadata_bytes_def put_defs Let_def)

lemma metadata_bytes_simps:
  "metadata_bytes (Ipv4 v4) p = RUNTIME_ADDR_TYPE_IPV4 # Ipv4Addr_octets v4 @ to_be_bytes 2 p"
  "metadata_bytes (Ipv6 v6) p = RUNTIME_ADDR_TYPE_IPV6 # Ipv6Addr_octets v6 @ to_be_bytes 2 p"
  "length d \<le> 255 \<Longrightarrow> metadata_bytes (Domain d) p =
     RUNTIME_ADDR_TYPE_DOMAIN # of_nat (length d) # d @ to_be_bytes 2 p"
  by (simp_all add: encode_runtime_metadata_def metadata_bytes_def put_defs Let_def)

lemma decode_metadata_bytes:
  assumes "wf_address a"
  shows "decode_runtime_metadata (metadata_bytes a p @ rest) = Ok (a, p, runtime_metadata_len a)"
proof (cases a)
  case (Ipv4 v4)
  obtain b0 b1 b2 b3 where "Ipv4Addr_octets v4 = [b0, b1, b2, b3]" "v4 = Ipv4Addr_new b0 b1 b2 b3"
    by (rule Ipv4Addr_octets_cases)
  then show ?thesis
    by (simp add: Ipv4 metadata_bytes_simps decode_runtime_metadata_def require_len_def
        wire_simps to_be_bytes_2)
next
  case (Ipv6 v6)
  have s: "slice (Suc 0) 17 (b # Ipv6Addr_octets v6 @ r) = Ipv6Addr_octets v6" for b r
    by (simp add: slice_def)
  have n: "(Ipv6Addr_octets v6 @ x # y # r) ! 16 = x"
    "(Ipv6Addr_octets v6 @ x # y # r) ! 17 = y" for x y r
    by (simp_all add: nth_append)
  show ?thesis
    by (simp add: Ipv6 metadata_bytes_simps decode_runtime_metadata_def require_len_def
        wire_simps to_be_bytes_2 s n)
next
  case (Domain d)
  with assms have d: "length d \<le> 255" by simp
  have s: "slice 2 (2 + length d) (b # c # d @ r) = d" for b c r
    by (simp add: slice_def)
  have n: "(b # c # d @ x # y # r) ! (2 + length d) = x"
    "(b # c # d @ x # y # r) ! (3 + length d) = y" for b c x y r
    by (simp_all add: nth_append numeral_eq_Suc)
  show ?thesis
    using d s n by (simp add: Domain metadata_bytes_simps decode_runtime_metadata_def require_len_def
        wire_simps to_be_bytes_2 unat_of_nat_u8)
qed

lemma require_len_Ok [simp]: "require_len input n = Ok u \<longleftrightarrow> n \<le> length input"
  by (simp add: require_len_def not_less)

lemma require_len_Err [simp]:
  "require_len input n = Err e \<longleftrightarrow> length input < n \<and> e = Truncated n (length input)"
  by (auto simp: require_len_def)

lemma take_slice: "i \<le> j \<Longrightarrow> take j xs = take i xs @ slice i j xs"
  by (metis le_add_diff_inverse slice_def take_add)

lemma decode_runtime_metadata_sound:
  assumes "decode_runtime_metadata input = Ok (a, p, n)"
  shows "wf_address a \<and> n = runtime_metadata_len a \<and> n \<le> length input
    \<and> take n input = metadata_bytes a p"
proof -
  have ne: "1 \<le> length input"
    using assms by (simp add: decode_runtime_metadata_def result_simps)
  then have t1: "take 1 input = [input ! 0]" by (cases input) auto
  consider (v4) "input ! 0 = RUNTIME_ADDR_TYPE_IPV4" | (v6) "input ! 0 = RUNTIME_ADDR_TYPE_IPV6"
    | (dom) "input ! 0 = RUNTIME_ADDR_TYPE_DOMAIN"
    using assms by (auto simp: decode_runtime_metadata_def result_simps split: if_splits)
  then show ?thesis
  proof cases
    case v4
    with assms have r: "a = Ipv4 (Ipv4Addr_new (input ! 1) (input ! 2) (input ! 3) (input ! 4))"
      "p = u16_from_be_bytes (input ! 5) (input ! 6)" "n = 7" "7 \<le> length input"
      by (auto simp: decode_runtime_metadata_def result_simps Let_def)
    with t1 have "take 7 input =
        [input ! 0, input ! 1, input ! 2, input ! 3, input ! 4, input ! 5, input ! 6]"
      by (simp add: numeral_eq_Suc take_Suc_conv_app_nth)
    with r v4 show ?thesis by (simp add: metadata_bytes_simps)
  next
    case v6
    with assms have r: "a = Ipv6 (Ipv6Addr_from (slice 1 17 input))"
      "p = u16_from_be_bytes (input ! 17) (input ! 18)" "n = 19" "19 \<le> length input"
      by (auto simp: decode_runtime_metadata_def result_simps Let_def wire_simps)
    have "take 19 input = take 1 input @ slice 1 17 input @ slice 17 (17 + 2) input"
      using take_slice [of 1 17 input] take_slice [of 17 19 input] by simp
    moreover have "slice 17 19 input = [input ! 17, input ! 18]"
      using slice_two [of 17 input] r(4) by simp
    ultimately show ?thesis using r v6 t1 by (simp add: metadata_bytes_simps)
  next
    case dom
    let ?l = "unat (input ! 1)"
    from dom assms have r: "a = Domain (slice 2 (2 + ?l) input)"
      "p = u16_from_be_bytes (input ! (2 + ?l)) (input ! (2 + ?l + 1))" "n = 4 + ?l"
      "4 + ?l \<le> length input"
      by (auto simp: decode_runtime_metadata_def result_simps Let_def wire_simps)
    have l: "length (slice 2 (2 + ?l) input) = ?l" using r(4) by simp
    have t2: "take 2 input = [input ! 0, input ! 1]"
      using r(4) t1 by (simp add: numeral_eq_Suc take_Suc_conv_app_nth)
    have "take (4 + ?l) input =
        take 2 input @ slice 2 (2 + ?l) input @ slice (2 + ?l) (2 + ?l + 2) input"
      using take_slice [of 2 "2 + ?l" input] take_slice [of "2 + ?l" "4 + ?l" input]
      by (simp add: numeral_eq_Suc)
    moreover have "slice (2 + ?l) (2 + ?l + 2) input = [input ! (2 + ?l), input ! (2 + ?l + 1)]"
      using slice_two [of "2 + ?l" input] r(4) by simp
    ultimately have "take (4 + ?l) input = [input ! 0, input ! 1] @ slice 2 (2 + ?l) input @
        [input ! (2 + ?l), input ! (2 + ?l + 1)]"
      by (simp only: t2)
    with r(1-3) r(4) dom l unat_byte_le [of "input ! 1"] show ?thesis
      by (simp add: metadata_bytes_simps)
  qed
qed

lemma decode_runtime_metadata_truncated:
  assumes "wf_address a" and "k < length (metadata_bytes a p)"
  shows "\<exists>n. decode_runtime_metadata (take k (metadata_bytes a p)) = Err (Truncated n k)
    \<and> k < n \<and> n \<le> length (metadata_bytes a p)"
proof (cases "k = 0")
  case True
  with assms show ?thesis
    by (cases a) (auto simp: decode_runtime_metadata_def require_len_def length_metadata_bytes)
next
  case False
  then obtain j where k: "k = Suc j" by (cases k) auto
  show ?thesis
  proof (cases a)
    case (Domain d)
    with assms have d: "length d \<le> 255" by simp
    show ?thesis
      using assms d
      by (cases j) (auto simp: k Domain metadata_bytes_simps decode_runtime_metadata_def
          require_len_def wire_simps unat_of_nat_u8 Let_def min_def)
  qed (use assms in \<open>auto simp: k metadata_bytes_simps decode_runtime_metadata_def require_len_def
      wire_simps Let_def min_def\<close>)
qed


section \<open>The three frame formats as codecs\<close>

definition header_bytes :: "ProxyHeader \<Rightarrow> bytes" where
  "header_bytes h = snd (ProxyHeader_encode_to h [])"

definition valid_header :: "ProxyHeader \<Rightarrow> bool" where
  "valid_header h \<longleftrightarrow> wf_address (ph_address h)"

lemma ProxyHeader_encode_to_eq:
  "ProxyHeader_encode_to h dst =
     (if valid_header h then (Ok (), dst @ header_bytes h)
      else (Err (DomainTooLong (runtime_metadata_len (ph_address h) - 4)),
            dst @ [Network_as_u8 (ph_network h)]))"
  by (simp add: ProxyHeader_encode_to_def header_bytes_def valid_header_def
      encode_runtime_metadata_eq put_u8_def)

lemma header_bytes_eq:
  "valid_header h \<Longrightarrow>
     header_bytes h = Network_as_u8 (ph_network h) # metadata_bytes (ph_address h) (ph_port h)"
  by (simp add: ProxyHeader_encode_to_def header_bytes_def valid_header_def
      encode_runtime_metadata_eq put_u8_def)

lemma Network_try_from_as_u8 [simp]: "Network_try_from (Network_as_u8 n) = Ok n"
  by (cases n) (simp_all add: Network_try_from_def wire_simps)

lemma Network_try_from_Ok: "Network_try_from b = Ok n \<longleftrightarrow> b = Network_as_u8 n"
  by (cases n) (auto simp: Network_try_from_def wire_simps split: if_splits)

lemma metadata_len_ge: "4 \<le> runtime_metadata_len a"
  by (cases a) auto

lemma ProxyHeader_decode_sound:
  assumes "ProxyHeader_decode input = Ok (h, rest)"
  shows "valid_header h \<and> input = header_bytes h @ rest"
proof -
  from assms obtain n a p c where len: "2 \<le> length input"
    and n: "input ! 0 = Network_as_u8 n"
    and m: "decode_runtime_metadata (drop 1 input) = Ok (a, p, c)"
    and h: "h = ProxyHeader_new n a p" and rest: "rest = drop (1 + c) input"
    by (auto simp: ProxyHeader_decode_def result_simps Network_try_from_Ok)
  from decode_runtime_metadata_sound [OF m] have c: "wf_address a"
    "take c (drop 1 input) = metadata_bytes a p" by auto
  have "input = input ! 0 # drop 1 input" using len by (cases input) auto
  also have "drop 1 input = metadata_bytes a p @ rest"
    using c(2) rest by (metis append_take_drop_id drop_drop add.commute)
  finally show ?thesis
    using c(1) n h by (simp add: valid_header_def header_bytes_eq ProxyHeader_new_def)
qed

lemma ProxyHeader_decode_encode:
  assumes "valid_header h"
  shows "ProxyHeader_decode (header_bytes h @ rest) = Ok (h, rest)"
  using assms metadata_len_ge [of "ph_address h"]
  by (simp add: ProxyHeader_decode_def header_bytes_eq require_len_def length_metadata_bytes
      valid_header_def decode_metadata_bytes ProxyHeader_new_def)

interpretation header: frame_codec header_bytes ProxyHeader_decode valid_header
  by unfold_locales
     (blast intro: ProxyHeader_decode_encode dest: ProxyHeader_decode_sound
       | simp add: header_bytes_eq)+

definition udp_frame_bytes :: "ProxyHeader \<times> bytes \<Rightarrow> bytes" where
  "udp_frame_bytes f = snd (encode_udp_datagram (fst f) (snd f) [])"

definition udp_frame_decode ::
    "bytes \<Rightarrow> ((ProxyHeader \<times> bytes) \<times> bytes, ProtocolError) result" where
  "udp_frame_decode input = map_ok (\<lambda>(h, p, r). ((h, p), r)) (decode_udp_datagram input)"

definition valid_udp_frame :: "ProxyHeader \<times> bytes \<Rightarrow> bool" where
  "valid_udp_frame f \<longleftrightarrow>
     ph_network (fst f) = Udp \<and> wf_address (ph_address (fst f)) \<and> length (snd f) \<le> 65535"

lemma encode_udp_datagram_eq:
  "encode_udp_datagram h p dst =
     (if 65535 < length p then (Err (UdpPayloadTooLong (length p)), dst)
      else if wf_address (ph_address h) then
        (Ok (), dst @ metadata_bytes (ph_address h) (ph_port h) @ to_be_bytes 2 (of_nat (length p) :: u16) @ p)
      else (Err (DomainTooLong (runtime_metadata_len (ph_address h) - 4)), dst))"
  by (simp add: encode_udp_datagram_def ProxyHeader_encode_target_to_def
      encode_runtime_metadata_eq Let_def put_defs)

lemma udp_frame_bytes_eq:
  "valid_udp_frame f \<Longrightarrow> udp_frame_bytes f =
     metadata_bytes (ph_address (fst f)) (ph_port (fst f))
       @ to_be_bytes 2 (of_nat (length (snd f)) :: u16) @ snd f"
  by (simp add: udp_frame_bytes_def valid_udp_frame_def encode_udp_datagram_eq)

lemma decode_udp_datagram_encode:
  assumes "valid_udp_frame (h, p)"
  shows "decode_udp_datagram (udp_frame_bytes (h, p) @ rest) = Ok (h, p, rest)"
proof -
  from assms have w: "wf_address (ph_address h)" "ph_network h = Udp" "length p \<le> 65535"
    by (auto simp: valid_udp_frame_def)
  have s: "slice 2 (2 + length p) (x # y # p @ r) = p" for x y r
    by (simp add: slice_def)
  show ?thesis
    using w s assms length_metadata_bytes [OF w(1), of "ph_port h"]
    by (simp add: udp_frame_bytes_eq decode_udp_datagram_def decode_metadata_bytes
        to_be_bytes_2 require_len_def wire_simps unat_of_nat_u16 ProxyHeader_new_def)
qed

lemma decode_udp_datagram_sound:
  assumes "decode_udp_datagram input = Ok (h, p, rest)"
  shows "valid_udp_frame (h, p) \<and> input = udp_frame_bytes (h, p) @ rest"
proof -
  from assms obtain a q c where m: "decode_runtime_metadata input = Ok (a, q, c)"
    and len: "2 + unat (u16_from_be_bytes (drop c input ! 0) (drop c input ! 1)) \<le> length (drop c input)"
    and h: "h = ProxyHeader_new Udp a q"
    and p: "p = slice 2 (2 + unat (u16_from_be_bytes (drop c input ! 0) (drop c input ! 1))) (drop c input)"
    and rest: "rest = drop (2 + unat (u16_from_be_bytes (drop c input ! 0) (drop c input ! 1))) (drop c input)"
    by (auto simp: decode_udp_datagram_def result_simps Let_def wire_simps
        simp del: nth_drop drop_drop add_2_eq_Suc length_drop)
  define r where "r = drop c input"
  define l where "l = unat (u16_from_be_bytes (r ! 0) (r ! 1))"
  from decode_runtime_metadata_sound [OF m] have a: "wf_address a"
    "input = metadata_bytes a q @ r"
    unfolding r_def by (auto, metis append_take_drop_id)
  note len = len [folded r_def, folded l_def] and p = p [folded r_def, folded l_def]
    and rest = rest [folded r_def, folded l_def]
  have lp: "length p = l" using len p by simp
  have two: "take 2 r = [r ! 0, r ! 1]"
    using len by (cases r rule: list.exhaust; cases "tl r") auto
  have "r = take 2 r @ p @ rest"
    using p rest drop_slice [of 2 "2 + l" r] by (metis append_take_drop_id le_add1)
  moreover have "to_be_bytes 2 (of_nat l :: u16) = [r ! 0, r ! 1]"
    by (simp add: l_def)
  ultimately have "r = to_be_bytes 2 (of_nat (length p) :: u16) @ p @ rest"
    using two lp by simp
  moreover have "length p \<le> 65535" using lp unat_u16_le by (simp add: l_def)
  ultimately show ?thesis
    using a h by (simp add: udp_frame_bytes_eq valid_udp_frame_def ProxyHeader_new_def)
qed

interpretation udp_frame: frame_codec udp_frame_bytes udp_frame_decode valid_udp_frame
proof unfold_locales
  show "udp_frame_decode (udp_frame_bytes x @ rest) = Ok (x, rest)" if "valid_udp_frame x" for x rest
    using that by (cases x) (simp add: udp_frame_decode_def decode_udp_datagram_encode)
  show "valid_udp_frame x \<and> bs = udp_frame_bytes x @ rest" if "udp_frame_decode bs = Ok (x, rest)"
    for bs x rest
    using that by (auto simp: udp_frame_decode_def result_simps dest: decode_udp_datagram_sound)
  show "udp_frame_bytes x \<noteq> []" if "valid_udp_frame x" for x
    using that by (simp add: udp_frame_bytes_eq to_be_bytes_2)
qed

definition auth_bytes :: "AuthenticationRequest \<Rightarrow> bytes" where
  "auth_bytes r = AuthenticationRequest_encode_to r []"

definition valid_auth :: "AuthenticationRequest \<Rightarrow> bool" where
  "valid_auth r \<longleftrightarrow> length (ar_token r) = AUTH_TOKEN_LEN"

lemma Uuid_bytes [simp]:
  "length (Uuid_as_bytes u) = 16" "Uuid_from_bytes (Uuid_as_bytes u) = u"
  "length bs = 16 \<Longrightarrow> Uuid_as_bytes (Uuid_from_bytes bs) = bs"
  by (simp_all add: Uuid_as_bytes_def Uuid_from_bytes_def from_be_bytes_to_be_bytes
      to_be_bytes_from_be_bytes)

lemma auth_bytes_eq: "auth_bytes r = 0 # 0 # Uuid_as_bytes (ar_uuid r) @ ar_token r"
  by (simp add: auth_bytes_def AuthenticationRequest_encode_to_def put_defs wire_simps)

lemma AuthenticationRequest_decode_encode:
  "valid_auth r \<Longrightarrow> AuthenticationRequest_decode (auth_bytes r @ rest) = Ok (r, rest)"
  by (simp add: AuthenticationRequest_decode_def auth_bytes_eq valid_auth_def wire_simps
      require_len_def slice_def AuthenticationRequest_new_def)

lemma AuthenticationRequest_decode_sound:
  assumes "AuthenticationRequest_decode input = Ok (r, rest)"
  shows "valid_auth r \<and> input = auth_bytes r @ rest"
proof -
  from assms have d: "50 \<le> length input" "input ! 0 = 0" "input ! 1 = 0"
    "r = AuthenticationRequest_new (Uuid_from_bytes (slice 2 18 input)) (slice 18 50 input)"
    "rest = drop 50 input"
    by (auto simp: AuthenticationRequest_decode_def result_simps Let_def wire_simps split: if_splits)
  have "take 2 input = [0, 0]"
    using d(1-3) by (cases input rule: list.exhaust; cases "tl input") auto
  moreover have "input = take 2 input @ slice 2 18 input @ slice 18 50 input @ drop 50 input"
    using drop_slice [of 2 18 input] drop_slice [of 18 50 input] append_take_drop_id [of 2 input]
    by simp
  ultimately show ?thesis
    using d by (simp add: valid_auth_def auth_bytes_eq AuthenticationRequest_new_def wire_simps)
qed

interpretation auth: frame_codec auth_bytes AuthenticationRequest_decode valid_auth
  by unfold_locales
     (blast intro: AuthenticationRequest_decode_encode dest: AuthenticationRequest_decode_sound
       | simp add: auth_bytes_eq)+


section \<open>Cut-off frames\<close>

lemma ProxyHeader_decode_cut_off:
  assumes v: "valid_header h" and k: "k < length (header_bytes h)"
  shows "\<exists>n av. ProxyHeader_decode (take k (header_bytes h)) = Err (Truncated n av) \<and> av < n \<and> av \<le> k"
proof (cases "k < 2")
  case True
  with k show ?thesis by (auto simp: ProxyHeader_decode_def require_len_def)
next
  case False
  define m where "m = metadata_bytes (ph_address h) (ph_port h)"
  have hb: "header_bytes h = Network_as_u8 (ph_network h) # m"
    using v by (simp add: header_bytes_eq m_def)
  from False obtain j where j: "k = Suc j" "1 \<le> j" by (cases k) auto
  with k hb have jm: "j < length m" by simp
  then obtain n where n: "decode_runtime_metadata (take j m) = Err (Truncated n j)" "j < n"
    using v decode_runtime_metadata_truncated [of "ph_address h" j "ph_port h"]
    by (auto simp: m_def valid_header_def)
  moreover have "2 \<le> length (take k (header_bytes h))" using False k by simp
  ultimately have "ProxyHeader_decode (take k (header_bytes h)) = Err (Truncated n j)"
    using jm by (simp add: ProxyHeader_decode_def require_len_def hb j min_def)
  with n j show ?thesis by auto
qed

section \<open>The certificate-chain pin\<close>

lemma generate_cert_chain_hash_snoc:
  "generate_cert_chain_hash sha256 (cs @ [c]) =
     (case generate_cert_chain_hash sha256 cs of
        None \<Rightarrow> Some (sha256 c) | Some previous \<Rightarrow> Some (sha256 (previous @ sha256 c)))"
  by (simp add: generate_cert_chain_hash_def cert_chain_step_def Let_def split: option.split)

lemma generate_cert_chain_hash_None [simp]:
  "generate_cert_chain_hash sha256 cs = None \<longleftrightarrow> cs = []"
proof (cases cs rule: rev_cases)
  case (snoc ds d)
  then show ?thesis by (simp add: generate_cert_chain_hash_snoc split: option.split)
qed (simp add: generate_cert_chain_hash_def)

lemma generate_cert_chain_hash_single [simp]:
  "generate_cert_chain_hash sha256 [c] = Some (sha256 c)"
  by (simp add: generate_cert_chain_hash_def cert_chain_step_def)

lemma length_generate_cert_chain_hash:
  assumes "\<And>x. length (sha256 x) = 32" and "generate_cert_chain_hash sha256 cs = Some h"
  shows "length h = 32"
  using assms(2)
  by (cases cs rule: rev_cases)
     (auto simp: generate_cert_chain_hash_snoc assms(1) split: option.splits
       simp: generate_cert_chain_hash_def [of _ "[]"])

lemma cert_chain_hash_inj:
  assumes len: "\<And>x. length (sha256 x) = 32" and inj: "inj sha256"
    and "\<forall>c \<in> set cs \<union> set ds. length c \<noteq> 64"
    and "generate_cert_chain_hash sha256 cs = generate_cert_chain_hash sha256 ds"
  shows "cs = ds"
  using assms(3,4)
proof (induction cs arbitrary: ds rule: rev_induct)
  case Nil
  then show ?case by (metis generate_cert_chain_hash_None)
next
  case (snoc c cs)
  then obtain d es where ds: "ds = es @ [d]"
    by (metis generate_cert_chain_hash_None rev_exhaust snoc_eq_iff_butlast)
  note l = length_generate_cert_chain_hash [OF len] and eq = injD [OF inj]
  show ?case
  proof (cases "generate_cert_chain_hash sha256 cs"; cases "generate_cert_chain_hash sha256 es")
    fix p q assume p: "generate_cert_chain_hash sha256 cs = Some p"
      and q: "generate_cert_chain_hash sha256 es = Some q"
    with snoc.prems ds have "p @ sha256 c = q @ sha256 d"
      by (auto simp: generate_cert_chain_hash_snoc dest: eq)
    with l [OF p] l [OF q] have "p = q" "c = d" by (auto dest: eq)
    with snoc p q ds show ?thesis by auto
  qed (use snoc.prems ds in \<open>auto simp: generate_cert_chain_hash_snoc len dest!: eq dest: l\<close>)
qed

section \<open>Properties\<close>

text \<open>
  C25: the proxy header codec is exact. The decoder accepts an input with header \<open>h\<close> and
  remainder \<open>rest\<close> precisely when the encoder accepts \<open>h\<close> and the input is its encoding
  followed by \<open>rest\<close>: encodings round-trip, every accepted input is canonical, and no
  byte after the header is consumed.
\<close>

theorem proxy_header_codec_exact:
  "ProxyHeader_decode input = Ok (h, rest) \<longleftrightarrow>
     fst (ProxyHeader_encode_to h []) = Ok () \<and> input = snd (ProxyHeader_encode_to h []) @ rest"
  by (auto simp: header.decode_iff ProxyHeader_encode_to_eq)

text \<open>
  The encoder appends exactly \<open>encoded_len\<close> bytes to the buffer it is given, whatever
  the buffer holds; it fails only for a domain of more than 255 bytes.
\<close>

theorem proxy_header_encode_appends:
  "(wf_address (ph_address h) \<longrightarrow>
      (\<exists>enc. ProxyHeader_encode_to h dst = (Ok (), dst @ enc)
         \<and> length enc = ProxyHeader_encoded_len h)) \<and>
   (\<not> wf_address (ph_address h) \<longrightarrow>
      (\<exists>d. ph_address h = Domain d \<and> 255 < length d \<and>
         fst (ProxyHeader_encode_to h dst) = Err (DomainTooLong (length d))))"
  by (cases "ph_address h")
     (auto simp: ProxyHeader_encode_to_eq valid_header_def ProxyHeader_encoded_len_def
       header_bytes_eq length_metadata_bytes)

theorem proxy_header_encode_appends_witness:
  "ProxyHeader_encode_to (ProxyHeader_new Tcp (Domain []) 80) [7] = (Ok (), [7, 1, 3, 0, 0, 80])
   \<and> fst (ProxyHeader_encode_to (ProxyHeader_new Tcp (Domain (replicate 256 97)) 443) [])
       = Err (DomainTooLong 256)"
proof -
  have "wf_address (ph_address (ProxyHeader_new Tcp (Domain []) 80))"
    by (simp add: ProxyHeader_new_def)
  then obtain enc where
    "ProxyHeader_encode_to (ProxyHeader_new Tcp (Domain []) 80) [7] = (Ok (), [7] @ enc)"
    using proxy_header_encode_appends [of "ProxyHeader_new Tcp (Domain []) 80" "[7]"] by auto
  moreover have "\<not> wf_address (ph_address (ProxyHeader_new Tcp (Domain (replicate 256 97)) 443))"
    by (simp add: ProxyHeader_new_def)
  then have "fst (ProxyHeader_encode_to (ProxyHeader_new Tcp (Domain (replicate 256 97)) 443) [])
      = Err (DomainTooLong 256)"
    using proxy_header_encode_appends [of "ProxyHeader_new Tcp (Domain (replicate 256 97)) 443" "[]"]
    by (auto simp: ProxyHeader_new_def)
  ultimately show ?thesis
    by (simp add: ProxyHeader_encode_to_def ProxyHeader_new_def encode_runtime_metadata_def put_defs
        wire_simps to_be_bytes_2)
qed

text \<open>
  A header that is cut off anywhere is reported as truncated, never as an unknown
  network or address type and never accepted: the error says more bytes are needed than
  the input had, so a reader can wait for more.
\<close>

theorem proxy_header_cut_off_is_truncated:
  assumes "ProxyHeader_encode_to h [] = (Ok (), enc)" and "k < length enc"
  shows "\<exists>needed available. ProxyHeader_decode (take k enc) = Err (Truncated needed available)
    \<and> available < needed \<and> available \<le> k"
  using assms ProxyHeader_decode_cut_off [of h k]
  by (auto simp: ProxyHeader_encode_to_eq split: if_splits)

theorem proxy_header_cut_off_is_truncated_witness:
  "ProxyHeader_encode_to (ProxyHeader_new Udp (Domain [97, 98]) 53) [] = (Ok (), [3, 3, 2, 97, 98, 0, 53])
   \<and> (\<exists>needed available. ProxyHeader_decode (take 5 [3, 3, 2, 97, 98, 0, 53]) =
        Err (Truncated needed available) \<and> available < needed \<and> available \<le> 5)"
proof -
  have e: "ProxyHeader_encode_to (ProxyHeader_new Udp (Domain [97, 98]) 53) []
      = (Ok (), [3, 3, 2, 97, 98, 0, 53])"
    by (simp add: ProxyHeader_encode_to_def ProxyHeader_new_def encode_runtime_metadata_def put_defs
        wire_simps to_be_bytes_2)
  have "5 < length [3, 3, 2, 97, 98, 0, 53 :: byte]" by simp
  from proxy_header_cut_off_is_truncated [OF e this] e show ?thesis by blast
qed

text \<open>
  UDP-over-stream framing. Any sequence of datagrams the encoder accepts, written one
  after the other on a stream, is read back by the decoder as the same datagrams in the
  same order, and the bytes after the last frame are left alone.
\<close>

theorem udp_frames_read_back:
  assumes "\<forall>(h, p) \<in> set fs. ph_network h = Udp \<and> fst (encode_udp_datagram h p []) = Ok ()"
  shows "decode_frames (\<lambda>bs. map_ok (\<lambda>(h, p, r). ((h, p), r)) (decode_udp_datagram bs)) (length fs)
      (concat (map (\<lambda>(h, p). snd (encode_udp_datagram h p [])) fs) @ rest) = Ok (fs, rest)"
proof -
  have "\<forall>f \<in> set fs. valid_udp_frame f"
    using assms by (fastforce simp: valid_udp_frame_def encode_udp_datagram_eq split: if_splits)
  from udp_frame.decode_frames_encode [OF this, of rest] show ?thesis
    by (simp add: udp_frame_decode_def [abs_def] udp_frame_bytes_def [abs_def] case_prod_unfold)
qed

theorem udp_frames_read_back_witness:
  "decode_frames (\<lambda>bs. map_ok (\<lambda>(h, p, r). ((h, p), r)) (decode_udp_datagram bs)) 2
      (concat (map (\<lambda>(h, p). snd (encode_udp_datagram h p []))
        [(ProxyHeader_new Udp (Domain [97]) 53, [1, 2]), (ProxyHeader_new Udp (Ipv4 0) 80, [])]) @ [9])
    = Ok ([(ProxyHeader_new Udp (Domain [97]) 53, [1, 2]), (ProxyHeader_new Udp (Ipv4 0) 80, [])], [9])"
proof -
  let ?fs = "[(ProxyHeader_new Udp (Domain [97]) 53, [1, 2]), (ProxyHeader_new Udp (Ipv4 0) 80, [])]"
  have "\<forall>(h, p) \<in> set ?fs. ph_network h = Udp \<and> fst (encode_udp_datagram h p []) = Ok ()"
    by (simp add: encode_udp_datagram_eq ProxyHeader_new_def)
  from udp_frames_read_back [OF this, of "[9]"] show ?thesis by (simp add: numeral_2_eq_2)
qed

text \<open>
  The UDP frame codec is exact: the decoder accepts precisely the encodings of
  datagrams with a UDP header, a representable address and at most 65535 payload bytes.
\<close>

theorem udp_datagram_codec_exact:
  "decode_udp_datagram input = Ok (h, payload, rest) \<longleftrightarrow>
     ph_network h = Udp \<and> fst (encode_udp_datagram h payload []) = Ok ()
     \<and> input = snd (encode_udp_datagram h payload []) @ rest"
proof -
  have "decode_udp_datagram input = Ok (h, payload, rest) \<longleftrightarrow>
      udp_frame_decode input = Ok ((h, payload), rest)"
    by (auto simp: udp_frame_decode_def result_simps)
  also have "\<dots> \<longleftrightarrow> valid_udp_frame (h, payload) \<and> input = udp_frame_bytes (h, payload) @ rest"
    by (rule udp_frame.decode_iff)
  finally show ?thesis
    by (auto simp: valid_udp_frame_def udp_frame_bytes_def encode_udp_datagram_eq split: if_splits)
qed

text \<open>
  The authentication command. The decoder accepts exactly the 50-byte frames the
  encoder writes (a frame carries a 32-byte token by its type), and rejects a wrong
  version before a wrong command and both only once the whole frame is there.
\<close>

theorem authentication_codec_exact:
  "(AuthenticationRequest_decode input = Ok (r, rest) \<longleftrightarrow>
      length (ar_token r) = AUTH_TOKEN_LEN \<and> input = AuthenticationRequest_encode_to r [] @ rest) \<and>
   (AuthenticationRequest_decode input = Err e \<longleftrightarrow>
      (length input < AUTHENTICATION_FRAME_LEN \<and> e = Truncated AUTHENTICATION_FRAME_LEN (length input))
      \<or> (AUTHENTICATION_FRAME_LEN \<le> length input \<and> input ! 0 \<noteq> VERSION_0
           \<and> e = UnexpectedVersion (input ! 0))
      \<or> (AUTHENTICATION_FRAME_LEN \<le> length input \<and> input ! 0 = VERSION_0
           \<and> input ! 1 \<noteq> CMD_AUTHENTICATION \<and> e = UnexpectedCommandType (input ! 1)))"
proof
  show "AuthenticationRequest_decode input = Ok (r, rest) \<longleftrightarrow>
      length (ar_token r) = AUTH_TOKEN_LEN \<and> input = AuthenticationRequest_encode_to r [] @ rest"
    using auth.decode_iff [of input r rest] by (simp add: valid_auth_def auth_bytes_def)
qed (auto simp: AuthenticationRequest_decode_def result_simps Let_def)

text \<open>
  The certificate-chain pin binds the chain. For any hash with 32-byte digests, two
  chains of certificates with the same pin are the same chain, or the hash has a
  collision; certificates are never exactly 64 bytes long (an inner node of the chain is).
\<close>

theorem cert_chain_pin_binds:
  assumes "\<And>x. length (sha256 x) = 32"
    and "\<forall>c \<in> set cs \<union> set ds. length c \<noteq> 64"
    and "generate_cert_chain_hash sha256 cs = generate_cert_chain_hash sha256 ds"
  shows "cs = ds \<or> (\<exists>x y. x \<noteq> y \<and> sha256 x = sha256 y)"
  using cert_chain_hash_inj [OF assms(1) _ assms(2,3)] by (auto simp: inj_on_def)

theorem cert_chain_pin_binds_witness:
  "generate_cert_chain_hash (\<lambda>x. take 32 (x @ replicate 32 0)) [[1, 2], [3]]
     = generate_cert_chain_hash (\<lambda>x. take 32 (x @ replicate 32 0)) [[1, 2], [4]]
   \<and> ([[1, 2], [3 :: byte]] = [[1, 2], [4]]
     \<or> (\<exists>x y :: bytes. x \<noteq> y \<and> take 32 (x @ replicate 32 0) = take 32 (y @ replicate 32 0)))"
proof -
  let ?h = "\<lambda>x :: bytes. take 32 (x @ replicate 32 0)"
  have l: "length (?h x) = 32" for x by simp
  have s: "\<forall>c \<in> set [[1, 2], [3]] \<union> set [[1, 2], [4 :: byte]]. length c \<noteq> 64" by simp
  have e: "generate_cert_chain_hash ?h [[1, 2], [3]] = generate_cert_chain_hash ?h [[1, 2], [4]]"
    by (simp add: generate_cert_chain_hash_def cert_chain_step_def Let_def)
  from cert_chain_pin_binds [OF l s e] e show ?thesis by blast
qed

end
