(* ===== verification/Text.thy ===== *)
theory Text
  imports Prelude
begin

text \<open>
  The parts of Rust's \<^verbatim>\<open>str\<close>, \<^verbatim>\<open>std::fmt\<close> and \<^verbatim>\<open>FromStr\<close> that the sources use. A Rust
  string is the list of its UTF-8 bytes; a HOL \<open>string\<close> is a list of 8-bit characters, so
  \<open>string\<close> models both \<^verbatim>\<open>&str\<close> and \<^verbatim>\<open>String\<close>, with \<open>as_bytes\<close> giving the bytes as words.
\<close>

section \<open>Strings and bytes\<close>

definition byte_of_char :: "char \<Rightarrow> byte" where
  "byte_of_char c = word_of_nat (of_char c)"

definition char_of_byte :: "byte \<Rightarrow> char" where
  "char_of_byte b = char_of (unat b)"

definition as_bytes :: "string \<Rightarrow> bytes" where
  "as_bytes s = map byte_of_char s"

definition str_of_bytes :: "bytes \<Rightarrow> string" where
  "str_of_bytes bs = map char_of_byte bs"

lemma char_of_byte_of_char [simp]: "char_of_byte (byte_of_char c) = c"
proof -
  have "(of_char c :: nat) < 256" by simp
  then show ?thesis by (simp add: char_of_byte_def byte_of_char_def unat_of_nat)
qed

lemma byte_of_char_of_byte [simp]: "byte_of_char (char_of_byte b) = b"
proof -
  have "unat b < 256" using unsigned_less [where 'a = nat, of b] by simp
  then show ?thesis
    by (simp add: char_of_byte_def byte_of_char_def)
qed

lemma as_bytes_str_of_bytes [simp]: "as_bytes (str_of_bytes bs) = bs"
  by (simp add: as_bytes_def str_of_bytes_def comp_def)

lemma str_of_bytes_as_bytes [simp]: "str_of_bytes (as_bytes s) = s"
  by (simp add: as_bytes_def str_of_bytes_def comp_def)

lemma length_as_bytes [simp]: "length (as_bytes s) = length s"
  and length_str_of_bytes [simp]: "length (str_of_bytes bs) = length bs"
  by (simp_all add: as_bytes_def str_of_bytes_def)

lemma as_bytes_inject [simp]: "as_bytes s = as_bytes t \<longleftrightarrow> s = t"
  by (metis str_of_bytes_as_bytes)

lemma as_bytes_append [simp]: "as_bytes (s @ t) = as_bytes s @ as_bytes t"
  by (simp add: as_bytes_def)

section \<open>UTF-8 validation\<close>

text \<open>\<^verbatim>\<open>std::str::from_utf8\<close>: the well-formed byte sequences of the Unicode standard.\<close>

definition utf8_cont :: "byte \<Rightarrow> bool" where
  "utf8_cont b \<longleftrightarrow> 0x80 \<le> b \<and> b \<le> 0xBF"

fun utf8_valid :: "bytes \<Rightarrow> bool" where
  "utf8_valid [] = True"
| "utf8_valid (a # rest) =
     (if a < 0x80 then utf8_valid rest
      else if 0xC2 \<le> a \<and> a \<le> 0xDF then
        (case rest of b # r \<Rightarrow> utf8_cont b \<and> utf8_valid r | _ \<Rightarrow> False)
      else if 0xE0 \<le> a \<and> a \<le> 0xEF then
        (case rest of b # c # r \<Rightarrow>
            (if a = 0xE0 then 0xA0 \<le> b \<and> b \<le> 0xBF
             else if a = 0xED then 0x80 \<le> b \<and> b \<le> 0x9F
             else utf8_cont b) \<and> utf8_cont c \<and> utf8_valid r
         | _ \<Rightarrow> False)
      else if 0xF0 \<le> a \<and> a \<le> 0xF4 then
        (case rest of b # c # d # r \<Rightarrow>
            (if a = 0xF0 then 0x90 \<le> b \<and> b \<le> 0xBF
             else if a = 0xF4 then 0x80 \<le> b \<and> b \<le> 0x8F
             else utf8_cont b) \<and> utf8_cont c \<and> utf8_cont d \<and> utf8_valid r
         | _ \<Rightarrow> False)
      else False)"

definition from_utf8 :: "bytes \<Rightarrow> string option" where
  "from_utf8 bs = (if utf8_valid bs then Some (str_of_bytes bs) else None)"

definition utf8_string :: "string \<Rightarrow> bool" where
  "utf8_string s \<longleftrightarrow> utf8_valid (as_bytes s)"

lemma from_utf8_as_bytes [simp]: "utf8_string s \<Longrightarrow> from_utf8 (as_bytes s) = Some s"
  by (simp add: from_utf8_def utf8_string_def)

lemma from_utf8_Some: "from_utf8 bs = Some s \<longleftrightarrow> utf8_string s \<and> bs = as_bytes s"
  by (auto simp: from_utf8_def utf8_string_def)

lemma utf8_valid_ascii: "\<forall>b \<in> set bs. b < 0x80 \<Longrightarrow> utf8_valid bs"
  by (induction bs) auto

section \<open>Formatting and parsing numbers\<close>

definition digit_char :: "nat \<Rightarrow> char" where
  "digit_char d = char_of (if d < 10 then 48 + d else 87 + d)"

definition upper_digit_char :: "nat \<Rightarrow> char" where
  "upper_digit_char d = char_of (if d < 10 then 48 + d else 55 + d)"

fun dec_string :: "nat \<Rightarrow> string" where
  "dec_string n =
     (if n < 10 then [digit_char n] else dec_string (n div 10) @ [digit_char (n mod 10)])"

fun hex_string :: "nat \<Rightarrow> string" where
  "hex_string n =
     (if n < 16 then [digit_char n] else hex_string (n div 16) @ [digit_char (n mod 16)])"

declare dec_string.simps [simp del] hex_string.simps [simp del]

text \<open>\<^verbatim>\<open>{byte:02X}\<close>\<close>

definition upper_hex2 :: "byte \<Rightarrow> string" where
  "upper_hex2 b = [upper_digit_char (unat b div 16), upper_digit_char (unat b mod 16)]"

text \<open>\<^verbatim>\<open>char::to_digit\<close> for a radix of at most 36, on ASCII.\<close>

definition to_digit :: "char \<Rightarrow> nat \<Rightarrow> nat option" where
  "to_digit c radix =
     (let n = of_char c :: nat;
          d = (if 48 \<le> n \<and> n \<le> 57 then n - 48
               else if 97 \<le> n \<and> n \<le> 122 then n - 87
               else if 65 \<le> n \<and> n \<le> 90 then n - 55
               else 36)
      in if d < radix then Some d else None)"

fun digits_value :: "nat \<Rightarrow> nat \<Rightarrow> string \<Rightarrow> nat option" where
  "digits_value radix acc [] = Some acc"
| "digits_value radix acc (c # cs) =
     (case to_digit c radix of None \<Rightarrow> None | Some d \<Rightarrow> digits_value radix (acc * radix + d) cs)"

text \<open>
  \<^verbatim>\<open>from_str_radix\<close> of an unsigned type with largest value \<open>bound\<close>: an optional \<^verbatim>\<open>+\<close>, at
  least one digit, no overflow. Digits only increase the accumulated value, so checking
  the bound at the end accepts the same strings as checking at each step.
\<close>

definition parse_unsigned :: "nat \<Rightarrow> nat \<Rightarrow> string \<Rightarrow> nat option" where
  "parse_unsigned radix bound s =
     (let ds = (case s of c # cs \<Rightarrow> if c = CHR ''+'' \<and> cs \<noteq> [] then cs else s | [] \<Rightarrow> s)
      in if ds = [] then None
         else case digits_value radix 0 ds of
             None \<Rightarrow> None
           | Some v \<Rightarrow> if v \<le> bound then Some v else None)"

definition parse_u16 :: "string \<Rightarrow> u16 option" where
  "parse_u16 s = map_option of_nat (parse_unsigned 10 65535 s)"

lemma of_char_char_of_small [simp]: "n < 256 \<Longrightarrow> of_char (char_of (n :: nat)) = (n :: nat)"
  by simp

lemma to_digit_digit_char: "d < radix \<Longrightarrow> d < 16 \<Longrightarrow> to_digit (digit_char d) radix = Some d"
  by (auto simp: to_digit_def digit_char_def Let_def)

lemma to_digit_upper: "d < radix \<Longrightarrow> d < 16 \<Longrightarrow> to_digit (upper_digit_char d) radix = Some d"
  by (auto simp: to_digit_def upper_digit_char_def Let_def)

lemma digits_value_append:
  "digits_value r acc (xs @ ys) =
     (case digits_value r acc xs of None \<Rightarrow> None | Some v \<Rightarrow> digits_value r v ys)"
  by (induction xs arbitrary: acc) (auto split: option.split)

lemma dec_string_nonempty [simp]: "dec_string n \<noteq> []"
  by (subst dec_string.simps) simp

lemma digits_value_dec_string: "digits_value 10 0 (dec_string n) = Some n"
proof (induction n rule: dec_string.induct)
  case (1 n)
  then show ?case
    by (subst dec_string.simps) (auto simp: to_digit_digit_char digits_value_append)
qed

lemma dec_string_digits: "c \<in> set (dec_string n) \<Longrightarrow> to_digit c 10 \<noteq> None"
proof (induction n arbitrary: c rule: dec_string.induct)
  case (1 n)
  then show ?case
    by (subst (asm) (2) dec_string.simps) (auto simp: to_digit_digit_char split: if_splits)
qed

lemma hd_dec_string: "dec_string n = c # cs \<Longrightarrow> c \<noteq> CHR ''+''"
  using dec_string_digits [of c n] by (auto simp: to_digit_def)

lemma parse_unsigned_dec_string:
  assumes "n \<le> bound"
  shows "parse_unsigned 10 bound (dec_string n) = Some n"
proof -
  obtain c cs where c: "dec_string n = c # cs" using dec_string_nonempty by (cases "dec_string n") auto
  with hd_dec_string have "c \<noteq> CHR ''+''" by blast
  then have "(case dec_string n of c # cs \<Rightarrow> if c = CHR ''+'' \<and> cs \<noteq> [] then cs else dec_string n
      | [] \<Rightarrow> dec_string n) = dec_string n"
    by (simp add: c)
  then show ?thesis
    using assms by (simp add: parse_unsigned_def digits_value_dec_string Let_def)
qed

lemma parse_u16_dec_string [simp]: "parse_u16 (dec_string (unat w)) = Some w"
  using unsigned_less [where 'a = nat, of w]
  by (simp add: parse_u16_def parse_unsigned_dec_string)

section \<open>Searching and splitting\<close>

definition starts_with :: "string \<Rightarrow> string \<Rightarrow> bool" where
  "starts_with s p \<longleftrightarrow> take (length p) s = p"

definition ends_with :: "string \<Rightarrow> string \<Rightarrow> bool" where
  "ends_with s p \<longleftrightarrow> length p \<le> length s \<and> drop (length s - length p) s = p"

definition strip_prefix :: "string \<Rightarrow> string \<Rightarrow> string option" where
  "strip_prefix s p = (if starts_with s p then Some (drop (length p) s) else None)"

text \<open>\<^verbatim>\<open>s.split(c)\<close>: the pieces between the separators, at least one.\<close>

fun split_char :: "char \<Rightarrow> string \<Rightarrow> string list" where
  "split_char c [] = [[]]"
| "split_char c (x # xs) =
     (if x = c then [] # split_char c xs
      else case split_char c xs of p # ps \<Rightarrow> (x # p) # ps | [] \<Rightarrow> [[x]])"

text \<open>\<^verbatim>\<open>s.split_once(c)\<close> and \<^verbatim>\<open>s.rsplit_once(c)\<close>.\<close>

fun split_once :: "char \<Rightarrow> string \<Rightarrow> (string \<times> string) option" where
  "split_once c [] = None"
| "split_once c (x # xs) =
     (if x = c then Some ([], xs)
      else map_option (\<lambda>(a, b). (x # a, b)) (split_once c xs))"

definition rsplit_once :: "char \<Rightarrow> string \<Rightarrow> (string \<times> string) option" where
  "rsplit_once c s = map_option (\<lambda>(a, b). (rev b, rev a)) (split_once c (rev s))"

lemma split_once_Some: "split_once c s = Some (a, b) \<longleftrightarrow> s = a @ c # b \<and> c \<notin> set a"
proof (induction s arbitrary: a)
  case (Cons x s)
  then show ?case by (cases a) auto
qed simp

lemma split_once_None: "split_once c s = None \<longleftrightarrow> c \<notin> set s"
  by (induction s) auto

lemma rsplit_once_Some: "rsplit_once c s = Some (a, b) \<longleftrightarrow> s = a @ c # b \<and> c \<notin> set b"
proof
  assume "rsplit_once c s = Some (a, b)"
  then have "split_once c (rev s) = Some (rev b, rev a)" by (auto simp: rsplit_once_def)
  then have "rev s = rev b @ c # rev a" "c \<notin> set b" by (auto simp: split_once_Some)
  then show "s = a @ c # b \<and> c \<notin> set b" by (metis append.assoc append_Cons append_Nil rev.simps(2) rev_append rev_rev_ident)
next
  assume "s = a @ c # b \<and> c \<notin> set b"
  then have "split_once c (rev s) = Some (rev b, rev a)" by (simp add: split_once_Some)
  then show "rsplit_once c s = Some (a, b)" by (simp add: rsplit_once_def)
qed

lemma rsplit_once_None: "rsplit_once c s = None \<longleftrightarrow> c \<notin> set s"
  by (simp add: rsplit_once_def split_once_None)

lemma split_char_nonempty [simp]: "split_char c s \<noteq> []"
  by (induction s) (auto split: list.split)

lemma split_char_no_sep: "c \<notin> set s \<Longrightarrow> split_char c s = [s]"
  by (induction s) auto

lemma split_char_append_sep: "c \<notin> set s \<Longrightarrow> split_char c (s @ c # t) = s # split_char c t"
  by (induction s) auto

text \<open>\<^verbatim>\<open>eq_ignore_ascii_case\<close>\<close>

definition ascii_lower :: "char \<Rightarrow> char" where
  "ascii_lower c = (let n = of_char c :: nat in if 65 \<le> n \<and> n \<le> 90 then char_of (n + 32) else c)"

definition eq_ignore_ascii_case :: "string \<Rightarrow> string \<Rightarrow> bool" where
  "eq_ignore_ascii_case s t \<longleftrightarrow> map ascii_lower s = map ascii_lower t"

section \<open>Trimming\<close>

text \<open>The characters of the Unicode property White\_Space, as UTF-8.\<close>

definition white_space :: "string list" where
  "white_space = map (map char_of)
     ([[9], [10], [11], [12], [13], [32], [0xC2, 0x85], [0xC2, 0xA0], [0xE1, 0x9A, 0x80],
       [0xE2, 0x80, 0xA8], [0xE2, 0x80, 0xA9], [0xE2, 0x80, 0xAF], [0xE2, 0x81, 0x9F],
       [0xE3, 0x80, 0x80]] @ map (\<lambda>n. [0xE2, 0x80, n]) [0x80..<(0x8B :: nat)])"

function trim_start :: "string \<Rightarrow> string" where
  "trim_start s =
     (case find (\<lambda>w. w \<noteq> [] \<and> starts_with s w) white_space of
        None \<Rightarrow> s
      | Some w \<Rightarrow> trim_start (drop (length w) s))"
  by pat_completeness auto
termination
proof (relation "measure length")
  fix s w assume "find (\<lambda>w. w \<noteq> [] \<and> starts_with s w) white_space = Some w"
  then have "w \<noteq> []" "starts_with s w" by (auto simp: find_Some_iff)
  then show "(drop (length w) s, s) \<in> measure length"
    by (cases s; cases w) (auto simp: starts_with_def)
qed simp

function trim_end :: "string \<Rightarrow> string" where
  "trim_end s =
     (case find (\<lambda>w. w \<noteq> [] \<and> ends_with s w) white_space of
        None \<Rightarrow> s
      | Some w \<Rightarrow> trim_end (take (length s - length w) s))"
  by pat_completeness auto
termination
proof (relation "measure length")
  fix s w assume "find (\<lambda>w. w \<noteq> [] \<and> ends_with s w) white_space = Some w"
  then have "w \<noteq> []" "ends_with s w" by (auto simp: find_Some_iff)
  then show "(take (length s - length w) s, s) \<in> measure length"
    by (cases s; cases w) (auto simp: ends_with_def)
qed simp

declare trim_start.simps [simp del] trim_end.simps [simp del]

definition trim :: "string \<Rightarrow> string" where
  "trim s = trim_end (trim_start s)"

lemmas trim_eval = trim_def trim_start.simps trim_end.simps white_space_def starts_with_def
  ends_with_def upt_rec char_of_def bit_0

section \<open>Errors of the standard parsers\<close>

datatype IntErrorKind = EmptyInt | InvalidDigit | PosOverflow

fun int_error_text :: "IntErrorKind \<Rightarrow> string" where
  "int_error_text EmptyInt = ''cannot parse integer from empty string''"
| "int_error_text InvalidDigit = ''invalid digit found in string''"
| "int_error_text PosOverflow = ''number too large to fit in target type''"

fun parse_digits :: "nat \<Rightarrow> nat \<Rightarrow> nat \<Rightarrow> string \<Rightarrow> (nat, IntErrorKind) result" where
  "parse_digits radix bound acc [] = Ok acc"
| "parse_digits radix bound acc (c # cs) =
     (case to_digit c radix of
        None \<Rightarrow> Err InvalidDigit
      | Some d \<Rightarrow>
          if acc * radix + d \<le> bound then parse_digits radix bound (acc * radix + d) cs
          else Err PosOverflow)"

text \<open>\<^verbatim>\<open>from_str_radix\<close> with its error kinds; it accepts what \<open>parse_unsigned\<close> accepts.\<close>

definition parse_int :: "nat \<Rightarrow> nat \<Rightarrow> string \<Rightarrow> (nat, IntErrorKind) result" where
  "parse_int radix bound s =
     (case s of
        [] \<Rightarrow> Err EmptyInt
      | c # cs \<Rightarrow> parse_digits radix bound 0 (if c = CHR ''+'' \<and> cs \<noteq> [] then cs else s))"

lemma digits_value_mono: "digits_value radix acc s = Some v \<Longrightarrow> 1 \<le> radix \<Longrightarrow> acc \<le> v"
proof (induction s arbitrary: acc)
  case (Cons c s)
  then obtain d where "digits_value radix (acc * radix + d) s = Some v"
    by (auto split: option.splits)
  with Cons have "acc * radix + d \<le> v" by blast
  moreover have "acc \<le> acc * radix" using Cons.prems(2) by (cases radix) auto
  ultimately show ?case by linarith
qed simp

lemma parse_digits_Ok:
  "1 \<le> radix \<Longrightarrow> acc \<le> bound \<Longrightarrow>
     parse_digits radix bound acc s = Ok v \<longleftrightarrow> digits_value radix acc s = Some v \<and> v \<le> bound"
proof (induction s arbitrary: acc)
  case (Cons c s)
  then show ?case
    by (auto split: option.splits dest: digits_value_mono [of radix])
qed auto

lemma parse_int_Ok:
  "1 \<le> radix \<Longrightarrow> parse_int radix bound s = Ok v \<longleftrightarrow> parse_unsigned radix bound s = Some v"
  by (cases s) (auto simp: parse_int_def parse_unsigned_def parse_digits_Ok Let_def split: option.splits)

text \<open>
  Where \<^verbatim>\<open>from_utf8\<close> stops: the length of the valid prefix, and the length of the invalid
  sequence after it, none when the input just ends too early.
\<close>

definition utf8_step_error :: "bytes \<Rightarrow> nat option" where
  "utf8_step_error bs =
     (case bs of
        a # b # rest \<Rightarrow>
          if 0xC2 \<le> a \<and> a \<le> 0xDF then Some 1
          else if (a = 0xE0 \<and> 0xA0 \<le> b \<and> b \<le> 0xBF) \<or> (a = 0xED \<and> 0x80 \<le> b \<and> b \<le> 0x9F)
            \<or> (0xE1 \<le> a \<and> a \<le> 0xEF \<and> a \<noteq> 0xED \<and> utf8_cont b) then
            (if rest = [] then None else Some 2)
          else if (a = 0xF0 \<and> 0x90 \<le> b \<and> b \<le> 0xBF) \<or> (a = 0xF4 \<and> 0x80 \<le> b \<and> b \<le> 0x8F)
            \<or> (0xF1 \<le> a \<and> a \<le> 0xF3 \<and> utf8_cont b) then
            (case rest of [] \<Rightarrow> None
             | c # rest \<Rightarrow> if \<not> utf8_cont c then Some 2 else if rest = [] then None else Some 3)
          else Some 1
      | [a] \<Rightarrow> if 0xC2 \<le> a \<and> a \<le> 0xF4 then None else Some 1
      | [] \<Rightarrow> None)"

definition utf8_char_len :: "byte \<Rightarrow> nat" where
  "utf8_char_len a = (if a < 0x80 then 1 else if a < 0xE0 then 2 else if a < 0xF0 then 3 else 4)"

fun utf8_error :: "nat \<Rightarrow> bytes \<Rightarrow> nat \<Rightarrow> nat \<times> nat option" where
  "utf8_error 0 bs index = (index, None)"
| "utf8_error (Suc fuel) bs index =
     (case bs of
        [] \<Rightarrow> (index, None)
      | a # _ \<Rightarrow>
          let n = utf8_char_len a in
          if length (take n bs) = n \<and> utf8_valid (take n bs)
          then utf8_error fuel (drop n bs) (index + n)
          else (index, utf8_step_error bs))"

definition utf8_error_text :: "bytes \<Rightarrow> string" where
  "utf8_error_text bs =
     (case utf8_error (length bs) bs 0 of
        (valid_up_to, Some error_len) \<Rightarrow>
          ''invalid utf-8 sequence of '' @ dec_string error_len @ '' bytes from index ''
          @ dec_string valid_up_to
      | (valid_up_to, None) \<Rightarrow>
          ''incomplete utf-8 byte sequence from index '' @ dec_string valid_up_to)"

section \<open>Patterns\<close>

fun split_once_str :: "string \<Rightarrow> string \<Rightarrow> (string \<times> string) option" where
  "split_once_str pat [] = (if pat = [] then Some ([], []) else None)"
| "split_once_str pat (x # xs) =
     (if starts_with (x # xs) pat then Some ([], drop (length pat) (x # xs))
      else map_option (\<lambda>(a, b). (x # a, b)) (split_once_str pat xs))"

lemma split_once_str_length:
  "split_once_str pat s = Some (a, b) \<Longrightarrow> length b + length pat \<le> length s"
proof (induction s arbitrary: a)
  case (Cons x s)
  then show ?case
    by (cases "starts_with (x # s) pat")
       (auto simp: starts_with_def dest!: arg_cong [of "take (length pat) (x # s)" _ length])
qed (auto split: if_splits)

text \<open>\<^verbatim>\<open>s.split(pat)\<close> for a pattern that is not empty.\<close>

function split_str :: "string \<Rightarrow> string \<Rightarrow> string list" where
  "split_str pat s =
     (if pat = [] then [s]
      else case split_once_str pat s of
          None \<Rightarrow> [s]
        | Some (a, b) \<Rightarrow> a # split_str pat b)"
  by pat_completeness auto
termination
  by (relation "measure (\<lambda>(pat, s). length s)")
     (auto dest!: split_once_str_length, metis add_leD1 le_neq_implies_less length_0_conv
       add_cancel_right_right antisym le_add1)

declare split_str.simps [simp del]

definition contains_str :: "string \<Rightarrow> string \<Rightarrow> bool" where
  "contains_str s pat \<longleftrightarrow> split_once_str pat s \<noteq> None"

fun join_str :: "string \<Rightarrow> string list \<Rightarrow> string" where
  "join_str sep [] = []"
| "join_str sep [x] = x"
| "join_str sep (x # y # rest) = x @ sep @ join_str sep (y # rest)"

definition to_ascii_lowercase :: "string \<Rightarrow> string" where
  "to_ascii_lowercase s = map ascii_lower s"

end
