(* ===== verification/Transport.thy ===== *)
theory Transport
  imports Protocol Text
begin

text \<open>
  The common ground of the transport crate, \<^verbatim>\<open>crates/zuicity-transport/src\<close>: its error
  type (\<^verbatim>\<open>error.rs\<close>), socket addresses, owned proxy headers, and QUIC stream halves. A
  receive stream is the bytes the peer will deliver and how the stream ends after them;
  a send stream is the bytes written so far and the error writes meet, if any. Payloads
  of third-party error types appear as their text.
\<close>

section \<open>Errors\<close>

datatype IoErrorKind =
    WouldBlock | TimedOut | UnexpectedEof | WriteZero | BrokenPipe | Interrupted | InvalidInput
  | InvalidData | NotConnected | AddrInUse | AddrNotAvailable | PermissionDenied | NotFound
  | ConnectionRefused | ConnectionReset | ConnectionAborted
  | HostUnreachable | NetworkUnreachable | NetworkDown | Unsupported | OtherIo string

datatype IoError = IoError (io_kind: IoErrorKind) (raw_os_error: "int option")

text \<open>\<^verbatim>\<open>tokio::task::JoinError\<close>\<close>

datatype JoinError = JoinCancelled | JoinPanicked string

datatype ReadError =
    StreamReset u64 | ReadConnectionLost | ReadClosedStream | IllegalOrderedRead | ZeroRttRejected

datatype ReadExactError = FinishedEarly nat | ReadError ReadError

datatype WriteError =
    WriteStopped u64 | WriteConnectionLost | WriteClosedStream | WriteZeroRttRejected

datatype StoppedError = StoppedConnectionLost string | StoppedZeroRttRejected

datatype TransportError =
    RuntimeNotImplemented
  | Io IoError
  | NoCertificates
  | NoPrivateKey
  | Rustls string
  | QuinnCrypto string
  | Connect string
  | Connection string
  | ReadExact ReadExactError
  | Write WriteError
  | ClosedStream
  | Stopped StoppedError
  | ReadToEnd string
  | Protocol ProtocolError
  | EndpointClosed
  | AuthenticationRejected
  | AuthenticationTimedOut
  | ProxyStreamClosedBeforeHeader
  | UnexpectedProxyNetwork Network
  | UnsupportedDomainTarget
  | EmptyUdpOverStream
  | NoUsableTcpTarget
  | NoUsableUdpTarget
  | InvalidProxyDialerLink string string
  | UnsupportedProxyDialerLinkScheme string
  | UnsupportedProxyDialerLinkNetwork string Network
  | HttpProxy string string
  | TrojanProxy string string
  | VmessProxy string string
  | VlessProxy string string
  | TuicProxy string string
  | Hysteria2Proxy string string
  | Socks5Proxy string string
  | Socks5SetupTimedOut nat
  | InvalidDomainTarget
  | UdpFrameTooLarge nat nat
  | TaskJoin string

definition proxy_stream_closed_before_header :: "TransportError \<Rightarrow> bool" where
  "proxy_stream_closed_before_header error \<longleftrightarrow> error = ProxyStreamClosedBeforeHeader"

definition udp_session_connection_lost :: "TransportError \<Rightarrow> bool" where
  "udp_session_connection_lost error =
     (case error of
        Connection _ \<Rightarrow> True
      | ReadExact (ReadError ReadConnectionLost) \<Rightarrow> True
      | _ \<Rightarrow> False)"

section \<open>Addresses\<close>

datatype IpAddr = V4 Ipv4Addr | V6 Ipv6Addr

record SocketAddr =
  sa_ip :: IpAddr
  sa_port :: u16

fun ip_is_ipv4 :: "IpAddr \<Rightarrow> bool" where
  "ip_is_ipv4 (V4 _) = True"
| "ip_is_ipv4 (V6 _) = False"

abbreviation is_ipv4 :: "SocketAddr \<Rightarrow> bool" where
  "is_ipv4 a \<equiv> ip_is_ipv4 (sa_ip a)"

fun ip_is_unspecified :: "IpAddr \<Rightarrow> bool" where
  "ip_is_unspecified (V4 a) = (a = 0)"
| "ip_is_unspecified (V6 a) = (a = 0)"

section \<open>Owned proxy headers\<close>

datatype OwnedProxyAddress = OwnedIpv4 Ipv4Addr | OwnedIpv6 Ipv6Addr | OwnedDomain string

record OwnedProxyHeader =
  oh_network :: Network
  oh_address :: OwnedProxyAddress
  oh_port :: u16

definition proxy_header_for_ip :: "Network \<Rightarrow> IpAddr \<Rightarrow> u16 \<Rightarrow> ProxyHeader" where
  "proxy_header_for_ip network address port =
     (case address of
        V4 a \<Rightarrow> ProxyHeader_new network (Ipv4 a) port
      | V6 a \<Rightarrow> ProxyHeader_new network (Ipv6 a) port)"

definition from_borrowed :: "ProxyHeader \<Rightarrow> (OwnedProxyHeader, TransportError) result" where
  "from_borrowed header =
     and_then
       (case ph_address header of
          Ipv4 a \<Rightarrow> Ok (OwnedIpv4 a)
        | Ipv6 a \<Rightarrow> Ok (OwnedIpv6 a)
        | Domain d \<Rightarrow> and_then (ok_or (from_utf8 d) InvalidDomainTarget) (\<lambda>s. Ok (OwnedDomain s)))
       (\<lambda>address. Ok \<lparr>oh_network = ph_network header, oh_address = address, oh_port = ph_port header\<rparr>)"

definition from_ip :: "Network \<Rightarrow> IpAddr \<Rightarrow> u16 \<Rightarrow> OwnedProxyHeader" where
  "from_ip network address port =
     \<lparr>oh_network = network,
      oh_address = (case address of V4 a \<Rightarrow> OwnedIpv4 a | V6 a \<Rightarrow> OwnedIpv6 a),
      oh_port = port\<rparr>"

definition as_borrowed :: "OwnedProxyHeader \<Rightarrow> ProxyHeader" where
  "as_borrowed header =
     ProxyHeader_new (oh_network header)
       (case oh_address header of
          OwnedIpv4 a \<Rightarrow> Ipv4 a
        | OwnedIpv6 a \<Rightarrow> Ipv6 a
        | OwnedDomain d \<Rightarrow> Domain (as_bytes d))
       (oh_port header)"

text \<open>\<^verbatim>\<open>Ipv6Addr::to_ipv4_mapped\<close>: addresses \<^verbatim>\<open>::ffff:a.b.c.d\<close>.\<close>

definition to_ipv4_mapped :: "Ipv6Addr \<Rightarrow> Ipv4Addr option" where
  "to_ipv4_mapped a = (if drop_bit 32 a = 0xFFFF then Some (ucast a) else None)"

definition udp_ip_header_target :: "OwnedProxyHeader \<Rightarrow> (SocketAddr, TransportError) result" where
  "udp_ip_header_target header =
     (if oh_network header \<noteq> Udp then Err (UnexpectedProxyNetwork (oh_network header))
      else case oh_address header of
          OwnedIpv4 a \<Rightarrow> Ok \<lparr>sa_ip = V4 a, sa_port = oh_port header\<rparr>
        | OwnedIpv6 a \<Rightarrow>
            (case to_ipv4_mapped a of
               Some mapped \<Rightarrow> Ok \<lparr>sa_ip = V4 mapped, sa_port = oh_port header\<rparr>
             | None \<Rightarrow> Ok \<lparr>sa_ip = V6 a, sa_port = oh_port header\<rparr>)
        | OwnedDomain _ \<Rightarrow> Err UnsupportedDomainTarget)"

section \<open>QUIC streams\<close>

datatype stream_end = Fin | Failed ReadError

type_synonym RecvStream = "bytes \<times> stream_end"

definition recv_read_exact ::
    "nat \<Rightarrow> RecvStream \<Rightarrow> (bytes \<times> RecvStream, TransportError) result" where
  "recv_read_exact n recv =
     (if n \<le> length (fst recv) then Ok (take n (fst recv), drop n (fst recv), snd recv)
      else case snd recv of
          Fin \<Rightarrow> Err (ReadExact (FinishedEarly (length (fst recv))))
        | Failed e \<Rightarrow> Err (ReadExact (ReadError e)))"

record SendStream =
  written :: bytes
  write_error :: "TransportError option"
  finished :: bool

definition send_write_all ::
    "SendStream \<Rightarrow> bytes \<Rightarrow> (unit, TransportError) result \<times> SendStream" where
  "send_write_all send data =
     (case write_error send of
        None \<Rightarrow> (Ok (), send\<lparr>written := written send @ data\<rparr>)
      | Some e \<Rightarrow> (Err e, send))"

definition send_finish :: "SendStream \<Rightarrow> (unit, TransportError) result \<times> SendStream" where
  "send_finish send =
     (if finished send then (Err ClosedStream, send)
      else (Ok (), send\<lparr>finished := True, write_error := Some (Write WriteClosedStream)\<rparr>))"

lemma recv_read_exact_Ok:
  "recv_read_exact n recv = Ok (bs, recv') \<longleftrightarrow>
     length bs = n \<and> fst recv = bs @ fst recv' \<and> snd recv' = snd recv"
  by (cases recv; cases recv')
     (auto simp: recv_read_exact_def split: stream_end.split if_splits)

lemma recv_read_exact_append [simp]:
  "n = length bs \<Longrightarrow> recv_read_exact n (bs @ d, e) = Ok (bs, d, e)"
  by (simp add: recv_read_exact_Ok)

section \<open>Facts on owned headers\<close>

fun wf_owned_address :: "OwnedProxyAddress \<Rightarrow> bool" where
  "wf_owned_address (OwnedDomain d) = (utf8_string d)"
| "wf_owned_address _ = True"

lemma from_borrowed_as_borrowed [simp]:
  "wf_owned_address (oh_address h) \<Longrightarrow> from_borrowed (as_borrowed h) = Ok h"
  by (cases h; cases "oh_address h")
     (simp_all add: from_borrowed_def as_borrowed_def ProxyHeader_new_def)

lemma from_borrowed_Ok:
  "from_borrowed b = Ok h \<longleftrightarrow> wf_owned_address (oh_address h) \<and> b = as_borrowed h"
proof
  assume "from_borrowed b = Ok h"
  then show "wf_owned_address (oh_address h) \<and> b = as_borrowed h"
    by (cases b; cases "ph_address b"; cases h)
       (auto simp: from_borrowed_def as_borrowed_def ProxyHeader_new_def result_simps ok_or_def
          from_utf8_Some split: option.splits)
qed auto

lemma ph_as_borrowed [simp]:
  "ph_network (as_borrowed h) = oh_network h" "ph_port (as_borrowed h) = oh_port h"
  by (simp_all add: as_borrowed_def ProxyHeader_new_def)

end
