(* ===== verification/Admission.thy ===== *)
theory Admission
  imports Transport "HOL-Library.Multiset"
begin

text \<open>
  Admission of connections before they authenticate, from \<^verbatim>\<open>crates/zuicity-server/src/lib.rs\<close>:
  \<^verbatim>\<open>PreAuthAdmission\<close> and the permits it hands out. The state behind the mutex is a record; a
  permit is the address it was given for. The specification is the multiset of the addresses that
  hold a permit, under a limit on its size and on the permits of one address.
\<close>

section \<open>The code\<close>

definition MAX_PENDING_SERVER_AUTHENTICATIONS :: nat where
  "MAX_PENDING_SERVER_AUTHENTICATIONS = 128"
definition MAX_PENDING_AUTHENTICATIONS :: nat where
  "MAX_PENDING_AUTHENTICATIONS = MAX_PENDING_SERVER_AUTHENTICATIONS"
definition MAX_PENDING_AUTHENTICATIONS_PER_IP :: nat where
  "MAX_PENDING_AUTHENTICATIONS_PER_IP = MAX_PENDING_AUTHENTICATIONS div 2"

lemmas admission_limits =
  MAX_PENDING_SERVER_AUTHENTICATIONS_def MAX_PENDING_AUTHENTICATIONS_def MAX_PENDING_AUTHENTICATIONS_PER_IP_def

text \<open>\<open>pa_poisoned\<close>: a holder of the lock has panicked, so that locking fails.\<close>

record PreAuthAdmission =
  pa_total :: nat
  pa_per_ip :: "IpAddr \<rightharpoonup> nat"
  pa_poisoned :: bool

definition PreAuthAdmission_new :: PreAuthAdmission where
  "PreAuthAdmission_new = \<lparr>pa_total = 0, pa_per_ip = Map.empty, pa_poisoned = False\<rparr>"

definition has_global_capacity :: "PreAuthAdmission \<Rightarrow> bool" where
  "has_global_capacity st \<longleftrightarrow> \<not> pa_poisoned st \<and> pa_total st < MAX_PENDING_AUTHENTICATIONS"

definition pa_count :: "PreAuthAdmission \<Rightarrow> IpAddr \<Rightarrow> nat" where
  "pa_count st ip = (case pa_per_ip st ip of Some n \<Rightarrow> n | None \<Rightarrow> 0)"

definition try_admit :: "PreAuthAdmission \<Rightarrow> IpAddr \<Rightarrow> PreAuthAdmission option" where
  "try_admit st ip =
     (if pa_poisoned st then None
      else
        (let pending = pa_count st ip in
         if MAX_PENDING_AUTHENTICATIONS \<le> pa_total st \<or> MAX_PENDING_AUTHENTICATIONS_PER_IP \<le> pending then None
         else Some (st\<lparr>pa_total := pa_total st + 1, pa_per_ip := (pa_per_ip st)(ip \<mapsto> pending + 1)\<rparr>)))"

text \<open>Subtraction on naturals saturates, as \<^verbatim>\<open>saturating_sub\<close> does.\<close>

definition drop_permit :: "PreAuthAdmission \<Rightarrow> IpAddr \<Rightarrow> PreAuthAdmission" where
  "drop_permit st ip =
     (if pa_poisoned st then st
      else
        (let st = st\<lparr>pa_total := pa_total st - 1\<rparr> in
         case pa_per_ip st ip of
           None \<Rightarrow> st
         | Some pending \<Rightarrow>
             if pending - 1 = 0 then st\<lparr>pa_per_ip := (pa_per_ip st)(ip := None)\<rparr>
             else st\<lparr>pa_per_ip := (pa_per_ip st)(ip \<mapsto> pending - 1)\<rparr>))"

section \<open>The interface\<close>

text \<open>
  A pool of permits under two limits: \<open>rep\<close> relates its state to the permits that are out.
\<close>

locale permit_pool =
  fixes rep :: "'s \<Rightarrow> 'ip multiset \<Rightarrow> bool"
    and empty :: 's
    and has_capacity :: "'s \<Rightarrow> bool"
    and admit :: "'s \<Rightarrow> 'ip \<Rightarrow> 's option"
    and release :: "'s \<Rightarrow> 'ip \<Rightarrow> 's"
    and limit :: nat
    and limit_per_ip :: nat
  assumes rep_empty: "rep empty {#}"
    and rep_capacity: "rep s P \<Longrightarrow> has_capacity s \<longleftrightarrow> size P < limit"
    and rep_admit: "rep s P \<Longrightarrow> size P < limit \<Longrightarrow> count P ip < limit_per_ip \<Longrightarrow>
          \<exists>s'. admit s ip = Some s' \<and> rep s' (add_mset ip P)"
    and rep_refuse: "rep s P \<Longrightarrow> \<not> (size P < limit \<and> count P ip < limit_per_ip) \<Longrightarrow> admit s ip = None"
    and rep_release: "rep s (add_mset ip P) \<Longrightarrow> rep (release s ip) P"
begin

lemma admit_Some:
  assumes "rep s P" and "admit s ip = Some s'"
  shows "rep s' (add_mset ip P) \<and> size P < limit \<and> count P ip < limit_per_ip"
  using assms rep_admit [OF assms(1)] rep_refuse [OF assms(1)] by (metis option.distinct(1) option.inject)

lemma admit_with_capacity:
  assumes "rep s P" and "has_capacity s"
  shows "admit s ip = None \<longleftrightarrow> limit_per_ip \<le> count P ip"
  using assms rep_capacity [OF assms(1)] rep_admit [OF assms(1), of ip] rep_refuse [OF assms(1), of ip]
  by (metis linorder_not_le option.distinct(1))

lemma release_all:
  "rep s (mset ips + P) \<Longrightarrow> rep (foldl release s ips) P"
  by (induction ips arbitrary: s) (auto intro: rep_release)

text \<open>Within the limits: what the pool promises of the permits that are out.\<close>

definition within :: "'ip multiset \<Rightarrow> bool" where
  "within P \<longleftrightarrow> size P \<le> limit \<and> (\<forall>ip. count P ip \<le> limit_per_ip)"

lemma within_admit:
  assumes "rep s P" and "within P" and "admit s ip = Some s'"
  shows "within (add_mset ip P)"
  using admit_Some [OF assms(1,3)] assms(2) by (auto simp: within_def)

lemma within_mono: "P \<subseteq># Q \<Longrightarrow> within Q \<Longrightarrow> within P"
  using size_mset_mono mset_subset_eq_count unfolding within_def by (meson le_trans)

end

section \<open>The code provides the interface\<close>

definition permits_out :: "PreAuthAdmission \<Rightarrow> IpAddr multiset \<Rightarrow> bool" where
  "permits_out st P \<longleftrightarrow> \<not> pa_poisoned st \<and> pa_total st = size P
     \<and> pa_per_ip st = (\<lambda>ip. if count P ip = 0 then None else Some (count P ip))"

lemma pa_count_permits: "permits_out st P \<Longrightarrow> pa_count st ip = count P ip"
  by (simp add: permits_out_def pa_count_def)

interpretation admission: permit_pool permits_out PreAuthAdmission_new has_global_capacity try_admit
    drop_permit MAX_PENDING_AUTHENTICATIONS MAX_PENDING_AUTHENTICATIONS_PER_IP
proof (unfold_locales, goal_cases)
  case 1
  show ?case by (simp add: permits_out_def PreAuthAdmission_new_def)
next
  case (2 s P)
  then show ?case by (simp add: permits_out_def has_global_capacity_def)
next
  case (3 s P ip)
  then have "pa_count s ip = count P ip" by (simp add: pa_count_permits)
  with 3 show ?case by (simp add: try_admit_def Let_def permits_out_def fun_eq_iff not_in_iff)
next
  case (4 s P ip)
  then have "pa_count s ip = count P ip" by (simp add: pa_count_permits)
  with 4 show ?case by (auto simp: try_admit_def Let_def permits_out_def)
next
  case (5 s ip P)
  then have "pa_per_ip s ip = Some (Suc (count P ip))" by (simp add: permits_out_def)
  with 5 show ?case by (auto simp: drop_permit_def Let_def permits_out_def fun_eq_iff not_in_iff)
qed

section \<open>Properties\<close>

text \<open>A history of the pool: admissions that were asked for and permits that were given back.\<close>

datatype permit_event = Ask IpAddr | GiveBack IpAddr

fun pool_step :: "permit_event \<Rightarrow> PreAuthAdmission \<Rightarrow> PreAuthAdmission" where
  "pool_step (Ask ip) st = (case try_admit st ip of None \<Rightarrow> st | Some st' \<Rightarrow> st')"
| "pool_step (GiveBack ip) st = drop_permit st ip"

text \<open>The specification: a multiset of permits.\<close>

fun spec_step :: "permit_event \<Rightarrow> IpAddr multiset \<Rightarrow> IpAddr multiset" where
  "spec_step (Ask ip) P =
     (if size P < 128 \<and> count P ip < 64 then add_mset ip P else P)"
| "spec_step (GiveBack ip) P = P - {#ip#}"

text \<open>Only a permit that is out is given back.\<close>

fun spec_history :: "permit_event list \<Rightarrow> IpAddr multiset \<Rightarrow> bool" where
  "spec_history [] P = True"
| "spec_history (e # es) P =
     ((case e of GiveBack ip \<Rightarrow> ip \<in># P | Ask _ \<Rightarrow> True) \<and> spec_history es (spec_step e P))"

lemma pool_step_refines:
  assumes "permits_out st P" and "case e of GiveBack ip \<Rightarrow> ip \<in># P | Ask _ \<Rightarrow> True"
  shows "permits_out (pool_step e st) (spec_step e P)"
proof (cases e)
  case (Ask ip)
  with assms show ?thesis
    using admission.rep_admit [OF assms(1), of ip] admission.rep_refuse [OF assms(1), of ip]
    by (auto simp: admission_limits split: option.split)
next
  case (GiveBack ip)
  with assms show ?thesis using admission.rep_release [of st ip "P - {#ip#}"] by simp
qed

lemma pool_run_refines:
  "permits_out st P \<Longrightarrow> spec_history es P \<Longrightarrow> permits_out (fold pool_step es st) (fold spec_step es P)"
  by (induction es arbitrary: st P) (auto simp: pool_step_refines)

lemma spec_run_within:
  "size P \<le> 128 \<Longrightarrow> (\<And>ip. count P ip \<le> 64) \<Longrightarrow>
     size (fold spec_step es P) \<le> 128 \<and> count (fold spec_step es P) ip \<le> 64"
proof (induction es arbitrary: P)
  case (Cons e es)
  have "size (spec_step e P) \<le> 128 \<and> count (spec_step e P) ip \<le> 64" for ip
    using Cons.prems(1) Cons.prems(2) [of ip] size_Diff1_le [of P]
    by (cases e) (auto intro: order_trans)
  with Cons.IH [of "spec_step e P"] show ?case by simp
qed simp

text \<open>
  C15: the admission state refines the multiset of the permits that are out: after any history of
  requests and of permits given back it counts exactly the permits of the specification, which are
  never more than 128 in all and 64 of one address.
\<close>

theorem admission_refines_permits:
  assumes "spec_history es {#}"
  shows "permits_out (fold pool_step es PreAuthAdmission_new) (fold spec_step es {#})
    \<and> pa_total (fold pool_step es PreAuthAdmission_new) \<le> 128
    \<and> pa_count (fold pool_step es PreAuthAdmission_new) ip \<le> 64"
proof -
  have "permits_out (fold pool_step es PreAuthAdmission_new) (fold spec_step es {#})"
    using admission.rep_empty assms by (rule pool_run_refines)
  with spec_run_within [of "{#}" es ip] show ?thesis
    by (simp add: pa_count_permits) (simp add: permits_out_def)
qed

theorem admission_refines_permits_witness:
  "permits_out (fold pool_step [Ask (V4 1), Ask (V4 2), Ask (V4 1), GiveBack (V4 1)] PreAuthAdmission_new)
     {#V4 2, V4 1#}"
  using admission_refines_permits [of "[Ask (V4 1), Ask (V4 2), Ask (V4 1), GiveBack (V4 1)]"]
  by (simp add: add_mset_commute)

end
