(* ===== verification/Counter.thy ===== *)
theory Counter
  imports Protocol
begin

text \<open>
  The shared 64-bit counters of \<^verbatim>\<open>crates/zuicity-protocol/src/lib.rs\<close> (\<^verbatim>\<open>AtomicCounter64\<close>) that
  the server, the adapter and the UDP socket state count with. A counter is its value; operations
  return the new value with their result. The native variant is that of the protocol theory; this one
  adds the variant that keeps the value in a mutex, whose guard survives a poisoned lock, and the
  increments and decrements that metrics are made of.
\<close>

definition checked_sub :: "u64 \<Rightarrow> u64 \<Rightarrow> u64 option" where
  "checked_sub a b = (if b \<le> a then Some (a - b) else None)"

text \<open>The value behind a mutex, which may be poisoned by a panic of another holder.\<close>

record MutexCounter =
  mc_value :: u64
  mc_poisoned :: bool

definition lock_value :: "MutexCounter \<Rightarrow> u64" where
  "lock_value m = mc_value m"

definition locked_fetch_add :: "MutexCounter \<Rightarrow> u64 \<Rightarrow> u64 \<times> MutexCounter" where
  "locked_fetch_add m v =
     (let previous = lock_value m in (previous, m\<lparr>mc_value := previous + v\<rparr>))"

definition locked_fetch_update ::
    "MutexCounter \<Rightarrow> (u64 \<Rightarrow> u64 option) \<Rightarrow> (u64, u64) result \<times> MutexCounter" where
  "locked_fetch_update m f =
     (let previous = lock_value m in
      case f previous of
        Some next_value \<Rightarrow> (Ok previous, m\<lparr>mc_value := next_value\<rparr>)
      | None \<Rightarrow> (Err previous, m))"

lemma locked_counter_refines:
  "(\<lambda>(r, m'). (r, mc_value m')) (locked_fetch_add m v) = fetch_add (mc_value m) v"
  "(\<lambda>(r, m'). (r, mc_value m')) (locked_fetch_update m f) = fetch_update (mc_value m) f"
  by (simp_all add: locked_fetch_add_def Let_def fetch_add_def Let_def locked_fetch_update_def fetch_update_def
      lock_value_def Let_def split: option.split)

text \<open>Counters of things that come and go: increments and saturating decrements.\<close>

definition counter_inc :: "AtomicCounter64 \<Rightarrow> AtomicCounter64" where
  "counter_inc c = snd (fetch_add c 1)"

definition counter_add :: "AtomicCounter64 \<Rightarrow> u64 \<Rightarrow> AtomicCounter64" where
  "counter_add c v = snd (fetch_add c v)"

definition counter_dec :: "AtomicCounter64 \<Rightarrow> AtomicCounter64" where
  "counter_dec c = snd (fetch_update c (\<lambda>v. checked_sub v 1))"

lemma counter_inc_eq [simp]: "counter_inc c = c + 1"
  by (simp add: counter_inc_def fetch_add_def Let_def)

lemma counter_add_eq [simp]: "counter_add c v = c + v"
  by (simp add: counter_add_def fetch_add_def Let_def)

lemma counter_dec_eq: "counter_dec c = (if c = 0 then 0 else c - 1)"
  by (simp add: counter_dec_def fetch_update_def checked_sub_def word_le_nat_alt unat_gt_0 Suc_le_eq
      unat_eq_zero)

lemma counter_dec_of_nat:
  assumes "0 < n" and "n < 2 ^ 64"
  shows "counter_dec (of_nat n) = of_nat (n - 1)"
proof -
  have "unat (of_nat n :: u64) = n" using assms(2) by (simp add: unat_of_nat)
  then have "(of_nat n :: u64) \<noteq> 0" using assms(1) by (metis less_numeral_extra(3) unat_0)
  then show ?thesis using assms(1) by (simp add: counter_dec_eq of_nat_diff)
qed

end
