(* ===== verification/JuicityStream.thy ===== *)
theory JuicityStream
  imports Transport
begin

text \<open>
  Proxy headers and UDP frames on QUIC streams, from
  \<^verbatim>\<open>crates/zuicity-transport/src/lib.rs\<close>: the readers that pull one header or one frame
  off a receive stream field by field, the writers of the client and the relay, and the
  TUIC CONNECT reader that shares their shape. The readers are proved to take exactly the
  bytes the slice decoders of the protocol crate accept, and nothing beyond them.
\<close>

section \<open>Readers\<close>

definition read_runtime_target_metadata ::
    "RecvStream \<Rightarrow> bytes \<Rightarrow> (bytes \<times> RecvStream, TransportError) result" where
  "read_runtime_target_metadata recv encoded =
     and_then (recv_read_exact 1 recv) (\<lambda>(addr_type, recv).
     (let encoded = encoded @ addr_type in
      if addr_type ! 0 = RUNTIME_ADDR_TYPE_IPV4 then
        and_then (recv_read_exact 6 recv) (\<lambda>(rest, recv). Ok (encoded @ rest, recv))
      else if addr_type ! 0 = RUNTIME_ADDR_TYPE_IPV6 then
        and_then (recv_read_exact 18 recv) (\<lambda>(rest, recv). Ok (encoded @ rest, recv))
      else if addr_type ! 0 = RUNTIME_ADDR_TYPE_DOMAIN then
        and_then (recv_read_exact 1 recv) (\<lambda>(len, recv).
        and_then (recv_read_exact (unat (len ! 0) + 2) recv) (\<lambda>(rest, recv).
          Ok (encoded @ len @ rest, recv)))
      else Err (Protocol (UnknownRuntimeAddrType (addr_type ! 0)))))"

record UdpFrame =
  uf_header :: OwnedProxyHeader
  uf_payload :: bytes

definition read_udp_datagram_frame ::
    "RecvStream \<Rightarrow> (UdpFrame \<times> RecvStream, TransportError) result" where
  "read_udp_datagram_frame recv =
     and_then (read_runtime_target_metadata recv []) (\<lambda>(encoded, recv).
     and_then (recv_read_exact 2 recv) (\<lambda>(length_bytes, recv).
     (let encoded = encoded @ length_bytes;
          payload_len = unat (u16_from_be_bytes (length_bytes ! 0) (length_bytes ! 1))
      in and_then (recv_read_exact payload_len recv) (\<lambda>(payload, recv).
        and_then (map_err Protocol (decode_udp_datagram (encoded @ payload))) (\<lambda>(header, payload, rest).
        and_then (from_borrowed header) (\<lambda>header.
          Ok (\<lparr>uf_header = header, uf_payload = payload\<rparr>, recv)))))))"

definition read_proxy_header_prefix ::
    "RecvStream \<Rightarrow> ((OwnedProxyHeader \<times> bytes) \<times> RecvStream, TransportError) result" where
  "read_proxy_header_prefix recv =
     and_then
       (case recv_read_exact 1 recv of
          Ok r \<Rightarrow> Ok r
        | Err (ReadExact (FinishedEarly 0)) \<Rightarrow> Err ProxyStreamClosedBeforeHeader
        | Err error \<Rightarrow> Err error)
       (\<lambda>(network, recv).
     and_then (read_runtime_target_metadata recv network) (\<lambda>(encoded, recv).
     and_then (map_err Protocol (ProxyHeader_decode encoded)) (\<lambda>(header, rest).
     and_then (from_borrowed header) (\<lambda>owned_header. Ok ((owned_header, []), recv)))))"

definition TUIC_VERSION_5 :: byte where "TUIC_VERSION_5 = 0x05"
definition TUIC_COMMAND_AUTHENTICATE :: byte where "TUIC_COMMAND_AUTHENTICATE = 0x00"
definition TUIC_COMMAND_CONNECT :: byte where "TUIC_COMMAND_CONNECT = 0x01"
definition TUIC_ADDR_DOMAIN :: byte where "TUIC_ADDR_DOMAIN = 0x00"
definition TUIC_ADDR_IPV4 :: byte where "TUIC_ADDR_IPV4 = 0x01"
definition TUIC_ADDR_IPV6 :: byte where "TUIC_ADDR_IPV6 = 0x02"
definition TUIC_ADDR_NONE :: byte where "TUIC_ADDR_NONE = 0xff"

lemmas tuic_consts [wire_simps] =
  TUIC_VERSION_5_def TUIC_COMMAND_AUTHENTICATE_def TUIC_COMMAND_CONNECT_def
  TUIC_ADDR_DOMAIN_def TUIC_ADDR_IPV4_def TUIC_ADDR_IPV6_def TUIC_ADDR_NONE_def

definition read_tuic_connect_header_prefix ::
    "RecvStream \<Rightarrow> ((OwnedProxyHeader \<times> bytes) \<times> RecvStream, TransportError) result" where
  "read_tuic_connect_header_prefix recv =
     and_then (recv_read_exact 2 recv) (\<lambda>(command, recv).
     if command ! 0 \<noteq> TUIC_VERSION_5 then
       Err (TuicProxy ''accept'' (''unexpected TUIC version '' @ dec_string (unat (command ! 0))))
     else if command ! 1 \<noteq> TUIC_COMMAND_CONNECT then
       Err (TuicProxy ''accept'' (''unsupported TUIC command '' @ dec_string (unat (command ! 1))))
     else
       and_then (recv_read_exact 1 recv) (\<lambda>(addr_type, recv).
       and_then
         (if addr_type ! 0 = TUIC_ADDR_IPV4 then
            and_then (recv_read_exact 4 recv) (\<lambda>(rest, recv). Ok (OwnedIpv4 (from_be_bytes rest), recv))
          else if addr_type ! 0 = TUIC_ADDR_IPV6 then
            and_then (recv_read_exact 16 recv) (\<lambda>(rest, recv). Ok (OwnedIpv6 (Ipv6Addr_from rest), recv))
          else if addr_type ! 0 = TUIC_ADDR_DOMAIN then
            and_then (recv_read_exact 1 recv) (\<lambda>(len, recv).
            and_then (recv_read_exact (unat (len ! 0)) recv) (\<lambda>(domain, recv).
            and_then
              (ok_or (from_utf8 domain)
                (TuicProxy ''accept'' ''TUIC domain target is not valid UTF-8''))
              (\<lambda>domain. Ok (OwnedDomain domain, recv))))
          else
            Err (TuicProxy ''accept''
              (''unknown TUIC address type '' @ dec_string (unat (addr_type ! 0)))))
         (\<lambda>(address, recv).
       and_then (recv_read_exact 2 recv) (\<lambda>(port, recv).
         Ok ((\<lparr>oh_network = Tcp, oh_address = address,
               oh_port = u16_from_be_bytes (port ! 0) (port ! 1)\<rparr>, []), recv)))))"

section \<open>Writers\<close>

definition write_proxy_header ::
    "SendStream \<Rightarrow> OwnedProxyHeader \<Rightarrow> (unit, TransportError) result \<times> SendStream" where
  "write_proxy_header send header =
     (case ProxyHeader_encode_to (as_borrowed header) [] of
        (Err e, _) \<Rightarrow> (Err (Protocol e), send)
      | (Ok _, encoded) \<Rightarrow> send_write_all send encoded)"

definition open_tcp_proxy_stream_with_header ::
    "SendStream \<Rightarrow> ProxyHeader \<Rightarrow> (unit, TransportError) result \<times> SendStream" where
  "open_tcp_proxy_stream_with_header send header =
     (case ProxyHeader_encode_to header [] of
        (Err e, _) \<Rightarrow> (Err (Protocol e), send)
      | (Ok _, encoded) \<Rightarrow> send_write_all send encoded)"

definition send_datagram ::
    "SendStream \<Rightarrow> OwnedProxyHeader \<Rightarrow> bytes \<Rightarrow> (unit, TransportError) result \<times> SendStream" where
  "send_datagram send header payload =
     (case encode_udp_datagram (as_borrowed header) payload [] of
        (Err e, _) \<Rightarrow> (Err (Protocol e), send)
      | (Ok _, encoded) \<Rightarrow> send_write_all send encoded)"

definition write_udp_over_stream_response ::
    "SendStream \<Rightarrow> SocketAddr \<Rightarrow> bytes \<Rightarrow> (unit, TransportError) result \<times> SendStream" where
  "write_udp_over_stream_response send peer response =
     (let response_header = proxy_header_for_ip Udp (sa_ip peer) (sa_port peer) in
      case encode_udp_datagram response_header response [] of
        (Err e, _) \<Rightarrow> (Err (Protocol e), send)
      | (Ok _, encoded) \<Rightarrow> send_write_all send encoded)"

record UdpOverStreamDatagram =
  uod_target :: SocketAddr
  uod_payload :: bytes

definition recv_datagram ::
    "nat \<Rightarrow> RecvStream \<Rightarrow> (UdpOverStreamDatagram \<times> RecvStream, TransportError) result" where
  "recv_datagram size_limit recv =
     and_then (read_udp_datagram_frame recv) (\<lambda>(frame, recv).
     if length (uf_payload frame) > size_limit then
       Err (UdpFrameTooLarge (length (uf_payload frame)) size_limit)
     else
       and_then (udp_ip_header_target (uf_header frame)) (\<lambda>target.
         Ok (\<lparr>uod_target = target, uod_payload = uf_payload frame\<rparr>, recv)))"

section \<open>The readers take exactly one encoded frame\<close>

lemma metadata_bytes_exists_v4:
  "length r = 6 \<Longrightarrow> \<exists>a. wf_address a \<and> (\<exists>p. RUNTIME_ADDR_TYPE_IPV4 # r = metadata_bytes a p)"
  using decode_runtime_metadata_sound [of "RUNTIME_ADDR_TYPE_IPV4 # r"]
  by (fastforce simp: decode_runtime_metadata_def require_len_def)

lemma metadata_bytes_exists_v6:
  "length r = 18 \<Longrightarrow> \<exists>a. wf_address a \<and> (\<exists>p. RUNTIME_ADDR_TYPE_IPV6 # r = metadata_bytes a p)"
  using decode_runtime_metadata_sound [of "RUNTIME_ADDR_TYPE_IPV6 # r"]
  by (fastforce simp: decode_runtime_metadata_def require_len_def wire_simps)

lemma metadata_bytes_exists_domain:
  "length r = Suc (Suc (unat l)) \<Longrightarrow>
     \<exists>a. wf_address a \<and> (\<exists>p. RUNTIME_ADDR_TYPE_DOMAIN # l # r = metadata_bytes a p)"
  using decode_runtime_metadata_sound [of "RUNTIME_ADDR_TYPE_DOMAIN # l # r"]
  by (fastforce simp: decode_runtime_metadata_def require_len_def wire_simps Let_def)

lemma length_1_conv: "length xs = Suc 0 \<longleftrightarrow> (\<exists>x. xs = [x])"
  by (cases xs) auto

lemma read_runtime_target_metadata_Ok:
  "read_runtime_target_metadata recv enc = Ok (enc', recv') \<longleftrightarrow>
     (\<exists>a p. wf_address a \<and> enc' = enc @ metadata_bytes a p
        \<and> fst recv = metadata_bytes a p @ fst recv' \<and> snd recv' = snd recv)"
  (is "?L \<longleftrightarrow> ?R")
proof
  assume ?L
  then show ?R
    by (auto simp: read_runtime_target_metadata_def result_simps recv_read_exact_Ok Let_def
        length_1_conv split: if_splits
        intro!: metadata_bytes_exists_v4 metadata_bytes_exists_v6 metadata_bytes_exists_domain)
next
  assume ?R
  then obtain a p where a: "wf_address a" "enc' = enc @ metadata_bytes a p"
    "fst recv = metadata_bytes a p @ fst recv'" "snd recv' = snd recv" by blast
  obtain d e where r': "recv' = (d, e)" by (cases recv')
  with a(3,4) have r: "recv = (metadata_bytes a p @ d, e)" by (cases recv) auto
  show ?L
    using a(1)
    by (cases a) (simp_all add: r r' a(2) read_runtime_target_metadata_def metadata_bytes_simps
        recv_read_exact_def wire_simps unat_of_nat_u8)
qed


lemma ProxyHeader_decode_metadata:
  "wf_address a \<Longrightarrow> ProxyHeader_decode (n # metadata_bytes a p) =
     and_then (Network_try_from n) (\<lambda>nw. Ok (ProxyHeader_new nw a p, []))"
  using decode_metadata_bytes [of a p "[]"] metadata_len_ge [of a] length_metadata_bytes [of a p]
  by (cases "Network_try_from n") (simp_all add: ProxyHeader_decode_def require_len_def)

lemma recv_read_exact_Err: "recv_read_exact n recv = Err e \<Longrightarrow> \<exists>x. e = ReadExact x"
  by (auto simp: recv_read_exact_def split: if_splits stream_end.splits)

lemma recv_read_exact_1_cases:
  "recv_read_exact (Suc 0) recv =
     (case recv of
        (b # d, e) \<Rightarrow> Ok ([b], d, e)
      | ([], Fin) \<Rightarrow> Err (ReadExact (FinishedEarly 0))
      | ([], Failed e) \<Rightarrow> Err (ReadExact (ReadError e)))"
  by (cases recv) (auto simp: recv_read_exact_def split: list.split stream_end.split)

lemma header_bytes_new:
  "wf_address a \<Longrightarrow> header_bytes (ProxyHeader_new nw a p) = Network_as_u8 nw # metadata_bytes a p"
  by (simp add: header_bytes_eq valid_header_def ProxyHeader_new_def)

lemma read_proxy_header_prefix_Ok:
  "read_proxy_header_prefix recv = Ok ((h, ip), recv') \<longleftrightarrow>
     ip = [] \<and> wf_owned_address (oh_address h) \<and> valid_header (as_borrowed h)
     \<and> fst recv = header_bytes (as_borrowed h) @ fst recv' \<and> snd recv' = snd recv"
  (is "?L \<longleftrightarrow> ?R")
proof
  assume L: ?L
  then obtain n d a p recv1 where n: "recv = (n # d, snd recv)" and recv1: "recv1 = (d, snd recv)"
    and m: "wf_address a" "fst recv1 = metadata_bytes a p @ fst recv'" "snd recv' = snd recv1"
    and dec: "and_then (map_err Protocol (ProxyHeader_decode (n # metadata_bytes a p)))
        (\<lambda>(header, rest). from_borrowed header) = Ok h" and ip: "ip = []"
    by (cases recv; cases "fst recv"; cases "snd recv")
       (auto simp: read_proxy_header_prefix_def recv_read_exact_1_cases result_simps
          read_runtime_target_metadata_Ok case_prod_unfold)
  from dec m(1) obtain nw where nw: "n = Network_as_u8 nw"
    and b: "from_borrowed (ProxyHeader_new nw a p) = Ok h"
    by (auto simp: ProxyHeader_decode_metadata result_simps Network_try_from_Ok)
  from b have h: "wf_owned_address (oh_address h)" "as_borrowed h = ProxyHeader_new nw a p"
    by (simp_all add: from_borrowed_Ok)
  have "fst recv = n # d" using n by (metis fst_conv)
  with h m nw ip recv1 show ?R
    by (simp add: header_bytes_new) (simp add: valid_header_def ProxyHeader_new_def)
next
  assume R: ?R
  define b where "b = as_borrowed h"
  from R have v: "wf_address (ph_address b)" by (simp add: valid_header_def b_def)
  obtain d e where recv': "recv' = (d, e)" by (cases recv')
  have hb: "header_bytes b = Network_as_u8 (ph_network b) # metadata_bytes (ph_address b) (ph_port b)"
    using v by (simp add: header_bytes_eq valid_header_def)
  with R recv' have recv: "recv =
      (Network_as_u8 (ph_network b) # metadata_bytes (ph_address b) (ph_port b) @ d, e)"
    by (cases recv) (simp add: b_def)
  have m: "read_runtime_target_metadata (metadata_bytes (ph_address b) (ph_port b) @ d, e) enc
      = Ok (enc @ metadata_bytes (ph_address b) (ph_port b), recv')" for enc
    using v recv' by (subst read_runtime_target_metadata_Ok) auto
  have "from_borrowed b = Ok h" using R by (simp add: b_def)
  moreover have "ProxyHeader_new (ph_network b) (ph_address b) (ph_port b) = b"
    by (simp add: ProxyHeader_new_def)
  ultimately show ?L
    using conjunct1 [OF R] v
    by (simp add: read_proxy_header_prefix_def recv_read_exact_1_cases recv m
        ProxyHeader_decode_metadata)
qed

lemma decode_udp_datagram_fields:
  assumes "wf_address a" and "length payload = unat (u16_from_be_bytes l0 l1)"
  shows "decode_udp_datagram (metadata_bytes a p @ l0 # l1 # payload)
    = Ok (ProxyHeader_new Udp a p, payload, [])"
proof -
  have v: "valid_udp_frame (ProxyHeader_new Udp a p, payload)"
    using assms unat_u16_le by (simp add: valid_udp_frame_def ProxyHeader_new_def)
  have "to_be_bytes 2 (of_nat (length payload) :: u16) = [l0, l1]"
    using assms(2) by simp
  then have "udp_frame_bytes (ProxyHeader_new Udp a p, payload) = metadata_bytes a p @ l0 # l1 # payload"
    using v by (simp add: udp_frame_bytes_eq ProxyHeader_new_def)
  with decode_udp_datagram_encode [OF v, of "[]"] show ?thesis by simp
qed

lemma read_udp_datagram_frame_Ok:
  "read_udp_datagram_frame recv = Ok (f, recv') \<longleftrightarrow>
     wf_owned_address (oh_address (uf_header f))
     \<and> valid_udp_frame (as_borrowed (uf_header f), uf_payload f)
     \<and> fst recv = udp_frame_bytes (as_borrowed (uf_header f), uf_payload f) @ fst recv'
     \<and> snd recv' = snd recv"
  (is "?L \<longleftrightarrow> ?R")
proof
  assume ?L
  then obtain a p lb recv1 recv2 payload where m: "wf_address a"
      "fst recv = metadata_bytes a p @ fst recv1" "snd recv1 = snd recv"
    and lb: "length lb = 2" "fst recv1 = lb @ fst recv2" "snd recv2 = snd recv1"
    and pl: "length payload = unat (u16_from_be_bytes (lb ! 0) (lb ! 1))"
      "fst recv2 = payload @ fst recv'" "snd recv' = snd recv2"
    and dec: "and_then (map_err Protocol (decode_udp_datagram (metadata_bytes a p @ lb @ payload)))
        (\<lambda>(header, payload, rest). and_then (from_borrowed header) (\<lambda>header.
          Ok (\<lparr>uf_header = header, uf_payload = payload\<rparr>))) = Ok f"
    by (auto simp: read_udp_datagram_frame_def result_simps Let_def recv_read_exact_Ok
        read_runtime_target_metadata_Ok)
  obtain l0 l1 where lb': "lb = [l0, l1]" using lb(1) by (auto simp: numeral_2_eq_2 length_Suc_conv)
  have "decode_udp_datagram (metadata_bytes a p @ lb @ payload) = Ok (ProxyHeader_new Udp a p, payload, [])"
    using decode_udp_datagram_fields [OF m(1), of payload l0 l1] pl(1) lb' by simp
  with dec have h: "from_borrowed (ProxyHeader_new Udp a p) = Ok (uf_header f)" "uf_payload f = payload"
    by (auto simp: result_simps)
  then have b: "wf_owned_address (oh_address (uf_header f))"
    "as_borrowed (uf_header f) = ProxyHeader_new Udp a p" by (simp_all add: from_borrowed_Ok)
  have "valid_udp_frame (ProxyHeader_new Udp a p, payload)"
    using m(1) pl(1) unat_u16_le by (simp add: valid_udp_frame_def ProxyHeader_new_def)
  moreover from this have "udp_frame_bytes (ProxyHeader_new Udp a p, payload) = metadata_bytes a p @ lb @ payload"
    using pl(1) lb' by (simp add: udp_frame_bytes_eq ProxyHeader_new_def)
  ultimately show ?R using m lb pl h b by simp
next
  assume R: ?R
  define b where "b = as_borrowed (uf_header f)"
  define l where "l = (of_nat (length (uf_payload f)) :: u16)"
  obtain d e where recv': "recv' = (d, e)" by (cases recv')
  from R have v: "wf_address (ph_address b)" "ph_network b = Udp" "length (uf_payload f) \<le> 65535"
    by (simp_all add: valid_udp_frame_def b_def)
  from R recv' have recv: "recv = (metadata_bytes (ph_address b) (ph_port b)
      @ to_be_bytes 2 l @ uf_payload f @ d, e)"
    by (cases recv) (simp add: b_def l_def udp_frame_bytes_eq)
  have m: "read_runtime_target_metadata (metadata_bytes (ph_address b) (ph_port b) @ r, e) []
      = Ok (metadata_bytes (ph_address b) (ph_port b), r, e)" for r
    using v by (subst read_runtime_target_metadata_Ok) auto
  have ul: "unat l = length (uf_payload f)" using v(3) by (simp add: l_def unat_of_nat_u16)
  have "ProxyHeader_new Udp (ph_address b) (ph_port b) = b"
    using v(2) by (simp add: ProxyHeader_new_def)
  then have "decode_udp_datagram (metadata_bytes (ph_address b) (ph_port b) @ to_be_bytes 2 l @ uf_payload f)
      = Ok (b, uf_payload f, [])"
    using decode_udp_datagram_fields [OF v(1), of "uf_payload f"] ul by (simp add: to_be_bytes_2)
  moreover have "from_borrowed b = Ok (uf_header f)" using R by (simp add: b_def)
  moreover have "u16_from_be_bytes (to_be_bytes 2 l ! 0) (to_be_bytes 2 l ! Suc 0) = l"
    using from_be_bytes_to_be_bytes [of 2 l] by (simp add: to_be_bytes_2)
  ultimately show ?L
    using ul by (simp add: read_udp_datagram_frame_def recv m recv' Let_def recv_read_exact_append
        del: to_be_bytes_2)
qed


section \<open>Writers against readers\<close>

lemma as_borrowed_new:
  "as_borrowed h = ProxyHeader_new (oh_network h) (ph_address (as_borrowed h)) (oh_port h)"
  by (simp add: as_borrowed_def ProxyHeader_new_def)

lemma send_write_all_Ok:
  "send_write_all send d = (Ok u, send') \<longleftrightarrow>
     write_error send = None \<and> send' = send\<lparr>written := written send @ d\<rparr>"
  by (auto simp: send_write_all_def split: option.split)

lemma as_borrowed_from_ip: "as_borrowed (from_ip n a p) = proxy_header_for_ip n a p"
  by (cases a) (simp_all add: as_borrowed_def from_ip_def proxy_header_for_ip_def)

lemma wf_owned_from_ip [simp]: "wf_owned_address (oh_address (from_ip n a p))"
  by (cases a) (simp_all add: from_ip_def)

lemma wf_address_for_ip [simp]: "wf_address (ph_address (proxy_header_for_ip n a p))"
  by (cases a) (simp_all add: proxy_header_for_ip_def ProxyHeader_new_def)

lemma ph_network_for_ip [simp]: "ph_network (proxy_header_for_ip n a p) = n"
  by (cases a) (simp_all add: proxy_header_for_ip_def ProxyHeader_new_def)

lemma read_udp_frame_bytes:
  assumes "wf_owned_address (oh_address h)" and "valid_udp_frame (as_borrowed h, payload)"
  shows "read_udp_datagram_frame (udp_frame_bytes (as_borrowed h, payload) @ rest, e)
    = Ok (\<lparr>uf_header = h, uf_payload = payload\<rparr>, rest, e)"
  using assms by (simp add: read_udp_datagram_frame_Ok)

text \<open>The address a client reports for a reply from \<open>peer\<close>: IPv4-mapped addresses are unmapped.\<close>

definition unmapped_addr :: "SocketAddr \<Rightarrow> SocketAddr" where
  "unmapped_addr a =
     (case sa_ip a of
        V4 _ \<Rightarrow> a
      | V6 x \<Rightarrow> (case to_ipv4_mapped x of Some m \<Rightarrow> a\<lparr>sa_ip := V4 m\<rparr> | None \<Rightarrow> a))"

lemma udp_ip_header_target_from_ip [simp]:
  "udp_ip_header_target (from_ip Udp (sa_ip a) (sa_port a)) = Ok (unmapped_addr a)"
  by (cases a; cases "sa_ip a")
     (auto simp: udp_ip_header_target_def from_ip_def unmapped_addr_def split: option.split)

lemma response_frame_bytes:
  "length r \<le> 65535 \<Longrightarrow> write_udp_over_stream_response send peer r =
     send_write_all send (udp_frame_bytes (proxy_header_for_ip Udp (sa_ip peer) (sa_port peer), r))"
  by (simp add: write_udp_over_stream_response_def encode_udp_datagram_eq udp_frame_bytes_def Let_def)

section \<open>Properties\<close>

text \<open>
  C26: reading a proxy header off a stream succeeds exactly when the stream starts with the
  encoding of that header, consumes exactly those bytes, and keeps no initial payload. The
  outcome "closed before the header" is reported exactly for a stream that is finished
  without a single byte.
\<close>

theorem read_proxy_header_prefix_exact:
  "(read_proxy_header_prefix recv = Ok ((h, initial), recv') \<longleftrightarrow>
      initial = [] \<and> wf_owned_address (oh_address h)
      \<and> fst (ProxyHeader_encode_to (as_borrowed h) []) = Ok ()
      \<and> fst recv = snd (ProxyHeader_encode_to (as_borrowed h) []) @ fst recv'
      \<and> snd recv' = snd recv)
   \<and> (read_proxy_header_prefix recv = Err ProxyStreamClosedBeforeHeader \<longleftrightarrow> recv = ([], Fin))"
proof -
  have m: "read_runtime_target_metadata r enc \<noteq> Err ProxyStreamClosedBeforeHeader" for r enc
    by (simp add: read_runtime_target_metadata_def Let_def)
       (auto simp: result_simps split: if_splits dest: recv_read_exact_Err)
  have b: "from_borrowed x \<noteq> Err ProxyStreamClosedBeforeHeader" for x
    by (auto simp: from_borrowed_def result_simps ok_or_def
        split: ProxyAddress.splits option.splits)
  have "read_proxy_header_prefix recv = Err ProxyStreamClosedBeforeHeader \<longleftrightarrow> recv = ([], Fin)"
    by (cases recv; cases "fst recv"; cases "snd recv")
       (auto simp: read_proxy_header_prefix_def recv_read_exact_1_cases result_simps m b)
  then show ?thesis
    by (auto simp: read_proxy_header_prefix_Ok ProxyHeader_encode_to_eq split: if_splits)
qed

text \<open>
  C27: a datagram the client sends over a UDP stream is read back by the relay as the same
  header and payload, with the bytes that follow it untouched; a payload of more than 65535
  bytes is refused and nothing is written.
\<close>

theorem send_datagram_read_back:
  assumes "oh_network h = Udp" and "wf_owned_address (oh_address h)"
    and "send_datagram send h payload = (r, send')"
  shows "case r of
      Ok _ \<Rightarrow> \<exists>frame. written send' = written send @ frame \<and>
        (\<forall>rest e. read_udp_datagram_frame (frame @ rest, e)
           = Ok (\<lparr>uf_header = h, uf_payload = payload\<rparr>, rest, e))
    | Err _ \<Rightarrow> send' = send \<and>
        (write_error send \<noteq> None \<or> 65535 < length payload
         \<or> runtime_metadata_len (ph_address (as_borrowed h)) > 259)"
proof (cases "valid_udp_frame (as_borrowed h, payload)")
  case True
  then have "send_datagram send h payload
      = send_write_all send (udp_frame_bytes (as_borrowed h, payload))"
    by (simp add: send_datagram_def encode_udp_datagram_eq valid_udp_frame_def udp_frame_bytes_def)
  with assms(2,3) True show ?thesis
    by (auto simp: send_write_all_def read_udp_frame_bytes split: option.splits)
next
  case False
  with assms(1) have "65535 < length payload \<or> \<not> wf_address (ph_address (as_borrowed h))"
    by (auto simp: valid_udp_frame_def)
  with assms(3) show ?thesis
    by (cases "ph_address (as_borrowed h)")
       (auto simp: send_datagram_def encode_udp_datagram_eq split: if_splits)
qed

theorem send_datagram_read_back_witness:
  "\<exists>send'. send_datagram \<lparr>written = [], write_error = None, finished = False\<rparr>
        \<lparr>oh_network = Udp, oh_address = OwnedDomain ''a'', oh_port = 53\<rparr> [1, 2] = (Ok (), send')
     \<and> (\<exists>frame. written send' = [] @ frame \<and>
        (\<forall>rest e. read_udp_datagram_frame (frame @ rest, e)
           = Ok (\<lparr>uf_header = \<lparr>oh_network = Udp, oh_address = OwnedDomain ''a'', oh_port = 53\<rparr>,
               uf_payload = [1, 2]\<rparr>, rest, e)))"
proof -
  let ?h = "\<lparr>oh_network = Udp, oh_address = OwnedDomain ''a'', oh_port = 53\<rparr>"
  let ?s = "\<lparr>written = [], write_error = None, finished = False\<rparr>"
  obtain s' where s': "send_datagram ?s ?h [1, 2] = (Ok (), s')"
    by (simp add: send_datagram_def encode_udp_datagram_eq as_borrowed_def ProxyHeader_new_def
        send_write_all_def)
  have "utf8_string ''a''" by code_simp
  then show ?thesis using send_datagram_read_back [of ?h ?s "[1, 2]", OF _ _ s'] s' by simp
qed

text \<open>
  A reply the relay writes for a target peer is received by the client as that payload
  from that peer, an IPv4-mapped peer being reported as the IPv4 address it stands for; a
  reply over the client's size limit is an error that names both sizes.
\<close>

theorem udp_response_received:
  assumes "write_udp_over_stream_response send peer response = (Ok (), send')"
  shows "\<exists>frame. written send' = written send @ frame \<and>
    (\<forall>limit rest e. recv_datagram limit (frame @ rest, e) =
       (if length response > limit then Err (UdpFrameTooLarge (length response) limit)
        else Ok (\<lparr>uod_target = unmapped_addr peer, uod_payload = response\<rparr>, rest, e)))"
proof -
  let ?h = "from_ip Udp (sa_ip peer) (sa_port peer)"
  let ?f = "udp_frame_bytes (as_borrowed ?h, response)"
  from assms have len: "length response \<le> 65535"
    by (auto simp: write_udp_over_stream_response_def encode_udp_datagram_eq Let_def not_less
        split: if_splits)
  then have v: "valid_udp_frame (as_borrowed ?h, response)"
    by (simp add: valid_udp_frame_def as_borrowed_from_ip)
  have "written send' = written send @ ?f"
    using assms len by (simp add: response_frame_bytes send_write_all_Ok as_borrowed_from_ip)
  moreover have "recv_datagram limit (?f @ rest, e) =
       (if length response > limit then Err (UdpFrameTooLarge (length response) limit)
        else Ok (\<lparr>uod_target = unmapped_addr peer, uod_payload = response\<rparr>, rest, e))"
    for limit rest e
    using read_udp_frame_bytes [OF _ v, of rest e] by (simp add: recv_datagram_def)
  ultimately show ?thesis by blast
qed

theorem udp_response_received_witness:
  "\<exists>send' frame.
     write_udp_over_stream_response \<lparr>written = [9], write_error = None, finished = False\<rparr>
       \<lparr>sa_ip = V6 0xFFFF08080808, sa_port = 53\<rparr> [1, 2, 3] = (Ok (), send')
     \<and> written send' = [9] @ frame
     \<and> recv_datagram 3 (frame, Fin) =
         Ok (\<lparr>uod_target = \<lparr>sa_ip = V4 0x08080808, sa_port = 53\<rparr>, uod_payload = [1, 2, 3]\<rparr>, [], Fin)
     \<and> recv_datagram 2 (frame, Fin) = Err (UdpFrameTooLarge 3 2)"
proof -
  let ?s = "\<lparr>written = [9], write_error = None, finished = False\<rparr>"
  let ?p = "\<lparr>sa_ip = V6 0xFFFF08080808, sa_port = 53\<rparr>"
  obtain s' where s': "write_udp_over_stream_response ?s ?p [1, 2, 3] = (Ok (), s')"
    by (simp add: response_frame_bytes send_write_all_def)
  have m: "unmapped_addr ?p = \<lparr>sa_ip = V4 0x08080808, sa_port = 53\<rparr>" by code_simp
  from udp_response_received [OF s'] obtain frame where "written s' = [9] @ frame"
    and r: "\<And>limit rest e. recv_datagram limit (frame @ rest, e) =
       (if 3 > limit then Err (UdpFrameTooLarge 3 limit)
        else Ok (\<lparr>uod_target = unmapped_addr ?p, uod_payload = [1, 2, 3]\<rparr>, rest, e))" by auto
  with s' r [of 3 "[]" Fin] r [of 2 "[]" Fin] m show ?thesis by auto
qed

end
