(* ===== verification/Policy.thy ===== *)
theory Policy
  imports Transport
begin

text \<open>
  The QUIC runtime policy of \<^verbatim>\<open>crates/zuicity-transport/src/policy.rs\<close>, the Quinn transport
  settings \<^verbatim>\<open>tls_config.rs\<close> builds from it, and the two-stage limits of the server in
  \<^verbatim>\<open>lib.rs\<close>: a connection starts under a small pre-authentication policy and gets the
  configured limits once it has authenticated. Durations are milliseconds. A Quinn
  transport configuration is the record of the settings the builder calls set.
\<close>

type_synonym Duration = nat

definition from_secs :: "nat \<Rightarrow> Duration" where
  "from_secs n = 1000 * n"

section \<open>Constants\<close>

definition INITIAL_STREAM_RECEIVE_WINDOW :: u64 where
  "INITIAL_STREAM_RECEIVE_WINDOW = 2 * 1024 * 1024"
definition MAX_STREAM_RECEIVE_WINDOW :: u64 where
  "MAX_STREAM_RECEIVE_WINDOW = 32 * 1024 * 1024"
definition INITIAL_CONNECTION_RECEIVE_WINDOW :: u64 where
  "INITIAL_CONNECTION_RECEIVE_WINDOW = 32 * 1024 * 1024"
definition MAX_CONNECTION_RECEIVE_WINDOW :: u64 where
  "MAX_CONNECTION_RECEIVE_WINDOW = 64 * 1024 * 1024"
definition MAX_OPEN_INCOMING_STREAMS :: u64 where "MAX_OPEN_INCOMING_STREAMS = 100"
definition CLIENT_STREAM_ROTATION_THRESHOLD :: u64 where "CLIENT_STREAM_ROTATION_THRESHOLD = 30"
definition UPSTREAM_CWND :: u32 where "UPSTREAM_CWND = 10"
definition CLIENT_KEEP_ALIVE :: Duration where "CLIENT_KEEP_ALIVE = from_secs 5"
definition SERVER_KEEP_ALIVE :: Duration where "SERVER_KEEP_ALIVE = from_secs 10"
definition DEFAULT_NAT_TIMEOUT :: Duration where "DEFAULT_NAT_TIMEOUT = from_secs (3 * 60)"
definition DEFAULT_QUIC_MAX_IDLE_TIMEOUT_MILLIS :: u32 where
  "DEFAULT_QUIC_MAX_IDLE_TIMEOUT_MILLIS = 30000"
definition CLIENT_HANDSHAKE_IDLE_TIMEOUT :: Duration where
  "CLIENT_HANDSHAKE_IDLE_TIMEOUT = from_secs 8"
definition PRE_AUTHENTICATION_RECEIVE_WINDOW :: u64 where
  "PRE_AUTHENTICATION_RECEIVE_WINDOW = 64 * 1024"

lemmas policy_consts =
  INITIAL_STREAM_RECEIVE_WINDOW_def MAX_STREAM_RECEIVE_WINDOW_def
  INITIAL_CONNECTION_RECEIVE_WINDOW_def MAX_CONNECTION_RECEIVE_WINDOW_def
  MAX_OPEN_INCOMING_STREAMS_def CLIENT_STREAM_ROTATION_THRESHOLD_def UPSTREAM_CWND_def
  CLIENT_KEEP_ALIVE_def SERVER_KEEP_ALIVE_def DEFAULT_NAT_TIMEOUT_def
  DEFAULT_QUIC_MAX_IDLE_TIMEOUT_MILLIS_def CLIENT_HANDSHAKE_IDLE_TIMEOUT_def
  PRE_AUTHENTICATION_RECEIVE_WINDOW_def from_secs_def

section \<open>Policies\<close>

record StreamPolicy =
  max_incoming_streams :: u64
  max_incoming_uni_streams :: u64
  client_stream_rotation_threshold :: u64

definition StreamPolicy_upstream :: StreamPolicy where
  "StreamPolicy_upstream =
     \<lparr>max_incoming_streams = MAX_OPEN_INCOMING_STREAMS,
      max_incoming_uni_streams = MAX_OPEN_INCOMING_STREAMS,
      client_stream_rotation_threshold = CLIENT_STREAM_ROTATION_THRESHOLD\<rparr>"

definition client_reserved_stream_capacity :: "StreamPolicy \<Rightarrow> u64" where
  "client_reserved_stream_capacity p = min (max (max_incoming_streams p div 5) 1) 5"

datatype MinimumTlsVersion = Tls13

record TlsPolicy =
  tls_alpn :: string
  min_version :: MinimumTlsVersion
  tls13_or_newer :: bool

definition TlsPolicy_upstream :: TlsPolicy where
  "TlsPolicy_upstream = \<lparr>tls_alpn = ''h3'', min_version = Tls13, tls13_or_newer = True\<rparr>"

datatype CongestionController = Bbr | Cubic | NewReno

definition from_config_name :: "string option \<Rightarrow> CongestionController" where
  "from_config_name value =
     (if value = Some ''cubic'' then Cubic
      else if value = Some ''new_reno'' then NewReno
      else Bbr)"

record ReceiveWindowPolicy =
  initial_stream :: u64
  max_stream :: u64
  initial_connection :: u64
  max_connection :: u64

definition ReceiveWindowPolicy_upstream :: ReceiveWindowPolicy where
  "ReceiveWindowPolicy_upstream =
     \<lparr>initial_stream = INITIAL_STREAM_RECEIVE_WINDOW,
      max_stream = MAX_STREAM_RECEIVE_WINDOW,
      initial_connection = INITIAL_CONNECTION_RECEIVE_WINDOW,
      max_connection = MAX_CONNECTION_RECEIVE_WINDOW\<rparr>"

record QuicRuntimePolicy =
  receive_windows :: ReceiveWindowPolicy
  streams :: StreamPolicy
  keep_alive :: Duration
  max_idle_timeout_millis :: "u32 option"
  handshake_idle_timeout :: "Duration option"
  disable_path_mtu_discovery :: bool
  enable_datagrams :: bool
  congestion_controller :: CongestionController
  cwnd :: u32

definition upstream_client :: QuicRuntimePolicy where
  "upstream_client =
     \<lparr>receive_windows = ReceiveWindowPolicy_upstream,
      streams = StreamPolicy_upstream,
      keep_alive = CLIENT_KEEP_ALIVE,
      max_idle_timeout_millis = Some DEFAULT_QUIC_MAX_IDLE_TIMEOUT_MILLIS,
      handshake_idle_timeout = Some CLIENT_HANDSHAKE_IDLE_TIMEOUT,
      disable_path_mtu_discovery = False,
      enable_datagrams = False,
      congestion_controller = Bbr,
      cwnd = UPSTREAM_CWND\<rparr>"

definition upstream_server :: QuicRuntimePolicy where
  "upstream_server =
     \<lparr>receive_windows = ReceiveWindowPolicy_upstream,
      streams = StreamPolicy_upstream,
      keep_alive = SERVER_KEEP_ALIVE,
      max_idle_timeout_millis = Some DEFAULT_QUIC_MAX_IDLE_TIMEOUT_MILLIS,
      handshake_idle_timeout = None,
      disable_path_mtu_discovery = False,
      enable_datagrams = True,
      congestion_controller = Bbr,
      cwnd = UPSTREAM_CWND\<rparr>"

section \<open>Quinn transport settings\<close>

text \<open>\<^verbatim>\<open>quinn::VarInt::from_u32(x as u32)\<close>: the low 32 bits of \<open>x\<close>.\<close>

type_synonym VarInt = u64

definition VarInt_from_u32 :: "u32 \<Rightarrow> VarInt" where
  "VarInt_from_u32 x = ucast x"

abbreviation as_u32 :: "u64 \<Rightarrow> u32" where
  "as_u32 x \<equiv> ucast x"

definition bbr_initial_window_bytes :: u64 where
  "bbr_initial_window_bytes = 32 * 1280"

datatype ControllerFactory = BbrConfig "u64 option" | CubicConfig | NewRenoConfig

definition congestion_controller_factory :: "QuicRuntimePolicy \<Rightarrow> ControllerFactory" where
  "congestion_controller_factory policy =
     (case congestion_controller policy of
        Bbr \<Rightarrow> BbrConfig (Some bbr_initial_window_bytes)
      | Cubic \<Rightarrow> CubicConfig
      | NewReno \<Rightarrow> NewRenoConfig)"

record TransportConfig =
  tc_max_concurrent_bidi_streams :: VarInt
  tc_max_concurrent_uni_streams :: VarInt
  tc_stream_receive_window :: VarInt
  tc_receive_window :: VarInt
  tc_send_window :: u64
  tc_keep_alive_interval :: "Duration option"
  tc_max_idle_timeout :: "VarInt option"
  tc_datagram_receive_buffer_size :: "nat option"
  tc_mtu_discovery :: bool
  tc_segmentation_offload :: bool
  tc_congestion_controller :: ControllerFactory

record BuiltTransportConfig =
  btc_inner :: TransportConfig
  btc_policy :: QuicRuntimePolicy

text \<open>\<open>linux\<close> is \<^verbatim>\<open>cfg!(target_os = "linux")\<close>.\<close>

definition build_transport_config :: "bool \<Rightarrow> QuicRuntimePolicy \<Rightarrow> BuiltTransportConfig" where
  "build_transport_config linux policy =
     \<lparr>btc_inner =
        \<lparr>tc_max_concurrent_bidi_streams = VarInt_from_u32 (as_u32 (max_incoming_streams (streams policy))),
         tc_max_concurrent_uni_streams = VarInt_from_u32 (as_u32 (max_incoming_uni_streams (streams policy))),
         tc_stream_receive_window = VarInt_from_u32 (as_u32 (max_stream (receive_windows policy))),
         tc_receive_window = VarInt_from_u32 (as_u32 (max_connection (receive_windows policy))),
         tc_send_window = max_connection (receive_windows policy),
         tc_keep_alive_interval = Some (keep_alive policy),
         tc_max_idle_timeout = map_option VarInt_from_u32 (max_idle_timeout_millis policy),
         tc_datagram_receive_buffer_size = (if enable_datagrams policy then Some 65535 else None),
         tc_mtu_discovery = (\<not> disable_path_mtu_discovery policy),
         tc_segmentation_offload = linux,
         tc_congestion_controller = congestion_controller_factory policy\<rparr>,
      btc_policy = policy\<rparr>"

definition btc_max_concurrent_bidi_streams :: "BuiltTransportConfig \<Rightarrow> VarInt" where
  "btc_max_concurrent_bidi_streams c = VarInt_from_u32 (as_u32 MAX_OPEN_INCOMING_STREAMS)"

definition btc_max_concurrent_uni_streams :: "BuiltTransportConfig \<Rightarrow> VarInt" where
  "btc_max_concurrent_uni_streams c = VarInt_from_u32 (as_u32 MAX_OPEN_INCOMING_STREAMS)"

definition btc_stream_receive_window :: "BuiltTransportConfig \<Rightarrow> VarInt" where
  "btc_stream_receive_window c = VarInt_from_u32 (as_u32 (max_stream (receive_windows (btc_policy c))))"

definition btc_receive_window :: "BuiltTransportConfig \<Rightarrow> VarInt" where
  "btc_receive_window c = VarInt_from_u32 (as_u32 (max_connection (receive_windows (btc_policy c))))"

definition btc_send_window :: "BuiltTransportConfig \<Rightarrow> u64" where
  "btc_send_window c = max_connection (receive_windows (btc_policy c))"

definition btc_keep_alive_interval :: "BuiltTransportConfig \<Rightarrow> Duration option" where
  "btc_keep_alive_interval c = Some (keep_alive (btc_policy c))"

definition btc_max_idle_timeout_millis :: "BuiltTransportConfig \<Rightarrow> u32 option" where
  "btc_max_idle_timeout_millis c = max_idle_timeout_millis (btc_policy c)"

definition btc_datagram_receive_buffer_size :: "BuiltTransportConfig \<Rightarrow> nat option" where
  "btc_datagram_receive_buffer_size c = (if enable_datagrams (btc_policy c) then Some 65535 else None)"

section \<open>Limits before and after authentication\<close>

text \<open>The per-connection limits a running connection is under; Quinn starts it with those of
  its transport configuration.\<close>

record ConnectionLimits =
  cl_receive_window :: VarInt
  cl_send_window :: u64
  cl_max_bi_streams :: VarInt
  cl_max_uni_streams :: VarInt

definition initial_limits :: "BuiltTransportConfig \<Rightarrow> ConnectionLimits" where
  "initial_limits c =
     \<lparr>cl_receive_window = tc_receive_window (btc_inner c),
      cl_send_window = tc_send_window (btc_inner c),
      cl_max_bi_streams = tc_max_concurrent_bidi_streams (btc_inner c),
      cl_max_uni_streams = tc_max_concurrent_uni_streams (btc_inner c)\<rparr>"

record AuthenticatedConnectionPolicy =
  acp_receive_window :: VarInt
  acp_send_window :: u64
  acp_max_bidi_streams :: VarInt
  acp_max_uni_streams :: VarInt

definition from_runtime_policy :: "QuicRuntimePolicy \<Rightarrow> AuthenticatedConnectionPolicy" where
  "from_runtime_policy policy =
     \<lparr>acp_receive_window = VarInt_from_u32 (as_u32 (max_connection (receive_windows policy))),
      acp_send_window = max_connection (receive_windows policy),
      acp_max_bidi_streams = VarInt_from_u32 (as_u32 (max_incoming_streams (streams policy))),
      acp_max_uni_streams = VarInt_from_u32 (as_u32 (max_incoming_uni_streams (streams policy)))\<rparr>"

definition acp_apply :: "AuthenticatedConnectionPolicy \<Rightarrow> ConnectionLimits \<Rightarrow> ConnectionLimits" where
  "acp_apply policy limits =
     limits\<lparr>cl_receive_window := acp_receive_window policy,
            cl_send_window := acp_send_window policy,
            cl_max_bi_streams := acp_max_bidi_streams policy,
            cl_max_uni_streams := acp_max_uni_streams policy\<rparr>"

definition pre_authentication_server_policy :: "QuicRuntimePolicy \<Rightarrow> QuicRuntimePolicy" where
  "pre_authentication_server_policy policy =
     policy\<lparr>receive_windows := (receive_windows policy)\<lparr>max_connection := PRE_AUTHENTICATION_RECEIVE_WINDOW\<rparr>,
            streams := (streams policy)\<lparr>max_incoming_streams := 1, max_incoming_uni_streams := 1\<rparr>\<rparr>"

section \<open>Properties\<close>

text \<open>
  Before authentication a server connection has a window of 64 KiB and one stream of
  each kind, whatever the configured policy; applying the authenticated policy gives exactly
  the limits the configured policy would have set from the start.
\<close>

theorem authenticated_limits_restored:
  "initial_limits (build_transport_config linux (pre_authentication_server_policy policy))
     = \<lparr>cl_receive_window = 65536, cl_send_window = 65536,
        cl_max_bi_streams = 1, cl_max_uni_streams = 1\<rparr>
   \<and> acp_apply (from_runtime_policy policy)
       (initial_limits (build_transport_config linux (pre_authentication_server_policy policy)))
     = initial_limits (build_transport_config linux policy)"
  by (simp add: initial_limits_def build_transport_config_def pre_authentication_server_policy_def
      acp_apply_def from_runtime_policy_def VarInt_from_u32_def PRE_AUTHENTICATION_RECEIVE_WINDOW_def)

text \<open>
  The introspection accessors report what was built, except the two stream limits, which
  are always 100: under the pre-authentication policy they report 100 while 1 is configured.
\<close>

theorem transport_config_accessors:
  "(let c = build_transport_config linux policy in
      btc_stream_receive_window c = tc_stream_receive_window (btc_inner c)
    \<and> btc_receive_window c = tc_receive_window (btc_inner c)
    \<and> btc_send_window c = tc_send_window (btc_inner c)
    \<and> btc_keep_alive_interval c = tc_keep_alive_interval (btc_inner c)
    \<and> map_option VarInt_from_u32 (btc_max_idle_timeout_millis c) = tc_max_idle_timeout (btc_inner c)
    \<and> btc_datagram_receive_buffer_size c = tc_datagram_receive_buffer_size (btc_inner c))
   \<and> (let c = build_transport_config linux (pre_authentication_server_policy policy) in
      btc_max_concurrent_bidi_streams c = 100 \<and> tc_max_concurrent_bidi_streams (btc_inner c) = 1
    \<and> btc_max_concurrent_uni_streams c = 100 \<and> tc_max_concurrent_uni_streams (btc_inner c) = 1)"
  by (simp add: build_transport_config_def pre_authentication_server_policy_def VarInt_from_u32_def
      btc_stream_receive_window_def btc_receive_window_def btc_send_window_def
      btc_keep_alive_interval_def btc_max_idle_timeout_millis_def btc_datagram_receive_buffer_size_def
      btc_max_concurrent_bidi_streams_def btc_max_concurrent_uni_streams_def
      MAX_OPEN_INCOMING_STREAMS_def)

end
