(* ===== verification/Auth.thy ===== *)
theory Auth
  imports JuicityStream Policy
begin

text \<open>
  Connection authentication, from \<^verbatim>\<open>crates/zuicity-transport/src/lib.rs\<close>: the stream the
  client sends (\<^verbatim>\<open>send_authentication_stream\<close>), the server's search for it among the incoming
  unidirectional streams and its check against the credentials
  (\<^verbatim>\<open>verify_authentication_stream_with\<close>), and the dispatch of proxy streams on the protocol
  that was negotiated. The TLS keying-material exporter of the connection is an argument.
\<close>

section \<open>Connections\<close>

datatype ProxyProtocol = Juicity | Tuic

text \<open>
  What the peer does on a connection: the unidirectional and bidirectional streams it opens, in
  the order they are accepted, and the error accepting meets when no stream is left. The rest is
  what the endpoint does to it.
\<close>

record QuinnConnection =
  qc_uni_streams :: "RecvStream list"
  qc_bi_streams :: "RecvStream list"
  qc_connection_error :: string
  qc_limits :: ConnectionLimits
  qc_close :: "(nat \<times> string) option"
  qc_drained :: "RecvStream list" \<comment> \<open>streams a background task reads until they end\<close>

type_synonym Exporter = "bytes \<Rightarrow> bytes \<Rightarrow> bytes \<Rightarrow> (bytes, string) result"

definition export_connection_authentication_token ::
    "Exporter \<Rightarrow> Uuid \<Rightarrow> bytes \<Rightarrow> (bytes, TransportError) result" where
  "export_connection_authentication_token export_keying_material uuid password =
     map_err Protocol
       (export_authentication_token uuid password
          (\<lambda>output label ctx. map_err Exporter (export_keying_material output label ctx)))"

section \<open>The client side\<close>

text \<open>\<open>open_uni\<close> is the stream \<^verbatim>\<open>Connection::open_uni\<close> yields.\<close>

definition send_authentication_stream ::
    "Exporter \<Rightarrow> (SendStream, TransportError) result \<Rightarrow> Uuid \<Rightarrow> bytes
     \<Rightarrow> (SendStream, TransportError) result" where
  "send_authentication_stream export_keying_material open_uni uuid password =
     and_then (export_connection_authentication_token export_keying_material uuid password) (\<lambda>token.
     (let request = AuthenticationRequest_new uuid token;
          payload = AuthenticationRequest_encode_to request []
      in and_then open_uni (\<lambda>stream.
         case send_write_all stream payload of
           (Err e, _) \<Rightarrow> Err e
         | (Ok _, stream) \<Rightarrow>
             (case send_finish stream of
                (Err e, _) \<Rightarrow> Err e
              | (Ok _, stream) \<Rightarrow> Ok stream))))"

section \<open>The server side\<close>

definition is_auth_frame :: "bytes \<Rightarrow> bool" where
  "is_auth_frame head \<longleftrightarrow>
     head ! 0 = VERSION_0 \<or> (head ! 0 = TUIC_VERSION_5 \<and> head ! 1 = TUIC_COMMAND_AUTHENTICATE)"

text \<open>The accept loop; it returns the streams that are still to be accepted as well.\<close>

fun accept_authentication_payload ::
    "RecvStream list \<Rightarrow> string \<Rightarrow> (bytes \<times> RecvStream, TransportError) result \<times> RecvStream list" where
  "accept_authentication_payload [] err = (Err (Connection err), [])"
| "accept_authentication_payload (stream # later) err =
     (case recv_read_exact 2 stream of
        Err e \<Rightarrow> (Err e, later)
      | Ok (head, stream) \<Rightarrow>
          if \<not> is_auth_frame head then accept_authentication_payload later err
          else
            (case recv_read_exact (AUTHENTICATION_FRAME_LEN - 2) stream of
               Err e \<Rightarrow> (Err e, later)
             | Ok (rest, stream) \<Rightarrow> (Ok (head @ rest, stream), later)))"

definition parse_authentication ::
    "bytes \<Rightarrow> ((ProxyProtocol \<times> Uuid \<times> bytes) option, TransportError) result" where
  "parse_authentication payload =
     (if payload ! 0 = VERSION_0 then
        and_then (map_err Protocol (AuthenticationRequest_decode payload)) (\<lambda>(request, rest).
          Ok (Some (Juicity, ar_uuid request, ar_token request)))
      else if payload ! 0 = TUIC_VERSION_5 \<and> payload ! 1 = TUIC_COMMAND_AUTHENTICATE then
        Ok (Some (Tuic,
          Uuid_from_bytes (slice COMMAND_HEADER_LEN (COMMAND_HEADER_LEN + AUTH_UUID_LEN) payload),
          slice (COMMAND_HEADER_LEN + AUTH_UUID_LEN) AUTHENTICATION_FRAME_LEN payload))
      else Ok None)"

text \<open>The credential loop: \<open>Ok True\<close> is a match, \<open>Ok False\<close> leaves the loop without one.\<close>

fun match_credentials ::
    "Exporter \<Rightarrow> Uuid \<Rightarrow> bytes \<Rightarrow> (Uuid \<times> bytes) list \<Rightarrow> (bool, TransportError) result" where
  "match_credentials ex request_uuid request_token [] = Ok False"
| "match_credentials ex request_uuid request_token ((uuid, password) # later) =
     (if request_uuid \<noteq> uuid then match_credentials ex request_uuid request_token later
      else
        and_then (export_connection_authentication_token ex uuid password) (\<lambda>expected_token.
          Ok (request_token = expected_token)))"

definition reject_authentication ::
    "QuinnConnection \<Rightarrow> (ProxyProtocol, TransportError) result \<times> QuinnConnection" where
  "reject_authentication c =
     (Err AuthenticationRejected, c\<lparr>qc_close := Some (1, ''authentication rejected'')\<rparr>)"

definition verify_authentication_stream_with ::
    "Exporter \<Rightarrow> (Uuid \<times> bytes) list \<Rightarrow> QuinnConnection
     \<Rightarrow> (ProxyProtocol, TransportError) result \<times> QuinnConnection" where
  "verify_authentication_stream_with ex credentials c =
     (case accept_authentication_payload (qc_uni_streams c) (qc_connection_error c) of
        (Err e, later) \<Rightarrow> (Err e, c\<lparr>qc_uni_streams := later\<rparr>)
      | (Ok (payload, authentication_stream), later) \<Rightarrow>
          (let c = c\<lparr>qc_uni_streams := later\<rparr> in
           case parse_authentication payload of
             Err e \<Rightarrow> (Err e, c)
           | Ok None \<Rightarrow> reject_authentication c
           | Ok (Some (protocol, request_uuid, request_token)) \<Rightarrow>
               (case match_credentials ex request_uuid request_token credentials of
                  Err e \<Rightarrow> (Err e, c)
                | Ok True \<Rightarrow>
                    (Ok protocol,
                     if protocol = Juicity
                     then c\<lparr>qc_drained := qc_drained c @ [authentication_stream]\<rparr> else c)
                | Ok False \<Rightarrow> reject_authentication c)))"

record AuthenticatedConnection =
  ac_connection :: QuinnConnection
  ac_protocol :: ProxyProtocol

text \<open>\<open>incoming\<close> is the connection \<^verbatim>\<open>Incoming::accept\<close> yields after the handshake.\<close>

definition authenticate_with ::
    "Exporter \<Rightarrow> AuthenticatedConnectionPolicy \<Rightarrow> (Uuid \<times> bytes) list
     \<Rightarrow> (QuinnConnection, TransportError) result \<Rightarrow> (AuthenticatedConnection, TransportError) result" where
  "authenticate_with ex authenticated_policy credentials incoming =
     and_then incoming (\<lambda>connection.
     case verify_authentication_stream_with ex credentials connection of
       (Err e, _) \<Rightarrow> Err e
     | (Ok protocol, connection) \<Rightarrow>
         Ok \<lparr>ac_connection = connection\<lparr>qc_limits := acp_apply authenticated_policy (qc_limits connection)\<rparr>,
             ac_protocol = protocol\<rparr>)"

text \<open>\<open>elapsed\<close> is the time the handshake and the authentication take, if they end at all.\<close>

definition authenticate_with_timeout ::
    "Duration \<Rightarrow> Duration option \<Rightarrow> Exporter \<Rightarrow> AuthenticatedConnectionPolicy \<Rightarrow> (Uuid \<times> bytes) list
     \<Rightarrow> (QuinnConnection, TransportError) result \<Rightarrow> (AuthenticatedConnection, TransportError) result" where
  "authenticate_with_timeout timeout elapsed ex authenticated_policy credentials incoming =
     (case elapsed of
        Some t \<Rightarrow>
          if t < timeout then authenticate_with ex authenticated_policy credentials incoming
          else Err AuthenticationTimedOut
      | None \<Rightarrow> Err AuthenticationTimedOut)"

record AcceptedProxyStream =
  aps_recv :: RecvStream
  aps_header :: OwnedProxyHeader
  aps_initial_payload :: bytes

definition accept_proxy_stream ::
    "AuthenticatedConnection
     \<Rightarrow> (AcceptedProxyStream, TransportError) result \<times> AuthenticatedConnection" where
  "accept_proxy_stream ac =
     (case qc_bi_streams (ac_connection ac) of
        [] \<Rightarrow> (Err (Connection (qc_connection_error (ac_connection ac))), ac)
      | recv # later \<Rightarrow>
          (and_then
             (case ac_protocol ac of
                Juicity \<Rightarrow> read_proxy_header_prefix recv
              | Tuic \<Rightarrow> read_tuic_connect_header_prefix recv)
             (\<lambda>((header, initial_payload), recv).
               Ok \<lparr>aps_recv = recv, aps_header = header, aps_initial_payload = initial_payload\<rparr>),
           ac\<lparr>ac_connection := (ac_connection ac)\<lparr>qc_bi_streams := later\<rparr>\<rparr>))"

section \<open>Facts on the accept loop and the credential loop\<close>

text \<open>A stream the accept loop passes over: complete head, not an authentication frame.\<close>

definition skipped_stream :: "RecvStream \<Rightarrow> bool" where
  "skipped_stream s \<longleftrightarrow> 2 \<le> length (fst s) \<and> \<not> is_auth_frame (fst s)"

lemma is_auth_frame_take [simp]:
  "2 \<le> n \<Longrightarrow> is_auth_frame (take n s) = is_auth_frame s"
  by (simp add: is_auth_frame_def)

lemma accept_skipped [simp]:
  "list_all skipped_stream pre \<Longrightarrow>
     accept_authentication_payload (pre @ ss) err = accept_authentication_payload ss err"
  by (induction pre) (auto simp: skipped_stream_def recv_read_exact_def)

lemma accept_frame [simp]:
  assumes "length f = 50" and "is_auth_frame f"
  shows "accept_authentication_payload ((f @ r, e) # ss) err = (Ok (f, r, e), ss)"
proof -
  have "is_auth_frame (take 2 f)" using assms by simp
  then show ?thesis using assms(1) by (simp add: recv_read_exact_def wire_simps min_def)
qed

lemma accept_authentication_payload_Ok:
  "accept_authentication_payload ss err = (Ok (f, s), later) \<Longrightarrow>
     length f = 50 \<and> is_auth_frame f \<and>
     (\<exists>pre. list_all skipped_stream pre \<and> ss = pre @ (f @ fst s, snd s) # later)"
proof (induction ss)
  case (Cons stream later')
  then obtain head s1 where h: "recv_read_exact 2 stream = Ok (head, s1)"
    by (auto split: result.splits)
  then have l: "length head = 2" "fst stream = head @ fst s1" "snd s1 = snd stream"
    by (simp_all add: recv_read_exact_Ok)
  then have fr: "is_auth_frame (fst stream) = is_auth_frame head"
    by (simp add: is_auth_frame_def nth_append)
  show ?case
  proof (cases "is_auth_frame head")
    case True
    with Cons.prems h obtain rest where r: "recv_read_exact 48 s1 = Ok (rest, s)" "f = head @ rest" "later' = later"
      by (auto simp: wire_simps split: result.splits)
    then have "length rest = 48" "fst s1 = rest @ fst s" "snd s = snd s1"
      by (simp_all add: recv_read_exact_Ok)
    with l r True show ?thesis
      by (auto simp: is_auth_frame_def nth_append intro!: exI [of _ "[]"] prod_eqI)
  next
    case False
    with Cons h obtain pre where "length f = 50" "is_auth_frame f" "list_all skipped_stream pre"
      "later' = pre @ (f @ fst s, snd s) # later" by auto
    moreover have "skipped_stream stream"
      using False fr l by (simp add: skipped_stream_def)
    ultimately show ?thesis by (auto intro!: exI [of _ "stream # pre"])
  qed
qed simp

lemma match_credentials_eq:
  "match_credentials ex u t cs =
     (case map_of cs u of
        None \<Rightarrow> Ok False
      | Some pw \<Rightarrow>
          and_then (export_connection_authentication_token ex u pw) (\<lambda>expected. Ok (t = expected)))"
  by (induction ex u t cs rule: match_credentials.induct) auto

fun version_byte :: "ProxyProtocol \<Rightarrow> byte" where
  "version_byte Juicity = 0"
| "version_byte Tuic = 5"

definition auth_frame :: "ProxyProtocol \<Rightarrow> Uuid \<Rightarrow> bytes \<Rightarrow> bytes" where
  "auth_frame protocol uuid token = version_byte protocol # 0 # Uuid_as_bytes uuid @ token"

lemma auth_frame_props:
  "length (auth_frame p u t) = 18 + length t" "is_auth_frame (auth_frame p u t)"
  by (cases p; simp add: auth_frame_def is_auth_frame_def wire_simps)+

lemma parse_auth_frame [simp]:
  "length t = 32 \<Longrightarrow> parse_authentication (auth_frame p u t) = Ok (Some (p, u, t))"
  using AuthenticationRequest_decode_encode [of "AuthenticationRequest_new u t" "[]"]
  by (cases p)
     (simp_all add: parse_authentication_def auth_frame_def auth_bytes_eq valid_auth_def wire_simps
        AuthenticationRequest_new_def slice_def)

lemma parse_authentication_Some:
  assumes "parse_authentication f = Ok (Some (p, u, t))" and "length f = 50"
  shows "f = auth_frame p u t \<and> length t = 32"
proof (cases "f ! 0 = 0")
  case True
  with assms obtain rest where "AuthenticationRequest_decode f = Ok (\<lparr>ar_uuid = u, ar_token = t\<rparr>, rest)"
    and p: "p = Juicity"
    by (auto simp: parse_authentication_def result_simps wire_simps)
  then have "length t = 32" "f = auth_bytes \<lparr>ar_uuid = u, ar_token = t\<rparr> @ rest"
    by (auto dest: AuthenticationRequest_decode_sound simp: valid_auth_def wire_simps)
  with assms(2) p show ?thesis by (simp add: auth_bytes_eq auth_frame_def)
next
  case False
  with assms have f: "f ! 0 = 5" "f ! 1 = 0" "p = Tuic"
    "u = Uuid_from_bytes (slice 2 18 f)" "t = slice 18 50 f"
    by (auto simp: parse_authentication_def wire_simps split: if_splits)
  have "take 2 f = [5, 0]"
    using assms(2) f(1,2) by (cases f rule: list.exhaust; cases "tl f") auto
  moreover have "f = take 2 f @ slice 2 18 f @ slice 18 50 f"
    using drop_slice [of 2 18 f] drop_slice [of 18 50 f] append_take_drop_id [of 2 f] assms(2)
    by simp
  ultimately show ?thesis using assms(2) f by (simp add: auth_frame_def)
qed

lemma verify_auth_frame:
  assumes "qc_uni_streams c = pre @ (auth_frame p u t @ r, e) # later"
    and "list_all skipped_stream pre" and "length t = 32"
  shows "verify_authentication_stream_with ex cs c =
    (let c = c\<lparr>qc_uni_streams := later\<rparr> in
     case map_of cs u of
       None \<Rightarrow> reject_authentication c
     | Some pw \<Rightarrow>
         (case export_connection_authentication_token ex u pw of
            Err e \<Rightarrow> (Err e, c)
          | Ok expected \<Rightarrow>
              if t = expected
              then (Ok p, if p = Juicity then c\<lparr>qc_drained := qc_drained c @ [(r, e)]\<rparr> else c)
              else reject_authentication c))"
proof -
  have "accept_authentication_payload (qc_uni_streams c) err = (Ok (auth_frame p u t, r, e), later)" for err
    unfolding assms(1) using assms(2,3) accept_frame [of "auth_frame p u t"]
    by (simp add: auth_frame_props del: accept_authentication_payload.simps)
  then show ?thesis
    using parse_auth_frame [OF assms(3)]
    by (cases "map_of cs u"; cases "export_connection_authentication_token ex u (the (map_of cs u))")
       (simp_all add: verify_authentication_stream_with_def match_credentials_eq Let_def)
qed

text \<open>An exporter and a connection for concrete runs: the token repeats the password's length.\<close>

definition length_exporter :: Exporter where
  "length_exporter out label ctx = Ok (replicate (length out) (of_nat (length ctx)))"

definition connection_with :: "RecvStream list \<Rightarrow> QuinnConnection" where
  "connection_with uni =
     \<lparr>qc_uni_streams = uni, qc_bi_streams = [], qc_connection_error = ''closed'',
      qc_limits = \<lparr>cl_receive_window = 65536, cl_send_window = 65536,
                   cl_max_bi_streams = 1, cl_max_uni_streams = 1\<rparr>,
      qc_close = None, qc_drained = []\<rparr>"

lemma length_exporter_token [simp]:
  "export_connection_authentication_token length_exporter u pw = Ok (replicate 32 (of_nat (length pw)))"
  by (simp add: export_connection_authentication_token_def export_authentication_token_def
      length_exporter_def Let_def wire_simps)

lemma verify_authentication_stream_with_Ok:
  assumes "verify_authentication_stream_with ex credentials c = (Ok protocol, c')"
  shows "\<exists>skipped frame rest e later uuid password token.
     qc_uni_streams c = skipped @ (frame @ rest, e) # later
   \<and> (\<forall>s\<in>set skipped. \<not> is_auth_frame (fst s))
   \<and> frame = [version_byte protocol, 0] @ Uuid_as_bytes uuid @ token
   \<and> length token = 32
   \<and> map_of credentials uuid = Some password
   \<and> export_connection_authentication_token ex uuid password = Ok token
   \<and> qc_uni_streams c' = later \<and> qc_close c' = qc_close c"
proof -
  from assms obtain f s later p u t where acc: "accept_authentication_payload (qc_uni_streams c) (qc_connection_error c)
      = (Ok (f, s), later)" and parse: "parse_authentication f = Ok (Some (p, u, t))"
    by (auto simp: verify_authentication_stream_with_def Let_def reject_authentication_def
        split: result.splits prod.splits option.splits)
  from accept_authentication_payload_Ok [OF acc] obtain pre where pre: "length f = 50"
    "list_all skipped_stream pre" "qc_uni_streams c = pre @ (f @ fst s, snd s) # later" by blast
  from parse_authentication_Some [OF parse pre(1)] have f: "f = auth_frame p u t" "length t = 32" by auto
  from verify_auth_frame [OF pre(3) [unfolded f(1)] pre(2) f(2), of ex credentials] assms
  obtain pw where "map_of credentials u = Some pw" "p = protocol"
    "export_connection_authentication_token ex u pw = Ok t" "qc_uni_streams c' = later"
    "qc_close c' = qc_close c"
    by (auto simp: Let_def reject_authentication_def split: option.splits result.splits if_splits)
  moreover have "\<forall>x\<in>set pre. \<not> is_auth_frame (fst x)"
    using pre(2) by (auto simp: list_all_iff skipped_stream_def)
  moreover have "f = [version_byte p, 0] @ Uuid_as_bytes u @ t" using f by (simp add: auth_frame_def)
  ultimately show ?thesis using pre(3) f(2) by blast
qed

section \<open>Properties\<close>

text \<open>
  C4: the server authenticates a connection only if the first authentication frame among the
  client's streams carries the UUID of a credential and the token the TLS exporter of this very
  connection gives for that UUID and its configured password; of several credentials with one
  UUID the first counts. The frame's version byte decides the protocol, and the connection is
  not closed.
\<close>

theorem authentication_sound:
  assumes "verify_authentication_stream_with ex credentials c = (Ok protocol, c')"
  shows "\<exists>skipped frame rest e later uuid password token.
     qc_uni_streams c = skipped @ (frame @ rest, e) # later
   \<and> (\<forall>s\<in>set skipped. \<not> is_auth_frame (fst s))
   \<and> frame = [version_byte protocol, 0] @ Uuid_as_bytes uuid @ token
   \<and> length token = 32
   \<and> map_of credentials uuid = Some password
   \<and> export_connection_authentication_token ex uuid password = Ok token
   \<and> qc_uni_streams c' = later \<and> qc_close c' = qc_close c"
  using assms by (rule verify_authentication_stream_with_Ok)

theorem authentication_sound_witness:
  "\<exists>skipped frame rest e later uuid password token.
     qc_uni_streams (connection_with [([9, 9, 9], Fin), (auth_frame Tuic 7 (replicate 32 3), Fin)])
       = skipped @ (frame @ rest, e) # later
   \<and> (\<forall>s\<in>set skipped. \<not> is_auth_frame (fst s))
   \<and> frame = [version_byte Tuic, 0] @ Uuid_as_bytes uuid @ token
   \<and> length token = 32
   \<and> map_of [(7, [1, 2, 3]), (7, [])] uuid = Some password
   \<and> export_connection_authentication_token length_exporter uuid password = Ok token"
proof -
  let ?c = "connection_with [([9, 9, 9], Fin), (auth_frame Tuic 7 (replicate 32 3), Fin)]"
  have "verify_authentication_stream_with length_exporter [(7, [1, 2, 3]), (7, [])] ?c
      = (Ok Tuic, ?c\<lparr>qc_uni_streams := []\<rparr>)"
    by (subst verify_auth_frame [where pre = "[([9, 9, 9], Fin)]" and p = Tuic and u = 7
          and t = "replicate 32 3" and r = "[]" and e = Fin and later = "[]"])
       (simp_all add: connection_with_def skipped_stream_def is_auth_frame_def wire_simps)
  from authentication_sound [OF this] show ?thesis by blast
qed

text \<open>
  C14: a client that authenticates with a UUID and password is accepted as a Juicity client by a
  server whose first credential for that UUID has that password, with the same exporter on both
  ends, whatever other streams the client opened before. With a password for which the exporter
  gives another token, the connection is rejected and closed with code 1.
\<close>

theorem authentication_complete:
  assumes exporter: "\<And>out label ctx bs. ex out label ctx = Ok bs \<Longrightarrow> length bs = length out"
    and client: "send_authentication_stream ex
      (Ok \<lparr>written = [], write_error = None, finished = False\<rparr>) uuid password = Ok stream"
    and streams: "qc_uni_streams c = other @ (written stream, Fin) # later"
    and other: "list_all skipped_stream other"
    and credential: "map_of credentials uuid = Some configured"
    and configured: "export_connection_authentication_token ex uuid configured = Ok expected"
  shows "verify_authentication_stream_with ex credentials c =
    (if export_connection_authentication_token ex uuid password = Ok expected
     then (Ok Juicity, c\<lparr>qc_uni_streams := later, qc_drained := qc_drained c @ [([], Fin)]\<rparr>)
     else (Err AuthenticationRejected,
           c\<lparr>qc_uni_streams := later, qc_close := Some (1, ''authentication rejected'')\<rparr>))"
proof -
  from client obtain token where token: "export_connection_authentication_token ex uuid password = Ok token"
    and w: "written stream = auth_frame Juicity uuid token"
    by (auto simp: send_authentication_stream_def result_simps Let_def send_write_all_def send_finish_def
        AuthenticationRequest_encode_to_def AuthenticationRequest_new_def auth_frame_def put_defs wire_simps)
  then have "ex (replicate 32 0) (Uuid_as_bytes uuid) password = Ok token"
    by (simp add: export_connection_authentication_token_def export_authentication_token_def
        result_simps Let_def wire_simps)
  from exporter [OF this] have "length token = 32" by simp
  with verify_auth_frame [of c other Juicity uuid token "[]" Fin later ex credentials] w streams other
  show ?thesis
    using credential configured token by (auto simp: Let_def reject_authentication_def)
qed

theorem authentication_complete_witness:
  "\<exists>stream.
     send_authentication_stream length_exporter
       (Ok \<lparr>written = [], write_error = None, finished = False\<rparr>) 7 [1, 2] = Ok stream
   \<and> fst (verify_authentication_stream_with length_exporter [(5, []), (7, [8, 9])]
       (connection_with [([9, 9], Fin), (written stream, Fin)])) = Ok Juicity
   \<and> fst (verify_authentication_stream_with length_exporter [(7, [1, 2, 3]), (7, [8, 9])]
       (connection_with [([9, 9], Fin), (written stream, Fin)])) = Err AuthenticationRejected"
proof -
  let ?fresh = "\<lparr>written = [], write_error = None, finished = False\<rparr>"
  have ex: "length_exporter out label ctx = Ok bs \<Longrightarrow> length bs = length out" for out label ctx bs
    by (auto simp: length_exporter_def)
  obtain stream where s: "send_authentication_stream length_exporter (Ok ?fresh) 7 [1, 2] = Ok stream"
    by (simp add: send_authentication_stream_def Let_def send_write_all_def send_finish_def)
  let ?c = "connection_with [([9, 9], Fin), (written stream, Fin)]"
  have c: "qc_uni_streams ?c = [([9, 9], Fin)] @ (written stream, Fin) # []"
    by (simp add: connection_with_def)
  have o: "list_all skipped_stream [([9, 9], Fin)]"
    by (simp add: skipped_stream_def is_auth_frame_def wire_simps)
  show ?thesis
    using s authentication_complete [OF ex s c o, where credentials = "[(5, []), (7, [8, 9])]"]
      authentication_complete [OF ex s c o, where credentials = "[(7, [1, 2, 3]), (7, [8, 9])]"]
    by simp
qed

end
