(* ===== verification/Net.thy ===== *)
theory Net
  imports Transport
begin

text \<open>
  Text forms of \<^verbatim>\<open>std::net\<close> addresses, as the sources use them through \<^verbatim>\<open>parse\<close> and
  \<^verbatim>\<open>to_string\<close>: the strict dotted-quad parser, the IPv6 parser with one \<^verbatim>\<open>::\<close> and an embedded
  IPv4 tail, and both printers. IPv4 printing and parsing are inverse to each other.
\<close>

section \<open>Number readers\<close>

text \<open>
  The parser's \<^verbatim>\<open>read_number\<close>: up to \<open>max_digits\<close> digits, at least one; with more than one
  digit a leading zero is refused unless \<open>allow_zero_prefix\<close>; the value is at most \<open>bound\<close>.
\<close>

fun take_digits :: "nat \<Rightarrow> nat \<Rightarrow> string \<Rightarrow> nat list \<times> string" where
  "take_digits radix 0 s = ([], s)"
| "take_digits radix (Suc n) s =
     (case s of
        [] \<Rightarrow> ([], [])
      | c # cs \<Rightarrow>
          (case to_digit c radix of
             None \<Rightarrow> ([], s)
           | Some d \<Rightarrow> (case take_digits radix n cs of (ds, rest) \<Rightarrow> (d # ds, rest))))"

definition digits_to_nat :: "nat \<Rightarrow> nat list \<Rightarrow> nat" where
  "digits_to_nat radix ds = foldl (\<lambda>acc d. acc * radix + d) 0 ds"

text \<open>A run of digits longer than \<open>max_digits\<close> is an error, not a shorter number.\<close>

definition read_number ::
    "nat \<Rightarrow> nat \<Rightarrow> bool \<Rightarrow> nat \<Rightarrow> string \<Rightarrow> (nat \<times> string) option" where
  "read_number radix max_digits allow_zero_prefix bound s =
     (case take_digits radix (Suc max_digits) s of
        (ds, rest) \<Rightarrow>
          if ds = [] \<or> max_digits < length ds then None
          else if \<not> allow_zero_prefix \<and> hd ds = 0 \<and> 1 < length ds then None
          else if bound < digits_to_nat radix ds then None
          else Some (digits_to_nat radix ds, rest))"

definition read_given_char :: "char \<Rightarrow> string \<Rightarrow> string option" where
  "read_given_char c s = (case s of [] \<Rightarrow> None | x # xs \<Rightarrow> if x = c then Some xs else None)"

section \<open>IPv4\<close>

definition read_octet :: "string \<Rightarrow> (byte \<times> string) option" where
  "read_octet s = map_option (\<lambda>(n, rest). (of_nat n, rest)) (read_number 10 3 False 255 s)"

definition read_ipv4_addr :: "string \<Rightarrow> (Ipv4Addr \<times> string) option" where
  "read_ipv4_addr s =
     Option.bind (read_octet s) (\<lambda>(a, s). Option.bind (read_given_char CHR ''.'' s) (\<lambda>s.
     Option.bind (read_octet s) (\<lambda>(b, s). Option.bind (read_given_char CHR ''.'' s) (\<lambda>s.
     Option.bind (read_octet s) (\<lambda>(c, s). Option.bind (read_given_char CHR ''.'' s) (\<lambda>s.
     Option.bind (read_octet s) (\<lambda>(d, s). Some (Ipv4Addr_new a b c d, s))))))))"

definition parse_ipv4 :: "string \<Rightarrow> Ipv4Addr option" where
  "parse_ipv4 s =
     (if 15 < length s then None
      else case read_ipv4_addr s of Some (a, []) \<Rightarrow> Some a | _ \<Rightarrow> None)"

definition ipv4_to_string :: "Ipv4Addr \<Rightarrow> string" where
  "ipv4_to_string a =
     join_str ''.'' (map (\<lambda>b. dec_string (unat b)) (Ipv4Addr_octets a))"

section \<open>IPv6\<close>

definition segments :: "Ipv6Addr \<Rightarrow> u16 list" where
  "segments a = map (\<lambda>i. ucast (drop_bit (16 * (7 - i)) a)) [0..<8]"

definition from_segments :: "u16 list \<Rightarrow> Ipv6Addr" where
  "from_segments gs = foldl (\<lambda>acc g. push_bit 16 acc OR ucast g) 0 gs"

text \<open>\<^verbatim>\<open>read_groups\<close>: up to \<open>limit\<close> groups, with the separator before every group but the first.\<close>

definition read_separator :: "nat \<Rightarrow> string \<Rightarrow> string option" where
  "read_separator index s = (if index = 0 then Some s else read_given_char CHR '':'' s)"

fun read_groups :: "nat \<Rightarrow> nat \<Rightarrow> string \<Rightarrow> u16 list \<times> bool \<times> string" where
  "read_groups 0 i s = ([], False, s)"
| "read_groups (Suc left) i s =
     (case (if 0 < left then Option.bind (read_separator i s) read_ipv4_addr else None) of
        Some (v4, rest) \<Rightarrow>
          ([from_be_bytes (take 2 (Ipv4Addr_octets v4)), from_be_bytes (drop 2 (Ipv4Addr_octets v4))],
           True, rest)
      | None \<Rightarrow>
          (case Option.bind (read_separator i s) (read_number 16 4 True 65535) of
             None \<Rightarrow> ([], False, s)
           | Some (g, rest) \<Rightarrow>
               (case read_groups left (Suc i) rest of
                  (gs, ipv4, rest) \<Rightarrow> (of_nat g # gs, ipv4, rest))))"

definition read_ipv6_addr :: "string \<Rightarrow> (Ipv6Addr \<times> string) option" where
  "read_ipv6_addr s =
     (case read_groups 8 0 s of
        (head, head_ipv4, rest) \<Rightarrow>
          if length head = 8 then Some (from_segments head, rest)
          else if head_ipv4 then None
          else
            Option.bind (read_given_char CHR '':'' rest) (\<lambda>rest.
            Option.bind (read_given_char CHR '':'' rest) (\<lambda>rest.
            (case read_groups (8 - (length head + 1)) 0 rest of
               (tail, _, rest) \<Rightarrow>
                 Some (from_segments (head @ replicate (8 - length head - length tail) 0 @ tail), rest)))))"

definition parse_ipv6 :: "string \<Rightarrow> Ipv6Addr option" where
  "parse_ipv6 s = (case read_ipv6_addr s of Some (a, []) \<Rightarrow> Some a | _ \<Rightarrow> None)"

text \<open>\<^verbatim>\<open>str::parse::<IpAddr>\<close>: IPv4 first, then IPv6.\<close>

definition parse_ip :: "string \<Rightarrow> IpAddr option" where
  "parse_ip s =
     (case read_ipv4_addr s of
        Some (a, rest) \<Rightarrow> if rest = [] then Some (V4 a) else None
      | None \<Rightarrow> map_option V6 (parse_ipv6 s))"

text \<open>The printer compresses the first longest run of at least two zero segments.\<close>

fun zero_run :: "u16 list \<Rightarrow> nat" where
  "zero_run [] = 0"
| "zero_run (g # gs) = (if g = 0 then Suc (zero_run gs) else 0)"

fun longest_zero_run :: "nat \<Rightarrow> u16 list \<Rightarrow> nat \<times> nat \<Rightarrow> nat \<times> nat" where
  "longest_zero_run i [] best = best"
| "longest_zero_run i (g # gs) best =
     longest_zero_run (Suc i) gs (if snd best < zero_run (g # gs) then (i, zero_run (g # gs)) else best)"

definition hex_groups :: "u16 list \<Rightarrow> string" where
  "hex_groups gs = join_str '':'' (map (\<lambda>g. hex_string (unat g)) gs)"

definition ipv6_to_string :: "Ipv6Addr \<Rightarrow> string" where
  "ipv6_to_string a =
     (case to_ipv4_mapped a of
        Some v4 \<Rightarrow> ''::ffff:'' @ ipv4_to_string v4
      | None \<Rightarrow>
          (let gs = segments a in
           case longest_zero_run 0 gs (0, 0) of
             (start, len) \<Rightarrow>
               if 1 < len then hex_groups (take start gs) @ ''::'' @ hex_groups (drop (start + len) gs)
               else hex_groups gs))"

fun ip_to_string :: "IpAddr \<Rightarrow> string" where
  "ip_to_string (V4 a) = ipv4_to_string a"
| "ip_to_string (V6 a) = ipv6_to_string a"

definition socket_addr_to_string :: "SocketAddr \<Rightarrow> string" where
  "socket_addr_to_string a =
     (case sa_ip a of
        V4 ip \<Rightarrow> ipv4_to_string ip @ '':'' @ dec_string (unat (sa_port a))
      | V6 ip \<Rightarrow> ''['' @ ipv6_to_string ip @ '']:'' @ dec_string (unat (sa_port a)))"

text \<open>
  \<^verbatim>\<open>str::parse::<SocketAddr>\<close>: \<^verbatim>\<open>a.b.c.d:port\<close>, then \<^verbatim>\<open>[v6]:port\<close> with an optional numeric
  scope id, which the model reads and drops.
\<close>

definition read_port :: "string \<Rightarrow> (u16 \<times> string) option" where
  "read_port s =
     Option.bind (read_given_char CHR '':'' s) (\<lambda>s.
     map_option (\<lambda>(n, rest). (of_nat n, rest)) (read_number 10 (length s) True 65535 s))"

definition skip_scope_id :: "string \<Rightarrow> string" where
  "skip_scope_id s =
     (case Option.bind (read_given_char CHR ''%'' s) (\<lambda>s. read_number 10 (length s) True (2 ^ 32 - 1) s) of
        Some (_, rest) \<Rightarrow> rest
      | None \<Rightarrow> s)"

definition read_socket_addr :: "string \<Rightarrow> (SocketAddr \<times> string) option" where
  "read_socket_addr s =
     (case Option.bind (read_ipv4_addr s) (\<lambda>(a, s). map_option (\<lambda>(p, s). ((a, p), s)) (read_port s)) of
        Some ((a, p), rest) \<Rightarrow> Some (\<lparr>sa_ip = V4 a, sa_port = p\<rparr>, rest)
      | None \<Rightarrow>
          Option.bind (read_given_char CHR ''['' s) (\<lambda>s.
          Option.bind (read_ipv6_addr s) (\<lambda>(a, s).
          Option.bind (read_given_char CHR '']'' (skip_scope_id s)) (\<lambda>s.
          map_option (\<lambda>(p, s). (\<lparr>sa_ip = V6 a, sa_port = p\<rparr>, s)) (read_port s)))))"

definition parse_socket_addr :: "string \<Rightarrow> SocketAddr option" where
  "parse_socket_addr s =
     (case read_socket_addr s of Some (a, []) \<Rightarrow> Some a | _ \<Rightarrow> None)"

section \<open>IPv4 text round trip\<close>

lemma take_digits_dec:
  assumes "\<And>c. c \<in> set s \<Longrightarrow> to_digit c 10 \<noteq> None" and "length s \<le> n"
    and "rest = [] \<or> to_digit (hd rest) 10 = None"
  shows "take_digits 10 n (s @ rest) = (map (\<lambda>c. the (to_digit c 10)) s, rest)"
  using assms
proof (induction s arbitrary: n)
  case Nil
  then show ?case by (cases n; cases rest) auto
next
  case (Cons c s)
  then obtain m where m: "n = Suc m" by (cases n) auto
  obtain d where "to_digit c 10 = Some d" using Cons.prems(1) [of c] by auto
  with Cons.IH [of m] Cons.prems m show ?case by simp
qed

lemma digits_value_foldl:
  "(\<And>c. c \<in> set s \<Longrightarrow> to_digit c 10 \<noteq> None) \<Longrightarrow>
     digits_value 10 acc s = Some (foldl (\<lambda>acc d. acc * 10 + d) acc (map (\<lambda>c. the (to_digit c 10)) s))"
proof (induction s arbitrary: acc)
  case (Cons c s)
  obtain d where "to_digit c 10 = Some d" using Cons.prems [of c] by auto
  with Cons show ?case by simp
qed simp

lemma dec_string_3:
  "n < 256 \<Longrightarrow> dec_string n =
     (if n < 10 then [digit_char n]
      else if n < 100 then [digit_char (n div 10), digit_char (n mod 10)]
      else [digit_char (n div 100), digit_char (n div 10 mod 10), digit_char (n mod 10)])"
  by (auto simp: dec_string.simps [of n] dec_string.simps [of "n div 10"]
      dec_string.simps [of "n div 100"] div_mult2_eq [symmetric])

lemma read_octet_dec_string:
  assumes "rest = [] \<or> to_digit (hd rest) 10 = None"
  shows "read_octet (dec_string (unat b) @ rest) = Some (b, rest)"
proof -
  let ?s = "dec_string (unat b)"
  let ?ds = "map (\<lambda>c. the (to_digit c 10)) ?s"
  have b: "unat b < 256" using unsigned_less [where 'a = nat, of b] by simp
  have len: "length ?s \<le> 3" "?s \<noteq> []" using b by (simp_all add: dec_string_3)
  have d: "to_digit c 10 \<noteq> None" if "c \<in> set ?s" for c using that by (rule dec_string_digits)
  have t: "take_digits 10 (Suc 3) (?s @ rest) = (?ds, rest)"
    using take_digits_dec [of ?s 4 rest] d len assms by simp
  have v: "digits_to_nat 10 ?ds = unat b"
    using digits_value_foldl [of ?s 0] d digits_value_dec_string [of "unat b"]
    by (simp add: digits_to_nat_def)
  have z: "hd ?ds = 0 \<Longrightarrow> length ?ds = 1"
    using b by (auto simp: dec_string_3 to_digit_digit_char split: if_splits)
  show ?thesis
    using b len t v z by (auto simp: read_octet_def read_number_def)
qed

lemma to_digit_dot [simp]: "to_digit CHR ''.'' 10 = None"
  by code_simp

lemma read_ipv4_to_string:
  assumes "rest = [] \<or> to_digit (hd rest) 10 = None"
  shows "read_ipv4_addr (ipv4_to_string a @ rest) = Some (a, rest)"
proof (cases a rule: Ipv4Addr_octets_cases)
  case (1 w x y z)
  then have s: "ipv4_to_string a @ rest =
      dec_string (unat w) @ CHR ''.'' # dec_string (unat x) @ CHR ''.'' #
      dec_string (unat y) @ CHR ''.'' # dec_string (unat z) @ rest"
    by (simp add: ipv4_to_string_def)
  show ?thesis
    unfolding s using assms 1
    by (simp add: read_ipv4_addr_def read_octet_dec_string read_given_char_def)
qed

lemma length_ipv4_to_string: "length (ipv4_to_string a) \<le> 15"
proof (cases a rule: Ipv4Addr_octets_cases)
  case (1 w x y z)
  have "length (dec_string (unat b)) \<le> 3" for b :: byte
    using unsigned_less [where 'a = nat, of b] by (simp add: dec_string_3)
  from this [of w] this [of x] this [of y] this [of z] 1 show ?thesis
    by (simp add: ipv4_to_string_def)
qed

lemma parse_ipv4_to_string [simp]: "parse_ipv4 (ipv4_to_string a) = Some a"
  using read_ipv4_to_string [of "[]" a] length_ipv4_to_string [of a] by (simp add: parse_ipv4_def)

lemma parse_ip_ipv4_to_string [simp]: "parse_ip (ipv4_to_string a) = Some (V4 a)"
  using read_ipv4_to_string [of "[]" a] by (simp add: parse_ip_def)

lemma read_port_dec_string: "read_port (CHR '':'' # dec_string (unat p)) = Some (p, [])"
proof -
  let ?s = "dec_string (unat p)"
  let ?ds = "map (\<lambda>c. the (to_digit c 10)) ?s"
  have d: "to_digit c 10 \<noteq> None" if "c \<in> set ?s" for c using that by (rule dec_string_digits)
  have t: "take_digits 10 (Suc (length ?s)) ?s = (?ds, [])"
    using take_digits_dec [of ?s "Suc (length ?s)" "[]"] d by simp
  have v: "digits_to_nat 10 ?ds = unat p"
    using digits_value_foldl [of ?s 0] d digits_value_dec_string [of "unat p"]
    by (simp add: digits_to_nat_def)
  have "unat p \<le> 65535" using unsigned_less [where 'a = nat, of p] by simp
  then show ?thesis
    using t v by (simp add: read_port_def read_given_char_def read_number_def)
qed

lemma to_digit_colon [simp]: "to_digit CHR '':'' 10 = None"
  by code_simp

lemma parse_socket_addr_ipv4 [simp]:
  "parse_socket_addr (socket_addr_to_string \<lparr>sa_ip = V4 a, sa_port = p\<rparr>) = Some \<lparr>sa_ip = V4 a, sa_port = p\<rparr>"
proof -
  have "read_ipv4_addr (ipv4_to_string a @ CHR '':'' # dec_string (unat p)) =
      Some (a, CHR '':'' # dec_string (unat p))"
    by (rule read_ipv4_to_string) simp
  then show ?thesis
    by (simp add: parse_socket_addr_def read_socket_addr_def socket_addr_to_string_def read_port_dec_string)
qed

end
