(* ===== verification/DialerLink.thy ===== *)
theory DialerLink
  imports Net
begin

text \<open>
  Outbound proxy links: the helpers of \<^verbatim>\<open>crates/zuicity-transport/src/lib.rs\<close> on percent
  escapes, UUID keys, base64 and query values, and the link parsers of \<^verbatim>\<open>proxy_dialer.rs\<close>,
  \<^verbatim>\<open>socks5_dialer.rs\<close>, \<^verbatim>\<open>http_connect_dialer.rs\<close>, \<^verbatim>\<open>juicity_dialer.rs\<close>, \<^verbatim>\<open>tuic_dialer.rs\<close>,
  \<^verbatim>\<open>hysteria2_dialer.rs\<close>, \<^verbatim>\<open>trojan_dialer.rs\<close>, \<^verbatim>\<open>vless_dialer.rs\<close>, \<^verbatim>\<open>vmess_dialer.rs\<close> and
  \<^verbatim>\<open>shadowsocks_dialer.rs\<close>. The third-party crates they call are the fields of the record
  \<open>Libs\<close>. An outer \<open>None\<close> is a panic.
\<close>

section \<open>Third-party code\<close>

datatype UrlHost = HostDomain string | HostIpv4 Ipv4Addr | HostIpv6 Ipv6Addr

text \<open>The accessors of \<^verbatim>\<open>url::Url\<close> the parsers read.\<close>

record Url =
  url_scheme :: string
  url_username :: string
  url_password :: "string option"
  url_host :: "UrlHost option"
  url_host_str :: "string option"
  url_port :: "u16 option"
  url_query_pairs :: "(string \<times> string) list"
  url_query :: "string option"
  url_fragment :: "string option"

datatype Base64Engine = STANDARD | STANDARD_NO_PAD | URL_SAFE | URL_SAFE_NO_PAD

datatype DecodeError = InvalidLength nat | InvalidByte nat byte | OtherDecodeError string

datatype ServerAddr = ServerSocketAddr SocketAddr | ServerDomainName string u16

record ShadowsocksServerConfig =
  ss_plugin :: bool
  ss_tcp_external_addr :: ServerAddr

record VmessJsonLink =
  vj_add :: string
  vj_port :: string
  vj_id :: string
  vj_aid :: string
  vj_net :: string
  vj_header_type :: string
  vj_tls :: string

record Libs =
  lib_url_parse :: "string \<Rightarrow> (Url, string) result"
  lib_base64_decode :: "Base64Engine \<Rightarrow> string \<Rightarrow> (bytes, DecodeError) result"
  lib_base64_encode :: "Base64Engine \<Rightarrow> bytes \<Rightarrow> string"
  lib_decode_error_text :: "DecodeError \<Rightarrow> string"
  lib_uuid_parse :: "string \<Rightarrow> (Uuid, string) result"
  lib_sha1 :: "bytes \<Rightarrow> bytes"
  lib_md5 :: "bytes \<Rightarrow> bytes"
  lib_ss_from_url :: "string \<Rightarrow> (ShadowsocksServerConfig, string) result"
  lib_vmess_json :: "bytes \<Rightarrow> VmessJsonLink option"

section \<open>Helpers\<close>

abbreviation invalid_link :: "string \<Rightarrow> string \<Rightarrow> ('a, TransportError) result" where
  "invalid_link raw message \<equiv> Err (InvalidProxyDialerLink raw message)"

definition vless_uuid5_key :: "Libs \<Rightarrow> string \<Rightarrow> bytes" where
  "vless_uuid5_key libs value =
     (let digest = lib_sha1 libs (replicate 16 0 @ as_bytes value);
          key = take 16 digest;
          key = key[6 := (key ! 6 AND 0x0f) OR push_bit 4 5];
          key = key[8 := (key ! 8 AND drop_bit 2 0xff) OR push_bit 6 0x02]
      in key)"

text \<open>\<^verbatim>\<open>str::is_char_boundary\<close> of a UTF-8 string.\<close>

definition is_char_boundary :: "string \<Rightarrow> nat \<Rightarrow> bool" where
  "is_char_boundary s i \<longleftrightarrow>
     i = 0 \<or> i = length s \<or> (i < length s \<and> \<not> utf8_cont (byte_of_char (s ! i)))"

text \<open>\<^verbatim>\<open>&s[i..j]\<close>: a panic off the boundaries.\<close>

definition str_slice :: "string \<Rightarrow> nat \<Rightarrow> nat \<Rightarrow> string option" where
  "str_slice s i j =
     (if i \<le> j \<and> j \<le> length s \<and> is_char_boundary s i \<and> is_char_boundary s j
      then Some (slice i j s) else None)"

fun vless_key_loop :: "string \<Rightarrow> string \<Rightarrow> nat list \<Rightarrow> (bytes, TransportError) result option" where
  "vless_key_loop raw compact [] = Some (Ok [])"
| "vless_key_loop raw compact (index # indices) =
     (let start = index * 2 in
      case str_slice compact start (start + 2) of
        None \<Rightarrow> None
      | Some digits \<Rightarrow>
          (case parse_int 16 255 digits of
             Err source \<Rightarrow> Some (invalid_link raw (''invalid VLESS UUID: '' @ int_error_text source))
           | Ok byte \<Rightarrow>
               map_option (map_ok (\<lambda>rest. of_nat byte # rest)) (vless_key_loop raw compact indices)))"

definition vless_user_to_key :: "Libs \<Rightarrow> string \<Rightarrow> string \<Rightarrow> (bytes, TransportError) result option" where
  "vless_user_to_key libs raw user =
     (if length user < 32 \<or> length user > 36 then Some (Ok (vless_uuid5_key libs user))
      else
        (let compact = filter (\<lambda>c. c \<noteq> CHR ''-'') user in
         if length compact \<noteq> 32 then Some (invalid_link raw (''invalid VLESS UUID: '' @ compact))
         else vless_key_loop raw compact [0..<16]))"

definition vmess_cmd_key :: "Libs \<Rightarrow> bytes \<Rightarrow> bytes" where
  "vmess_cmd_key libs key = lib_md5 libs (key @ as_bytes ''c48619fe-8f02-49e0-b9e9-edf763e17e21'')"

fun percent_decode_bytes :: "string \<Rightarrow> bytes \<Rightarrow> string \<Rightarrow> (bytes, TransportError) result" where
  "percent_decode_bytes raw [] field = Ok []"
| "percent_decode_bytes raw (b # bs) field =
     (if b = 0x25 then
        (case bs of
           h # l # rest \<Rightarrow>
             (if \<not> utf8_valid [h, l] then
                invalid_link raw
                  (''invalid percent escape in '' @ field @ '': '' @ utf8_error_text [h, l])
              else
                (case parse_int 16 255 (str_of_bytes [h, l]) of
                   Err source \<Rightarrow>
                     invalid_link raw
                       (''invalid percent escape in '' @ field @ '': '' @ int_error_text source)
                 | Ok byte \<Rightarrow> map_ok (\<lambda>r. of_nat byte # r) (percent_decode_bytes raw rest field)))
         | _ \<Rightarrow> invalid_link raw (''invalid percent escape in '' @ field))
      else map_ok (\<lambda>r. b # r) (percent_decode_bytes raw bs field))"

definition string_from_utf8 :: "bytes \<Rightarrow> (string, string) result" where
  "string_from_utf8 bs = (case from_utf8 bs of Some s \<Rightarrow> Ok s | None \<Rightarrow> Err (utf8_error_text bs))"

definition percent_decode_utf8 :: "string \<Rightarrow> string \<Rightarrow> string \<Rightarrow> (string, TransportError) result" where
  "percent_decode_utf8 raw value field =
     and_then (percent_decode_bytes raw (as_bytes value) field) (\<lambda>bytes.
     map_err (\<lambda>source. InvalidProxyDialerLink raw (''invalid '' @ field @ '': '' @ source))
       (string_from_utf8 bytes))"

definition find_value :: "(string \<Rightarrow> bool) \<Rightarrow> Url \<Rightarrow> string option" where
  "find_value wanted parsed = map_option snd (find (\<lambda>(key, value). wanted key) (url_query_pairs parsed))"

definition dialer_link_query_value :: "Url \<Rightarrow> string \<Rightarrow> string option" where
  "dialer_link_query_value parsed name = find_value (\<lambda>key. key = name) parsed"

definition filter_nonempty :: "string option \<Rightarrow> string option" where
  "filter_nonempty x = (case x of Some (c # cs) \<Rightarrow> x | _ \<Rightarrow> None)"

definition unwrap_or :: "'a option \<Rightarrow> 'a \<Rightarrow> 'a" where
  "unwrap_or x d = (case x of None \<Rightarrow> d | Some y \<Rightarrow> y)"

definition or_else :: "'a option \<Rightarrow> 'a option \<Rightarrow> 'a option" where
  "or_else x y = (case x of None \<Rightarrow> y | Some z \<Rightarrow> Some z)"

definition transpose_result :: "('a, 'e) result option \<Rightarrow> ('a option, 'e) result" where
  "transpose_result x = (case x of None \<Rightarrow> Ok None | Some r \<Rightarrow> map_ok Some r)"

fun decode_hex_chunks :: "bytes \<Rightarrow> (bytes, DecodeError) result" where
  "decode_hex_chunks (h # l # rest) =
     (if \<not> utf8_valid [h, l] then Err (InvalidByte 0 h)
      else case parse_int 16 255 (str_of_bytes [h, l]) of
          Err _ \<Rightarrow> Err (InvalidByte 0 h)
        | Ok byte \<Rightarrow> map_ok (\<lambda>r. of_nat byte # r) (decode_hex_chunks rest))"
| "decode_hex_chunks _ = Ok []"

definition decode_hex_bytes :: "string \<Rightarrow> (bytes, DecodeError) result" where
  "decode_hex_bytes value =
     (if length value mod 2 \<noteq> 0 then Err (InvalidLength (length value))
      else decode_hex_chunks (as_bytes value))"

definition result_or_else :: "('a, 'e) result \<Rightarrow> ('a, 'e) result \<Rightarrow> ('a, 'e) result" where
  "result_or_else r s = (case r of Ok x \<Rightarrow> Ok x | Err _ \<Rightarrow> s)"

definition decode_juicity_pinned_cert_chain_sha256 ::
    "Libs \<Rightarrow> string \<Rightarrow> string \<Rightarrow> (bytes, TransportError) result" where
  "decode_juicity_pinned_cert_chain_sha256 libs raw value =
     map_err (\<lambda>source. InvalidProxyDialerLink raw
         (''failed to decode Juicity pinned_certchain_sha256: '' @ lib_decode_error_text libs source))
       (result_or_else (lib_base64_decode libs URL_SAFE value)
         (result_or_else (lib_base64_decode libs STANDARD value)
           (decode_hex_bytes value)))"

definition decode_padded_base64_bytes ::
    "Libs \<Rightarrow> Base64Engine \<Rightarrow> string \<Rightarrow> (bytes, DecodeError) result" where
  "decode_padded_base64_bytes libs engine value =
     (let trimmed = trim value;
          padding = length trimmed mod 4;
          padded = (if padding \<noteq> 0 then trimmed @ replicate (4 - padding) (CHR ''='') else trimmed)
      in lib_base64_decode libs engine padded)"

definition decode_padded_base64_string ::
    "Libs \<Rightarrow> Base64Engine \<Rightarrow> string \<Rightarrow> (string, string) result" where
  "decode_padded_base64_string libs engine value =
     and_then (map_err (lib_decode_error_text libs) (decode_padded_base64_bytes libs engine value))
       string_from_utf8"

definition dialer_link_host_authority :: "string \<Rightarrow> string" where
  "dialer_link_host_authority host =
     (if starts_with host ''['' \<or> CHR '':'' \<notin> set host then host else ''['' @ host @ '']'')"

definition dialer_link_query_bool :: "string \<Rightarrow> bool" where
  "dialer_link_query_bool value =
     (if value = ''true'' then True else if value = ''false'' then False else value = ''1'')"

definition dialer_link_query_bool_strict ::
    "string \<Rightarrow> Url \<Rightarrow> string \<Rightarrow> string \<Rightarrow> (bool option, TransportError) result" where
  "dialer_link_query_bool_strict raw parsed name field =
     (case dialer_link_query_value parsed name of
        None \<Rightarrow> Ok None
      | Some value \<Rightarrow>
          if value = ''true'' \<or> value = ''1'' then Ok (Some True)
          else if value = ''false'' \<or> value = ''0'' then Ok (Some False)
          else invalid_link raw (''invalid '' @ field @ '': '' @ value))"

definition parse_u64 :: "string \<Rightarrow> (u64, IntErrorKind) result" where
  "parse_u64 s = map_ok of_nat (parse_int 10 (2 ^ 64 - 1) s)"

definition dialer_link_query_u64 ::
    "string \<Rightarrow> Url \<Rightarrow> string \<Rightarrow> string \<Rightarrow> (u64 option, TransportError) result" where
  "dialer_link_query_u64 raw parsed name field =
     transpose_result
       (map_option
          (\<lambda>value. map_err
             (\<lambda>source. InvalidProxyDialerLink raw (''invalid '' @ field @ '': '' @ int_error_text source))
             (parse_u64 value))
          (filter_nonempty (dialer_link_query_value parsed name)))"

definition http_connect_allow_insecure :: "Url \<Rightarrow> bool" where
  "http_connect_allow_insecure parsed =
     list_ex (\<lambda>(key, value).
         key \<in> {''allowInsecure'', ''allow_insecure'', ''allowinsecure'', ''skipVerify''}
         \<and> dialer_link_query_bool value)
       (url_query_pairs parsed)"

section \<open>The links\<close>

record HttpConnectDialerLink =
  hc_host :: string
  hc_port :: u16
  hc_tls :: bool
  hc_sni :: "string option"
  hc_allow_insecure :: bool
  hc_username :: "string option"
  hc_password :: "string option"

record Socks5DialerLink =
  s5_host :: string
  s5_port :: u16
  s5_username :: "string option"
  s5_password :: "string option"

record ShadowsocksDialerLink =
  ss_host :: string
  ss_port :: u16
  ss_normalized_link :: string

record ShadowsocksRDialerLink =
  ssr_host :: string
  ssr_port :: u16
  ssr_shadowsocks :: ShadowsocksDialerLink

record TrojanDialerLink =
  tj_host :: string
  tj_port :: u16
  tj_password :: string
  tj_sni :: string
  tj_allow_insecure :: bool

record JuicityDialerLink =
  jc_host :: string
  jc_port :: u16
  jc_uuid :: Uuid
  jc_password :: string
  jc_sni :: string
  jc_allow_insecure :: bool
  jc_congestion_control :: string
  jc_pinned_cert_chain_sha256 :: "bytes option"

record TuicDialerLink =
  tu_host :: string
  tu_port :: u16
  tu_user :: string
  tu_password :: string
  tu_sni :: "string option"
  tu_allow_insecure :: bool
  tu_disable_sni :: bool
  tu_congestion_control :: "string option"
  tu_alpn :: "string list"
  tu_udp_relay_mode :: "string option"

record Hysteria2DialerLink =
  hy_host :: string
  hy_port :: u16
  hy_user :: string
  hy_password :: string
  hy_insecure :: bool
  hy_sni :: "string option"
  hy_pin_sha256 :: "string option"
  hy_max_tx :: "u64 option"
  hy_max_rx :: "u64 option"

record VmessDialerLink =
  vm_host :: string
  vm_port :: u16
  vm_id :: string
  vm_key :: bytes
  vm_cmd_key :: bytes

record VlessDialerLink =
  vl_host :: string
  vl_port :: u16
  vl_user :: string
  vl_key :: bytes

datatype ProxyDialerLink =
    HttpConnect HttpConnectDialerLink
  | Socks5 Socks5DialerLink
  | Shadowsocks ShadowsocksDialerLink
  | ShadowsocksR ShadowsocksRDialerLink
  | Trojan TrojanDialerLink
  | JuicityLink JuicityDialerLink
  | TuicLink TuicDialerLink
  | Hysteria2 Hysteria2DialerLink
  | Vmess VmessDialerLink
  | Vless VlessDialerLink
  | Chain "ProxyDialerLink list"

section \<open>Link parsers\<close>

definition required_host :: "string \<Rightarrow> Url \<Rightarrow> string \<Rightarrow> (string, TransportError) result" where
  "required_host raw parsed message =
     ok_or (filter_nonempty (url_host_str parsed)) (InvalidProxyDialerLink raw message)"

definition required_port :: "string \<Rightarrow> Url \<Rightarrow> string \<Rightarrow> (u16, TransportError) result" where
  "required_port raw parsed message = ok_or (url_port parsed) (InvalidProxyDialerLink raw message)"

definition password_or_empty :: "string \<Rightarrow> Url \<Rightarrow> string \<Rightarrow> (string, TransportError) result" where
  "password_or_empty raw parsed field =
     (case url_password parsed of
        Some password \<Rightarrow> percent_decode_utf8 raw password field
      | None \<Rightarrow> Ok [])"

definition HttpConnectDialerLink_from_url ::
    "string \<Rightarrow> Url \<Rightarrow> (HttpConnectDialerLink, TransportError) result" where
  "HttpConnectDialerLink_from_url raw parsed =
     and_then (required_host raw parsed ''missing HTTP CONNECT host'') (\<lambda>host.
     (let tls = eq_ignore_ascii_case (url_scheme parsed) ''https'' in
      Ok \<lparr>hc_host = host,
          hc_port = unwrap_or (url_port parsed) (if tls then 443 else 80),
          hc_tls = tls,
          hc_sni = filter_nonempty (find_value (\<lambda>key. key = ''sni'') parsed),
          hc_allow_insecure = http_connect_allow_insecure parsed,
          hc_username = (if url_username parsed \<noteq> [] then Some (url_username parsed) else None),
          hc_password = url_password parsed\<rparr>))"

definition HttpConnect_scheme :: "HttpConnectDialerLink \<Rightarrow> string" where
  "HttpConnect_scheme link = (if hc_tls link then ''https'' else ''http'')"

definition Socks5DialerLink_from_url ::
    "string \<Rightarrow> Url \<Rightarrow> (Socks5DialerLink, TransportError) result" where
  "Socks5DialerLink_from_url raw parsed =
     and_then
       (case url_host parsed of
          Some (HostDomain host) \<Rightarrow> Ok host
        | Some (HostIpv4 host) \<Rightarrow> Ok (ipv4_to_string host)
        | Some (HostIpv6 host) \<Rightarrow> Ok (ipv6_to_string host)
        | None \<Rightarrow> invalid_link raw ''missing SOCKS5 host'')
       (\<lambda>host.
     and_then (required_port raw parsed ''missing SOCKS5 port'') (\<lambda>port.
     and_then
       (if url_username parsed = [] then Ok None
        else map_ok Some (percent_decode_utf8 raw (url_username parsed) ''SOCKS5 username''))
       (\<lambda>username.
     and_then
       (transpose_result (map_option
          (\<lambda>password. percent_decode_utf8 raw password ''SOCKS5 password'') (url_password parsed)))
       (\<lambda>password.
     if (username \<noteq> None) \<noteq> (password \<noteq> None) \<or> username = Some [] \<or> password = Some [] then
       invalid_link raw
         ''SOCKS5 username and password must either both be set or both be absent''
     else
       Ok \<lparr>s5_host = host, s5_port = port, s5_username = username, s5_password = password\<rparr>))))"

definition JuicityDialerLink_from_url ::
    "Libs \<Rightarrow> string \<Rightarrow> Url \<Rightarrow> (JuicityDialerLink, TransportError) result" where
  "JuicityDialerLink_from_url libs raw parsed =
     and_then (required_host raw parsed ''missing Juicity host'') (\<lambda>host.
     and_then (required_port raw parsed ''missing Juicity port'') (\<lambda>port.
     and_then (percent_decode_utf8 raw (url_username parsed) ''Juicity UUID'') (\<lambda>raw_uuid.
     and_then (map_err (\<lambda>source. InvalidProxyDialerLink raw (''parse Juicity UUID: '' @ source))
         (lib_uuid_parse libs raw_uuid)) (\<lambda>uuid.
     and_then (password_or_empty raw parsed ''Juicity password'') (\<lambda>password.
     and_then
       (transpose_result (map_option (decode_juicity_pinned_cert_chain_sha256 libs raw)
          (filter_nonempty (dialer_link_query_value parsed ''pinned_certchain_sha256''))))
       (\<lambda>pinned.
     Ok \<lparr>jc_host = host, jc_port = port, jc_uuid = uuid, jc_password = password,
         jc_sni = unwrap_or
           (filter_nonempty (or_else (dialer_link_query_value parsed ''peer'')
                                     (dialer_link_query_value parsed ''sni''))) host,
         jc_allow_insecure = http_connect_allow_insecure parsed,
         jc_congestion_control = unwrap_or (dialer_link_query_value parsed ''congestion_control'') [],
         jc_pinned_cert_chain_sha256 = pinned\<rparr>))))))"

definition TuicDialerLink_from_url ::
    "string \<Rightarrow> Url \<Rightarrow> (TuicDialerLink, TransportError) result" where
  "TuicDialerLink_from_url raw parsed =
     and_then (required_host raw parsed ''missing TUIC host'') (\<lambda>host.
     and_then (required_port raw parsed ''missing TUIC port'') (\<lambda>port.
     and_then (percent_decode_utf8 raw (url_username parsed) ''TUIC user'') (\<lambda>user.
     and_then (password_or_empty raw parsed ''TUIC password'') (\<lambda>password.
     (let disable_sni = (case dialer_link_query_value parsed ''disable_sni'' of
                           None \<Rightarrow> False | Some v \<Rightarrow> dialer_link_query_bool v);
          sni = (if disable_sni then None
                 else or_else
                   (filter_nonempty (or_else (dialer_link_query_value parsed ''peer'')
                                             (dialer_link_query_value parsed ''sni'')))
                   (Some host));
          alpn = (case dialer_link_query_value parsed ''alpn'' of
                    None \<Rightarrow> [] | Some v \<Rightarrow> filter (\<lambda>item. item \<noteq> []) (split_char CHR '','' v))
      in Ok \<lparr>tu_host = host, tu_port = port, tu_user = user, tu_password = password, tu_sni = sni,
             tu_allow_insecure = (http_connect_allow_insecure parsed \<or> disable_sni),
             tu_disable_sni = disable_sni,
             tu_congestion_control = filter_nonempty (dialer_link_query_value parsed ''congestion_control''),
             tu_alpn = alpn,
             tu_udp_relay_mode = filter_nonempty (dialer_link_query_value parsed ''udp_relay_mode'')\<rparr>)))))"

definition Hysteria2DialerLink_from_url ::
    "string \<Rightarrow> Url \<Rightarrow> (Hysteria2DialerLink, TransportError) result" where
  "Hysteria2DialerLink_from_url raw parsed =
     and_then (required_host raw parsed ''missing Hysteria2 host'') (\<lambda>host.
     and_then (required_port raw parsed ''missing Hysteria2 port'') (\<lambda>port.
     and_then (percent_decode_utf8 raw (url_username parsed) ''Hysteria2 user'') (\<lambda>user.
     and_then (password_or_empty raw parsed ''Hysteria2 password'') (\<lambda>password.
     and_then (dialer_link_query_bool_strict raw parsed ''insecure'' ''Hysteria2 insecure'') (\<lambda>insecure.
     and_then (dialer_link_query_u64 raw parsed ''maxTx'' ''Hysteria2 maxTx'') (\<lambda>max_tx.
     and_then (dialer_link_query_u64 raw parsed ''maxRx'' ''Hysteria2 maxRx'') (\<lambda>max_rx.
     Ok \<lparr>hy_host = host, hy_port = port, hy_user = user, hy_password = password,
         hy_insecure = unwrap_or insecure False,
         hy_sni = filter_nonempty (dialer_link_query_value parsed ''sni''),
         hy_pin_sha256 = filter_nonempty (dialer_link_query_value parsed ''pinSHA256''),
         hy_max_tx = max_tx, hy_max_rx = max_rx\<rparr>)))))))"

definition TrojanDialerLink_from_url ::
    "string \<Rightarrow> Url \<Rightarrow> (TrojanDialerLink, TransportError) result" where
  "TrojanDialerLink_from_url raw parsed =
     and_then (required_host raw parsed ''missing Trojan host'') (\<lambda>host.
     and_then (required_port raw parsed ''missing Trojan port'') (\<lambda>port.
     (let transport_type = unwrap_or (find_value (\<lambda>key. key = ''type'') parsed) [] in
      if transport_type \<noteq> [] then
        invalid_link raw (''Trojan transport type '' @ transport_type
          @ '' is not supported; only TCP over TLS is supported'')
      else
        (let encryption = unwrap_or (find_value (\<lambda>key. key = ''encryption'') parsed) [] in
         if encryption \<noteq> [] then invalid_link raw ''Trojan encryption plugins are not supported''
         else
           and_then (percent_decode_utf8 raw (url_username parsed) ''Trojan password'') (\<lambda>password.
           Ok \<lparr>tj_host = host, tj_port = port, tj_password = password,
               tj_sni = unwrap_or
                 (filter_nonempty (find_value (\<lambda>key. key = ''peer'' \<or> key = ''sni'') parsed)) host,
               tj_allow_insecure = http_connect_allow_insecure parsed\<rparr>)))))"

definition VlessDialerLink_from_url ::
    "Libs \<Rightarrow> string \<Rightarrow> Url \<Rightarrow> (VlessDialerLink, TransportError) result option" where
  "VlessDialerLink_from_url libs raw parsed =
     (case and_then (required_host raw parsed ''missing VLESS host'') (\<lambda>host.
        and_then (required_port raw parsed ''missing VLESS port'') (\<lambda>port.
        (let transport_type = unwrap_or (filter_nonempty (dialer_link_query_value parsed ''type'')) ''tcp'' in
         if transport_type \<noteq> ''tcp'' then
           invalid_link raw (''VLESS transport type '' @ transport_type
             @ '' is not supported; only plain TCP is supported'')
         else
         (let header_type = unwrap_or (filter_nonempty (dialer_link_query_value parsed ''headerType'')) ''none'' in
          if header_type \<noteq> ''none'' then
            invalid_link raw (''VLESS header type '' @ header_type
              @ '' is not supported; only none is supported'')
          else
          (let security = unwrap_or (filter_nonempty (dialer_link_query_value parsed ''security'')) ''none'' in
           if security \<noteq> ''none'' then
             invalid_link raw (''VLESS security '' @ security
               @ '' is not supported; only plain TCP without TLS or Reality is supported'')
           else
           (let flow = unwrap_or (dialer_link_query_value parsed ''flow'') [] in
            if flow \<noteq> [] then
              invalid_link raw (''VLESS flow '' @ flow
                @ '' is not supported; XTLS/Vision requires a separate slice'')
            else
              and_then (percent_decode_utf8 raw (url_username parsed) ''VLESS user'') (\<lambda>user.
                Ok (host, port, user)))))))) of
        Err e \<Rightarrow> Some (Err e)
      | Ok (host, port, user) \<Rightarrow>
          map_option
            (map_ok (\<lambda>key. \<lparr>vl_host = host, vl_port = port, vl_user = user, vl_key = key\<rparr>))
            (vless_user_to_key libs raw user))"

record ParsedVmessDialerLink =
  pv_host :: string
  pv_port :: u16
  pv_id :: string

definition parse_vmess_port :: "string \<Rightarrow> string \<Rightarrow> (u16, TransportError) result" where
  "parse_vmess_port raw port =
     map_err (\<lambda>source. InvalidProxyDialerLink raw (''invalid VMess port: '' @ int_error_text source))
       (map_ok of_nat (parse_int 10 65535 port))"

definition parsed_vmess_json ::
    "string \<Rightarrow> VmessJsonLink \<Rightarrow> (ParsedVmessDialerLink, TransportError) result" where
  "parsed_vmess_json raw json =
     (let aid = (if vj_aid json = [] then ''0'' else vj_aid json);
          net = (if vj_net json = [] then ''tcp'' else vj_net json)
      in
      if aid \<noteq> ''0'' then
        invalid_link raw (''VMess alterId '' @ aid @ '' is not supported; only AEAD alterId 0 is supported'')
      else if net \<noteq> ''tcp'' then
        invalid_link raw (''VMess transport network '' @ net
          @ '' is not supported; only plain TCP is supported'')
      else if vj_header_type json \<notin> {[], ''none''} then
        invalid_link raw (''VMess TCP header type '' @ vj_header_type json
          @ '' is not supported; only none is supported'')
      else if vj_tls json \<notin> {[], ''none''} then
        invalid_link raw (''VMess TLS mode '' @ vj_tls json @ '' is not supported in this plain-TCP slice'')
      else
        and_then (parse_vmess_port raw (vj_port json)) (\<lambda>port.
        if vj_add json = [] then invalid_link raw ''missing VMess host''
        else if vj_id json = [] then invalid_link raw ''missing VMess id''
        else Ok \<lparr>pv_host = vj_add json, pv_port = port, pv_id = vj_id json\<rparr>))"

definition parse_vmess_raw_link ::
    "string \<Rightarrow> Url \<Rightarrow> bytes \<Rightarrow> (ParsedVmessDialerLink, TransportError) result" where
  "parse_vmess_raw_link raw parsed decoded =
     and_then
       (map_err (\<lambda>source. InvalidProxyDialerLink raw (''invalid VMess raw payload: '' @ source))
          (string_from_utf8 decoded)) (\<lambda>decoded.
     and_then (ok_or (rsplit_once CHR ''@'' decoded)
         (InvalidProxyDialerLink raw ''unrecognized VMess raw address'')) (\<lambda>(security_and_id, address).
     and_then (ok_or (split_once CHR '':'' security_and_id)
         (InvalidProxyDialerLink raw ''unrecognized VMess raw credential'')) (\<lambda>(_, id).
     and_then (ok_or (rsplit_once CHR '':'' address)
         (InvalidProxyDialerLink raw ''missing VMess raw port'')) (\<lambda>(host, port).
     and_then (parse_vmess_port raw port) (\<lambda>port.
     (let net = unwrap_or (find_value (\<lambda>key. key = ''obfs'') parsed) ''tcp'';
          tls = unwrap_or (find_value (\<lambda>key. key = ''tls'') parsed) [];
          aid = unwrap_or (find_value (\<lambda>key. key = ''alterId'' \<or> key = ''aid'') parsed) ''0''
      in
      if net \<noteq> ''tcp'' \<and> net \<noteq> [] then
        invalid_link raw (''VMess transport network '' @ net
          @ '' is not supported; only plain TCP is supported'')
      else if tls = ''1'' \<or> tls = ''tls'' then
        invalid_link raw ''VMess TLS raw links require a separate transport slice''
      else if aid \<noteq> [] \<and> aid \<noteq> ''0'' then
        invalid_link raw (''VMess alterId '' @ aid @ '' is not supported; only AEAD alterId 0 is supported'')
      else Ok \<lparr>pv_host = host, pv_port = port, pv_id = id\<rparr>))))))"

definition decode_vmess_base64 :: "Libs \<Rightarrow> string \<Rightarrow> string \<Rightarrow> (bytes, TransportError) result" where
  "decode_vmess_base64 libs raw value =
     map_err (\<lambda>source. InvalidProxyDialerLink raw
         (''invalid VMess base64 payload: '' @ lib_decode_error_text libs source))
       (result_or_else (decode_padded_base64_bytes libs STANDARD value)
          (decode_padded_base64_bytes libs URL_SAFE value))"

definition parse_vmess_link ::
    "Libs \<Rightarrow> string \<Rightarrow> Url \<Rightarrow> (ParsedVmessDialerLink, TransportError) result" where
  "parse_vmess_link libs raw parsed =
     and_then (ok_or (strip_prefix raw ''vmess://'') (InvalidProxyDialerLink raw ''missing VMess payload''))
       (\<lambda>payload.
     (let payload = (case split_once CHR ''?'' payload of None \<Rightarrow> payload | Some (p, _) \<Rightarrow> p) in
      and_then (decode_vmess_base64 libs raw payload) (\<lambda>decoded.
      case lib_vmess_json libs decoded of
        Some json \<Rightarrow> parsed_vmess_json raw json
      | None \<Rightarrow> parse_vmess_raw_link raw parsed decoded)))"

definition VmessDialerLink_from_url ::
    "Libs \<Rightarrow> string \<Rightarrow> Url \<Rightarrow> (VmessDialerLink, TransportError) result option" where
  "VmessDialerLink_from_url libs raw parsed =
     (case parse_vmess_link libs raw parsed of
        Err e \<Rightarrow> Some (Err e)
      | Ok link \<Rightarrow>
          map_option
            (map_ok (\<lambda>key. \<lparr>vm_host = pv_host link, vm_port = pv_port link, vm_id = pv_id link,
                            vm_key = key, vm_cmd_key = vmess_cmd_key libs key\<rparr>))
            (vless_user_to_key libs raw (pv_id link)))"

definition shadowsocks_server_addr_parts :: "ServerAddr \<Rightarrow> string \<times> u16" where
  "shadowsocks_server_addr_parts addr =
     (case addr of
        ServerSocketAddr address \<Rightarrow> (ip_to_string (sa_ip address), sa_port address)
      | ServerDomainName domain port \<Rightarrow> (domain, port))"

definition normalize_shadowsocks_link :: "string \<Rightarrow> Url \<Rightarrow> string" where
  "normalize_shadowsocks_link raw parsed =
     (if eq_ignore_ascii_case (url_scheme parsed) ''shadowsocks'' then
        (case split_once CHR '':'' raw of
           None \<Rightarrow> raw
         | Some (_, rest) \<Rightarrow> ''ss:'' @ rest)
      else raw)"

definition from_normalized_link ::
    "Libs \<Rightarrow> string \<Rightarrow> string \<Rightarrow> (ShadowsocksDialerLink, TransportError) result" where
  "from_normalized_link libs raw normalized_link =
     and_then (map_err (InvalidProxyDialerLink raw) (lib_ss_from_url libs normalized_link))
       (\<lambda>server_config.
     if ss_plugin server_config then
       invalid_link raw ''Shadowsocks plugin dialer_link is not supported''
     else
       (case shadowsocks_server_addr_parts (ss_tcp_external_addr server_config) of
          (host, port) \<Rightarrow>
            Ok \<lparr>ss_host = host, ss_port = port, ss_normalized_link = normalized_link\<rparr>))"

definition ShadowsocksDialerLink_from_url ::
    "Libs \<Rightarrow> string \<Rightarrow> Url \<Rightarrow> (ShadowsocksDialerLink, TransportError) result" where
  "ShadowsocksDialerLink_from_url libs raw parsed =
     (if url_username parsed \<noteq> [] \<and> url_port parsed = None then
        invalid_link raw ''missing Shadowsocks port''
      else from_normalized_link libs raw (normalize_shadowsocks_link raw parsed))"

definition ShadowsocksDialerLink_from_parts ::
    "Libs \<Rightarrow> string \<Rightarrow> string \<Rightarrow> u16 \<Rightarrow> string \<Rightarrow> string
     \<Rightarrow> (ShadowsocksDialerLink, TransportError) result" where
  "ShadowsocksDialerLink_from_parts libs raw host port cipher_method password =
     (if host = [] then invalid_link raw ''missing ShadowsocksR host''
      else
        (let userinfo = lib_base64_encode libs URL_SAFE_NO_PAD (as_bytes (cipher_method @ '':'' @ password));
             host = dialer_link_host_authority host
         in from_normalized_link libs raw
              (''ss://'' @ userinfo @ ''@'' @ host @ '':'' @ dec_string (unat port))))"

definition server_config ::
    "Libs \<Rightarrow> ShadowsocksDialerLink \<Rightarrow> (ShadowsocksServerConfig, TransportError) result" where
  "server_config libs link =
     map_err (InvalidProxyDialerLink (ss_normalized_link link))
       (lib_ss_from_url libs (ss_normalized_link link))"

record ParsedShadowsocksRLink =
  pr_host :: string
  pr_port :: u16
  pr_proto :: string
  pr_cipher :: string
  pr_obfs :: string
  pr_password :: string

definition decode_shadowsocksr_field :: "Libs \<Rightarrow> string \<Rightarrow> string" where
  "decode_shadowsocksr_field libs value =
     (let trimmed = trim value in
      case decode_padded_base64_bytes libs URL_SAFE trimmed of
        Err _ \<Rightarrow> trimmed
      | Ok decoded \<Rightarrow> unwrap_or (from_utf8 decoded) trimmed)"

definition parse_shadowsocksr_plain_content ::
    "Libs \<Rightarrow> string \<Rightarrow> string \<Rightarrow> (ParsedShadowsocksRLink, TransportError) result" where
  "parse_shadowsocksr_plain_content libs raw content =
     (let content = (if CHR '':'' \<in> set content \<and> \<not> contains_str content ''/?''
                     then content @ ''/?remarks=&protoparam=&obfsparam='' else content) in
      and_then (ok_or (split_once_str ''/?'' content)
          (InvalidProxyDialerLink raw ''unrecognized ShadowsocksR address'')) (\<lambda>(pre, query).
      (let fields = split_char CHR '':'' pre in
       and_then
         (if length fields > 6 then
            (let host_end = length fields - 5 in
             Ok (join_str '':'' (take host_end fields) # drop host_end fields))
          else if length fields < 6 then invalid_link raw ''unrecognized ShadowsocksR address''
          else Ok fields)
         (\<lambda>fields.
       and_then (map_err (\<lambda>source. InvalidProxyDialerLink raw (int_error_text source))
           (parse_int 10 65535 (fields ! 1))) (\<lambda>port.
       Ok \<lparr>pr_host = decode_shadowsocksr_field libs (fields ! 0),
           pr_port = of_nat port,
           pr_proto = fields ! 2,
           pr_cipher = fields ! 3,
           pr_obfs = fields ! 4,
           pr_password = decode_shadowsocksr_field libs (fields ! 5)\<rparr>)))))"

definition decode_shadowsocksr_outer_content ::
    "Libs \<Rightarrow> string \<Rightarrow> string \<Rightarrow> (string, TransportError) result" where
  "decode_shadowsocksr_outer_content libs raw content =
     (case decode_padded_base64_string libs STANDARD content of
        Ok decoded \<Rightarrow> Ok decoded
      | Err standard_error \<Rightarrow>
          map_err (\<lambda>url_error. InvalidProxyDialerLink raw
              (''invalid ShadowsocksR base64 payload: '' @ standard_error @ ''; '' @ url_error))
            (decode_padded_base64_string libs URL_SAFE content))"

definition parse_shadowsocksr_link_content ::
    "Libs \<Rightarrow> string \<Rightarrow> string \<Rightarrow> (ParsedShadowsocksRLink, TransportError) result" where
  "parse_shadowsocksr_link_content libs raw content =
     (case parse_shadowsocksr_plain_content libs raw content of
        Ok parsed \<Rightarrow> Ok parsed
      | Err _ \<Rightarrow>
          and_then (decode_shadowsocksr_outer_content libs raw content) (\<lambda>decoded.
            parse_shadowsocksr_plain_content libs raw decoded))"

definition ShadowsocksRDialerLink_from_url ::
    "Libs \<Rightarrow> string \<Rightarrow> (ShadowsocksRDialerLink, TransportError) result" where
  "ShadowsocksRDialerLink_from_url libs raw =
     and_then (ok_or (strip_prefix raw ''ssr://'')
         (InvalidProxyDialerLink raw ''ShadowsocksR links must use the ssr:// prefix'')) (\<lambda>content.
     and_then (parse_shadowsocksr_link_content libs raw content) (\<lambda>parsed.
     if pr_proto parsed \<noteq> ''origin'' then
       invalid_link raw (''ShadowsocksR protocol '' @ pr_proto parsed
         @ '' is not supported; only origin is supported'')
     else if pr_obfs parsed \<noteq> ''plain'' then
       invalid_link raw (''ShadowsocksR obfs '' @ pr_obfs parsed
         @ '' is not supported; only plain is supported'')
     else
       and_then (ShadowsocksDialerLink_from_parts libs raw (pr_host parsed) (pr_port parsed)
           (pr_cipher parsed) (pr_password parsed)) (\<lambda>shadowsocks.
       Ok \<lparr>ssr_host = ss_host shadowsocks, ssr_port = ss_port shadowsocks,
           ssr_shadowsocks = shadowsocks\<rparr>)))"

section \<open>\<^verbatim>\<open>ProxyDialerLink\<close>\<close>

definition parse_single ::
    "Libs \<Rightarrow> string \<Rightarrow> (ProxyDialerLink, TransportError) result option" where
  "parse_single libs raw =
     (let lowercase = to_ascii_lowercase raw in
      if starts_with lowercase ''ssr://'' then
        Some (map_ok ShadowsocksR (ShadowsocksRDialerLink_from_url libs raw))
      else if starts_with lowercase ''shadowsocksr://'' then
        Some (invalid_link raw ''upstream ShadowsocksR links use the ssr:// parser prefix'')
      else case lib_url_parse libs raw of
          Err source \<Rightarrow> Some (invalid_link raw source)
        | Ok parsed \<Rightarrow>
            (let scheme = to_ascii_lowercase (url_scheme parsed) in
             if scheme \<in> {''http'', ''https''} then
               Some (map_ok HttpConnect (HttpConnectDialerLink_from_url raw parsed))
             else if scheme \<in> {''socks'', ''socks5''} then
               Some (map_ok Socks5 (Socks5DialerLink_from_url raw parsed))
             else if scheme \<in> {''ss'', ''shadowsocks''} then
               Some (map_ok Shadowsocks (ShadowsocksDialerLink_from_url libs raw parsed))
             else if scheme \<in> {''trojan'', ''trojan-go''} then
               Some (map_ok Trojan (TrojanDialerLink_from_url raw parsed))
             else if scheme = ''juicity'' then
               Some (map_ok JuicityLink (JuicityDialerLink_from_url libs raw parsed))
             else if scheme = ''tuic'' then
               Some (map_ok TuicLink (TuicDialerLink_from_url raw parsed))
             else if scheme \<in> {''hysteria2'', ''hy2''} then
               Some (map_ok Hysteria2 (Hysteria2DialerLink_from_url raw parsed))
             else if scheme = ''vmess'' then
               map_option (map_ok Vmess) (VmessDialerLink_from_url libs raw parsed)
             else if scheme = ''vless'' then
               map_option (map_ok Vless) (VlessDialerLink_from_url libs raw parsed)
             else Some (Err (UnsupportedProxyDialerLinkScheme scheme))))"

fun parse_hops ::
    "Libs \<Rightarrow> string \<Rightarrow> string list \<Rightarrow> (ProxyDialerLink list, TransportError) result option" where
  "parse_hops libs raw [] = Some (Ok [])"
| "parse_hops libs raw (link # links) =
     (if link = [] then Some (invalid_link raw ''proxy chain contains an empty hop'')
      else case parse_single libs link of
          None \<Rightarrow> None
        | Some (Err e) \<Rightarrow> Some (Err e)
        | Some (Ok parsed) \<Rightarrow> map_option (map_ok (\<lambda>rest. parsed # rest)) (parse_hops libs raw links))"

definition ProxyDialerLink_parse ::
    "Libs \<Rightarrow> string \<Rightarrow> (ProxyDialerLink, TransportError) result option" where
  "ProxyDialerLink_parse libs raw =
     (let links = map trim (split_str ''->'' raw) in
      if length links > 1 then map_option (map_ok Chain) (parse_hops libs raw links)
      else parse_single libs (trim raw))"

definition link_endpoint :: "ProxyDialerLink \<Rightarrow> (string \<times> u16) option" where
  "link_endpoint l =
     (case l of
        HttpConnect link \<Rightarrow> Some (hc_host link, hc_port link)
      | Socks5 link \<Rightarrow> Some (s5_host link, s5_port link)
      | Shadowsocks link \<Rightarrow> Some (ss_host link, ss_port link)
      | ShadowsocksR link \<Rightarrow> Some (ssr_host link, ssr_port link)
      | Trojan link \<Rightarrow> Some (tj_host link, tj_port link)
      | JuicityLink _ \<Rightarrow> None
      | TuicLink _ \<Rightarrow> None
      | Hysteria2 _ \<Rightarrow> None
      | Vmess link \<Rightarrow> Some (vm_host link, vm_port link)
      | Vless link \<Rightarrow> Some (vl_host link, vl_port link)
      | Chain _ \<Rightarrow> None)"

definition scheme_for_error :: "ProxyDialerLink \<Rightarrow> string" where
  "scheme_for_error l =
     (case l of
        HttpConnect link \<Rightarrow> HttpConnect_scheme link
      | Socks5 _ \<Rightarrow> ''socks5''
      | Shadowsocks _ \<Rightarrow> ''shadowsocks''
      | ShadowsocksR _ \<Rightarrow> ''shadowsocksr''
      | Trojan _ \<Rightarrow> ''trojan''
      | JuicityLink _ \<Rightarrow> ''juicity''
      | TuicLink _ \<Rightarrow> ''tuic''
      | Hysteria2 _ \<Rightarrow> ''hysteria2''
      | Vmess _ \<Rightarrow> ''vmess''
      | Vless _ \<Rightarrow> ''vless''
      | Chain _ \<Rightarrow> ''chain'')"

section \<open>Hexadecimal text\<close>

definition hex2 :: "byte \<Rightarrow> string" where
  "hex2 b = [digit_char (unat b div 16), digit_char (unat b mod 16)]"

lemma digit_char_not_plus: "d < 16 \<Longrightarrow> digit_char d \<noteq> CHR ''+''"
  using to_digit_digit_char [of d 16] by (auto simp: to_digit_def)

lemma parse_int_hex2: "parse_int 16 255 (hex2 b) = Ok (unat b)"
proof -
  have b: "unat b < 256" using unsigned_less [where 'a = nat, of b] by simp
  then have d: "unat b div 16 < 16" "unat b mod 16 < 16" by simp_all
  have "parse_unsigned 16 255 (hex2 b) = Some (unat b)"
    using b d digit_char_not_plus [OF d(1)]
    by (simp add: parse_unsigned_def hex2_def to_digit_digit_char)
  then show ?thesis by (simp add: parse_int_Ok)
qed

lemma ascii_not_cont: "n < 128 \<Longrightarrow> \<not> utf8_cont (byte_of_char (char_of (n :: nat)))"
  by (simp add: utf8_cont_def byte_of_char_def word_le_nat_alt unat_of_nat)

lemma digit_char_ascii: "d < 16 \<Longrightarrow> \<not> utf8_cont (byte_of_char (digit_char d))"
  unfolding digit_char_def by (rule ascii_not_cont) auto

lemma length_hex_string: "length (concat (map hex2 bs)) = 2 * length bs"
  by (induction bs) (simp_all add: hex2_def)

lemma hex_char_ascii: "c \<in> set (concat (map hex2 bs)) \<Longrightarrow> \<not> utf8_cont (byte_of_char c)"
proof -
  assume "c \<in> set (concat (map hex2 bs))"
  then obtain b :: byte where "c = digit_char (unat b div 16) \<or> c = digit_char (unat b mod 16)"
    by (auto simp: hex2_def)
  moreover have "unat b div 16 < 16" using unsigned_less [where 'a = nat, of b] by simp
  ultimately show "\<not> utf8_cont (byte_of_char c)"
    using digit_char_ascii [of "unat b div 16"] digit_char_ascii [of "unat b mod 16"] by auto
qed

lemma hex_slice:
  "i < length bs \<Longrightarrow> slice (2 * i) (2 * i + 2) (concat (map hex2 bs)) = hex2 (bs ! i)"
proof (induction bs arbitrary: i)
  case (Cons b bs)
  then show ?case
    by (cases i) (simp_all add: slice_def hex2_def)
qed simp

lemma str_slice_hex:
  assumes "i < length bs"
  shows "str_slice (concat (map hex2 bs)) (2 * i) (2 * i + 2) = Some (hex2 (bs ! i))"
proof -
  let ?s = "concat (map hex2 bs)"
  have bd: "is_char_boundary ?s j" if "j \<le> length ?s" for j
    using that hex_char_ascii [OF nth_mem, of j bs]
    by (cases "j = length ?s") (simp_all add: is_char_boundary_def)
  have "2 * i + 2 \<le> length ?s" using assms by (simp add: length_hex_string)
  then show ?thesis
    using bd [of "2 * i"] bd [of "2 * i + 2"] hex_slice [OF assms] by (simp add: str_slice_def)
qed

lemma vless_key_loop_hex:
  "list_all (\<lambda>i. i < length bs) is \<Longrightarrow>
     vless_key_loop raw (concat (map hex2 bs)) is = Some (Ok (map (\<lambda>i. bs ! i) is))"
proof (induction "is")
  case (Cons i "is")
  then show ?case
    using str_slice_hex [of i bs] by (simp add: parse_int_hex2 mult.commute)
qed simp

definition not_chain :: "(ProxyDialerLink, TransportError) result option \<Rightarrow> bool" where
  "not_chain r \<longleftrightarrow> (\<forall>ls. r \<noteq> Some (Ok (Chain ls)))"

lemma not_chain_intros:
  "not_chain a \<Longrightarrow> not_chain b \<Longrightarrow> not_chain (if c then a else b)"
  "\<lbrakk>\<And>e. not_chain (f e); \<And>x. not_chain (g x)\<rbrakk> \<Longrightarrow> not_chain (case r of Err e \<Rightarrow> f e | Ok x \<Rightarrow> g x)"
  "(\<And>x ls. h x \<noteq> Chain ls) \<Longrightarrow> not_chain (Some (map_ok h q))"
  "(\<And>x ls. h x \<noteq> Chain ls) \<Longrightarrow> not_chain (map_option (map_ok h) p)"
  "not_chain (Some (Err e))"
  by (auto simp: not_chain_def map_ok_Ok_iff dest: sym split: result.split)

lemma not_chain_parse_single: "not_chain (parse_single libs raw)"
  unfolding parse_single_def Let_def by (intro not_chain_intros ProxyDialerLink.distinct)

lemma parse_single_not_Chain: "parse_single libs raw \<noteq> Some (Ok (Chain ls))"
  using not_chain_parse_single by (simp add: not_chain_def)

lemma parse_hops_Ok:
  "parse_hops libs raw hops = Some (Ok ls) \<longleftrightarrow>
     list_all2 (\<lambda>hop l. hop \<noteq> [] \<and> parse_single libs hop = Some (Ok l)) hops ls"
proof (induction hops arbitrary: ls)
  case (Cons hop hops)
  then show ?case
    by (cases ls) (auto simp: map_ok_Ok_iff split: option.splits result.splits)
qed auto

section \<open>Properties\<close>

text \<open>
  Parsing a dialer link gives a chain exactly when the text has several hops separated by
  \<^verbatim>\<open>->\<close>; a chain has one parsed link per hop, in order, and no link of it is a chain itself.
\<close>

theorem dialer_chain_flat:
  assumes "ProxyDialerLink_parse libs raw = Some (Ok link)"
  shows "(case link of
      Chain links \<Rightarrow>
        1 < length links
        \<and> list_all2 (\<lambda>hop l. parse_single libs hop = Some (Ok l)) (map trim (split_str ''->'' raw)) links
        \<and> list_all (\<lambda>l. \<forall>ls. l \<noteq> Chain ls) links
    | _ \<Rightarrow> length (split_str ''->'' raw) \<le> 1 \<and> parse_single libs (trim raw) = Some (Ok link))"
proof -
  define hops where "hops = map trim (split_str ''->'' raw)"
  have len: "length (split_str ''->'' raw) = length hops" by (simp add: hops_def)
  have eq: "ProxyDialerLink_parse libs raw =
      (if length hops > 1 then map_option (map_ok Chain) (parse_hops libs raw hops)
       else parse_single libs (trim raw))"
    by (simp add: ProxyDialerLink_parse_def Let_def hops_def)
  show ?thesis
  proof (cases "1 < length hops")
    case True
    with assms eq obtain ls where l: "link = Chain ls" and h: "parse_hops libs raw hops = Some (Ok ls)"
      by (auto simp: map_ok_Ok_iff)
    then have a: "list_all2 (\<lambda>hop l. hop \<noteq> [] \<and> parse_single libs hop = Some (Ok l)) hops ls"
      by (simp only: parse_hops_Ok)
    then have b: "list_all2 (\<lambda>hop l. parse_single libs hop = Some (Ok l)) hops ls"
      by (rule list_all2_mono) simp
    moreover have "list_all (\<lambda>l. \<forall>ls. l \<noteq> Chain ls) ls"
      using b by (induction rule: list_all2_induct) (auto simp: parse_single_not_Chain)
    ultimately show ?thesis
      using True l list_all2_lengthD [OF a] unfolding hops_def [symmetric] by simp
  next
    case False
    with assms eq have "parse_single libs (trim raw) = Some (Ok link)" by simp
    moreover from this have "link \<noteq> Chain ls" for ls using parse_single_not_Chain by auto
    ultimately show ?thesis using False unfolding len by (cases link) auto
  qed
qed

text \<open>
  A VLESS or VMess user of 32 to 36 characters that spells sixteen bytes in hexadecimal,
  with hyphens anywhere, has exactly those bytes as its key; a user of any other length gets a
  key with the version and variant bits of a name-based UUID.
\<close>

theorem vless_user_to_key_correct:
  assumes sha1: "\<And>bs. length (lib_sha1 libs bs) = 20"
  shows "(length key = 16 \<and> filter (\<lambda>c. c \<noteq> CHR ''-'') user = concat (map hex2 key) \<and> length user \<le> 36
          \<longrightarrow> vless_user_to_key libs raw user = Some (Ok key))
       \<and> (length user < 32 \<or> 36 < length user \<longrightarrow>
          (\<exists>k. vless_user_to_key libs raw user = Some (Ok k) \<and> length k = 16
             \<and> k ! 6 AND 0xf0 = 0x50 \<and> k ! 8 AND 0xc0 = 0x80))"
proof (intro conjI impI)
  assume u: "length key = 16 \<and> filter (\<lambda>c. c \<noteq> CHR ''-'') user = concat (map hex2 key) \<and> length user \<le> 36"
  then have "length (filter (\<lambda>c. c \<noteq> CHR ''-'') user) = 32" using length_hex_string [of key] by simp
  moreover from this have "32 \<le> length user" by (metis length_filter_le)
  moreover have "map (\<lambda>i. key ! i) [0..<16] = key" using u map_nth [of key] by simp
  ultimately show "vless_user_to_key libs raw user = Some (Ok key)"
    using u vless_key_loop_hex [of key "[0..<16]" raw]
    by (simp add: vless_user_to_key_def list_all_iff del: upt_rec_numeral upt_conv_Cons)
next
  assume "length user < 32 \<or> 36 < length user"
  moreover have "((x AND 0x0f) OR push_bit 4 5) AND 0xf0 = (0x50 :: byte)" for x
    by (simp add: word_ao_dist and.assoc)
  moreover have "((x AND drop_bit 2 0xff) OR push_bit 6 0x02) AND 0xc0 = (0x80 :: byte)" for x
    by (simp add: word_ao_dist and.assoc)
  ultimately show "\<exists>k. vless_user_to_key libs raw user = Some (Ok k) \<and> length k = 16
      \<and> k ! 6 AND 0xf0 = 0x50 \<and> k ! 8 AND 0xc0 = 0x80"
    using sha1 by (simp add: vless_user_to_key_def vless_uuid5_key_def Let_def)
qed

text \<open>A reading of the third-party functions for concrete runs: every URL is one HTTP proxy.\<close>

definition demo_url :: Url where
  "demo_url =
     \<lparr>url_scheme = ''http'', url_username = [], url_password = None, url_host = Some (HostDomain ''p''),
      url_host_str = Some ''p'', url_port = Some 8080, url_query_pairs = [],
      url_query = None, url_fragment = None\<rparr>"

definition demo_libs :: Libs where
  "demo_libs =
     \<lparr>lib_url_parse = (\<lambda>_. Ok demo_url),
      lib_base64_decode = (\<lambda>_ _. Err (OtherDecodeError [])),
      lib_base64_encode = (\<lambda>_ bs. str_of_bytes bs),
      lib_decode_error_text = (\<lambda>_. []),
      lib_uuid_parse = (\<lambda>_. Err []),
      lib_sha1 = (\<lambda>_. replicate 20 0xff),
      lib_md5 = (\<lambda>_. replicate 16 0),
      lib_ss_from_url = (\<lambda>_. Err []),
      lib_vmess_json = (\<lambda>_. None)\<rparr>"

theorem vless_user_to_key_correct_witness:
  "vless_user_to_key demo_libs [] ''00112233-4455-6677-8899-aabbccddeeff'' =
     Some (Ok [0x00, 0x11, 0x22, 0x33, 0x44, 0x55, 0x66, 0x77, 0x88, 0x99, 0xaa, 0xbb, 0xcc, 0xdd, 0xee, 0xff])
   \<and> (\<exists>k. vless_user_to_key demo_libs [] ''user'' = Some (Ok k) \<and> length k = 16
        \<and> k ! 6 AND 0xf0 = 0x50 \<and> k ! 8 AND 0xc0 = 0x80)"
proof -
  let ?key = "[0x00, 0x11, 0x22, 0x33, 0x44, 0x55, 0x66, 0x77, 0x88, 0x99, 0xaa, 0xbb, 0xcc, 0xdd, 0xee, 0xff]"
  let ?user = "''00112233-4455-6677-8899-aabbccddeeff''"
  have sha1: "length (lib_sha1 demo_libs bs) = 20" for bs by (simp add: demo_libs_def)
  have "filter (\<lambda>c. c \<noteq> CHR ''-'') ?user = concat (map hex2 ?key)"
    by (simp add: hex2_def digit_char_def char_of_def bit_0)
  with vless_user_to_key_correct [of demo_libs ?key ?user "[]", OF sha1]
    vless_user_to_key_correct [of demo_libs ?key "''user''" "[]", OF sha1]
  show ?thesis by simp
qed

theorem dialer_chain_flat_witness:
  "\<exists>links. ProxyDialerLink_parse demo_libs ''a->b'' = Some (Ok (Chain links)) \<and> 1 < length links
     \<and> list_all (\<lambda>l. \<forall>ls. l \<noteq> Chain ls) links"
proof -
  have "split_str ''->'' ''a->b'' = [''a'', ''b'']"
    by (simp add: split_str.simps starts_with_def)
  moreover have "trim ''a'' = ''a''" "trim ''b'' = ''b''" by (simp_all add: trim_eval)
  moreover obtain l where l: "\<And>x. HttpConnectDialerLink_from_url x demo_url = Ok l"
    by (simp add: HttpConnectDialerLink_from_url_def required_host_def demo_url_def filter_nonempty_def
        Let_def)
  moreover have "parse_single demo_libs x = Some (map_ok HttpConnect (HttpConnectDialerLink_from_url x demo_url))"
    if "x = ''a'' \<or> x = ''b''" for x
    using that
    by (elim disjE) (simp_all add: parse_single_def demo_libs_def demo_url_def starts_with_def
        to_ascii_lowercase_def ascii_lower_def)
  ultimately have p: "ProxyDialerLink_parse demo_libs ''a->b'' = Some (Ok (Chain [HttpConnect l, HttpConnect l]))"
    by (simp add: ProxyDialerLink_parse_def)
  from dialer_chain_flat [OF p] p show ?thesis by auto
qed

text \<open>
  Two texts the helpers accept or panic on although they are no hexadecimal bytes: a sign is
  read as part of a percent escape, and a user of 32 bytes with a two-byte character at an odd
  offset makes the key computation panic instead of reporting an invalid UUID.
\<close>

definition odd_user :: string where
  "odd_user = CHR ''a'' # char_of (0xC3 :: nat) # char_of (0xA9 :: nat) # replicate 29 (CHR ''a'')"

theorem hex_text_edge_cases:
  "percent_decode_bytes raw (as_bytes ''%+5'') field = Ok [5]
   \<and> utf8_string odd_user \<and> length odd_user = 32
   \<and> vless_user_to_key libs raw odd_user = None"
proof (intro conjI)
  show "percent_decode_bytes raw (as_bytes ''%+5'') field = Ok [5]"
    by (simp add: as_bytes_def byte_of_char_def str_of_bytes_def char_of_byte_def parse_int_def
        to_digit_def char_of_def bit_0)
  have "utf8_valid (replicate n 97)" for n by (rule utf8_valid_ascii) auto
  then show "utf8_string odd_user"
    by (simp add: odd_user_def utf8_string_def as_bytes_def byte_of_char_def utf8_cont_def)
  show l: "length odd_user = 32" by (simp add: odd_user_def)
  have c: "filter (\<lambda>c. c \<noteq> CHR ''-'') odd_user = odd_user"
    by (simp add: odd_user_def char_of_def bit_0)
  have "\<not> is_char_boundary odd_user 2"
    by (simp add: is_char_boundary_def odd_user_def utf8_cont_def byte_of_char_def nth_Cons')
  then have "vless_key_loop raw odd_user (0 # is) = None" for "is"
    by (simp add: str_slice_def numeral_2_eq_2)
  moreover have "[0..<16] = 0 # [1..<16]" by (simp add: upt_conv_Cons)
  ultimately show "vless_user_to_key libs raw odd_user = None"
    using l c by (simp only: vless_user_to_key_def) simp
qed

end
