(* ===== verification/Egress.thy ===== *)
theory Egress
  imports DialerLink Policy
begin

text \<open>
  Direct egress of the relay, from \<^verbatim>\<open>crates/zuicity-transport/src\<close>: the egress policy
  (\<^verbatim>\<open>egress_policy.rs\<close>), target resolution, and the loops of \<^verbatim>\<open>lib.rs\<close> that connect a TCP
  target or send a UDP payload through a socket that honours the policy. The operating
  system's answers to the calls are the fields of the record \<open>NetEnv\<close>.
\<close>

section \<open>The policy\<close>

record ProxyEgressPolicy =
  send_through :: "IpAddr option"
  fwmark :: "u32 option"
  dialer_link :: "ProxyDialerLink option"

definition egress_direct :: ProxyEgressPolicy where
  "egress_direct = \<lparr>send_through = None, fwmark = None, dialer_link = None\<rparr>"

definition with_send_through :: "IpAddr option \<Rightarrow> ProxyEgressPolicy" where
  "with_send_through ip = \<lparr>send_through = ip, fwmark = None, dialer_link = None\<rparr>"

definition with_send_through_and_fwmark :: "IpAddr option \<Rightarrow> u32 option \<Rightarrow> ProxyEgressPolicy" where
  "with_send_through_and_fwmark ip mark = \<lparr>send_through = ip, fwmark = mark, dialer_link = None\<rparr>"

definition with_send_through_fwmark_and_dialer_link ::
    "IpAddr option \<Rightarrow> u32 option \<Rightarrow> ProxyDialerLink option \<Rightarrow> ProxyEgressPolicy" where
  "with_send_through_fwmark_and_dialer_link ip mark link =
     \<lparr>send_through = ip, fwmark = mark, dialer_link = link\<rparr>"

section \<open>The operating system\<close>

text \<open>\<open>None\<close> as an outcome is success; \<open>udp_reply\<close> is \<open>None\<close> when no datagram comes within a second.\<close>

record NetEnv =
  lookup_host :: "string \<Rightarrow> u16 \<Rightarrow> (SocketAddr list, IoError) result"
  so_mark_supported :: bool
  set_mark :: "u32 \<Rightarrow> IoError option"
  udp_bind :: "SocketAddr \<Rightarrow> IoError option"
  udp_send_to :: "SocketAddr \<Rightarrow> bytes \<Rightarrow> IoError option"
  udp_reply :: "SocketAddr \<Rightarrow> (SocketAddr \<times> bytes, IoError) result option"
  tcp_new :: "bool \<Rightarrow> IoError option"
  tcp_bind :: "SocketAddr \<Rightarrow> IoError option"
  tcp_connect :: "SocketAddr \<Rightarrow> IoError option"
  tcp_set_nodelay :: "SocketAddr \<Rightarrow> IoError option"

text \<open>A socket, by the source address and the mark it was given.\<close>

record Sock =
  sock_source :: "IpAddr option"
  sock_mark :: "u32 option"

definition succeed :: "IoError option \<Rightarrow> (unit, IoError) result" where
  "succeed r = (case r of None \<Rightarrow> Ok () | Some e \<Rightarrow> Err e)"

definition apply_socket_fwmark :: "NetEnv \<Rightarrow> Sock \<Rightarrow> ProxyEgressPolicy \<Rightarrow> (Sock, IoError) result" where
  "apply_socket_fwmark env socket egress =
     (case fwmark egress of
        None \<Rightarrow> Ok socket
      | Some mark \<Rightarrow>
          if so_mark_supported env then
            and_then (succeed (set_mark env mark)) (\<lambda>_. Ok (socket\<lparr>sock_mark := Some mark\<rparr>))
          else Err (IoError Unsupported None))"

definition egress_source_mismatches_target :: "ProxyEgressPolicy \<Rightarrow> SocketAddr \<Rightarrow> bool" where
  "egress_source_mismatches_target egress target =
     (case send_through egress of
        None \<Rightarrow> False
      | Some source \<Rightarrow> ip_is_ipv4 source \<noteq> is_ipv4 target)"

definition udp_relay_bind_addr :: "bool \<Rightarrow> ProxyEgressPolicy \<Rightarrow> SocketAddr" where
  "udp_relay_bind_addr target_is_ipv4 egress =
     (case send_through egress of
        Some source_ip \<Rightarrow> \<lparr>sa_ip = source_ip, sa_port = 0\<rparr>
      | None \<Rightarrow>
          if target_is_ipv4 then \<lparr>sa_ip = V4 0, sa_port = 0\<rparr> else \<lparr>sa_ip = V6 0, sa_port = 0\<rparr>)"

section \<open>Targets\<close>

definition header_addresses :: "NetEnv \<Rightarrow> OwnedProxyHeader \<Rightarrow> (SocketAddr list, TransportError) result" where
  "header_addresses env header =
     (case oh_address header of
        OwnedIpv4 a \<Rightarrow> Ok [\<lparr>sa_ip = V4 a, sa_port = oh_port header\<rparr>]
      | OwnedIpv6 a \<Rightarrow> Ok [\<lparr>sa_ip = V6 a, sa_port = oh_port header\<rparr>]
      | OwnedDomain domain \<Rightarrow> map_err Io (lookup_host env domain (oh_port header)))"

definition udp_header_targets :: "NetEnv \<Rightarrow> OwnedProxyHeader \<Rightarrow> (SocketAddr list, TransportError) result" where
  "udp_header_targets env header =
     (if oh_network header \<noteq> Udp then Err (UnexpectedProxyNetwork (oh_network header))
      else header_addresses env header)"

definition tcp_header_targets :: "NetEnv \<Rightarrow> OwnedProxyHeader \<Rightarrow> (SocketAddr list, TransportError) result" where
  "tcp_header_targets env header = header_addresses env header"

section \<open>TCP\<close>

record TcpTarget =
  tt_sock :: Sock
  tt_peer_addr :: SocketAddr

definition connect_tcp_socket_to_target ::
    "NetEnv \<Rightarrow> SocketAddr \<Rightarrow> ProxyEgressPolicy \<Rightarrow> (Sock, IoError) result" where
  "connect_tcp_socket_to_target env target egress =
     (let fresh = \<lparr>sock_source = None, sock_mark = None\<rparr> in
      if send_through egress = None \<and> fwmark egress = None then
        and_then (succeed (tcp_connect env target)) (\<lambda>_. Ok fresh)
      else
        and_then (succeed (tcp_new env (is_ipv4 target))) (\<lambda>_.
        and_then
          (case send_through egress of
             Some source_ip \<Rightarrow>
               and_then (succeed (tcp_bind env \<lparr>sa_ip = source_ip, sa_port = 0\<rparr>)) (\<lambda>_.
                 Ok (fresh\<lparr>sock_source := Some source_ip\<rparr>))
           | None \<Rightarrow> Ok fresh)
          (\<lambda>socket.
        and_then (apply_socket_fwmark env socket egress) (\<lambda>socket.
        and_then (succeed (tcp_connect env target)) (\<lambda>_. Ok socket)))))"

text \<open>\<^verbatim>\<open>TcpProxyTargetStream::plain\<close>\<close>

definition plain_stream :: "NetEnv \<Rightarrow> Sock \<Rightarrow> SocketAddr \<Rightarrow> (TcpTarget, IoError) result" where
  "plain_stream env socket peer =
     and_then (succeed (tcp_set_nodelay env peer)) (\<lambda>_.
       Ok \<lparr>tt_sock = socket, tt_peer_addr = peer\<rparr>)"

fun connect_first ::
    "NetEnv \<Rightarrow> ProxyEgressPolicy \<Rightarrow> SocketAddr list \<Rightarrow> IoError option
     \<Rightarrow> (TcpTarget, TransportError) result" where
  "connect_first env egress [] last_error =
     (case last_error of Some e \<Rightarrow> Err (Io e) | None \<Rightarrow> Err NoUsableTcpTarget)"
| "connect_first env egress (target # targets) last_error =
     (if egress_source_mismatches_target egress target then
        connect_first env egress targets last_error
      else case connect_tcp_socket_to_target env target egress of
          Ok socket \<Rightarrow> map_err Io (plain_stream env socket target)
        | Err error \<Rightarrow> connect_first env egress targets (Some error))"

text \<open>\<open>dial_link\<close> is \<^verbatim>\<open>connect_tcp_proxy_target_with_dialer_link\<close>.\<close>

definition connect_tcp_proxy_target_with_egress ::
    "NetEnv \<Rightarrow> (ProxyDialerLink \<Rightarrow> (TcpTarget, TransportError) result)
     \<Rightarrow> OwnedProxyHeader \<Rightarrow> ProxyEgressPolicy \<Rightarrow> (TcpTarget, TransportError) result" where
  "connect_tcp_proxy_target_with_egress env dial_link header egress =
     (if oh_network header \<noteq> Tcp then Err (UnexpectedProxyNetwork (oh_network header))
      else case dialer_link egress of
          Some link \<Rightarrow> dial_link link
        | None \<Rightarrow>
            and_then (tcp_header_targets env header) (\<lambda>targets. connect_first env egress targets None))"

section \<open>UDP\<close>

text \<open>A relay socket with the address family it serves, and the two loops over the targets.\<close>

type_synonym RelaySocket = "(bool \<times> Sock) option"

definition ensure_relay_socket ::
    "NetEnv \<Rightarrow> ProxyEgressPolicy \<Rightarrow> bool \<Rightarrow> RelaySocket \<Rightarrow> (bool \<times> Sock, TransportError) result" where
  "ensure_relay_socket env egress target_is_ipv4 relay_socket =
     (case relay_socket of
        Some (socket_is_ipv4, socket) \<Rightarrow>
          if socket_is_ipv4 \<noteq> target_is_ipv4 then
            and_then (map_err Io (succeed (udp_bind env (udp_relay_bind_addr target_is_ipv4 egress)))) (\<lambda>_.
            and_then (map_err Io (apply_socket_fwmark env
                \<lparr>sock_source = send_through egress, sock_mark = None\<rparr> egress)) (\<lambda>socket.
            Ok (target_is_ipv4, socket)))
          else Ok (socket_is_ipv4, socket)
      | None \<Rightarrow>
          and_then (map_err Io (succeed (udp_bind env (udp_relay_bind_addr target_is_ipv4 egress)))) (\<lambda>_.
          and_then (map_err Io (apply_socket_fwmark env
              \<lparr>sock_source = send_through egress, sock_mark = None\<rparr> egress)) (\<lambda>socket.
          Ok (target_is_ipv4, socket))))"

fun send_udp_loop ::
    "NetEnv \<Rightarrow> ProxyEgressPolicy \<Rightarrow> bytes \<Rightarrow> SocketAddr list \<Rightarrow> RelaySocket \<Rightarrow> IoError option
     \<Rightarrow> (SocketAddr, TransportError) result \<times> RelaySocket" where
  "send_udp_loop env egress payload [] relay_socket last_error =
     ((case last_error of Some e \<Rightarrow> Err (Io e) | None \<Rightarrow> Err NoUsableUdpTarget), relay_socket)"
| "send_udp_loop env egress payload (target # targets) relay_socket last_error =
     (if egress_source_mismatches_target egress target then
        send_udp_loop env egress payload targets relay_socket last_error
      else case ensure_relay_socket env egress (is_ipv4 target) relay_socket of
          Err e \<Rightarrow> (Err e, relay_socket)
        | Ok socket \<Rightarrow>
            (case udp_send_to env target payload of
               None \<Rightarrow> (Ok target, Some socket)
             | Some error \<Rightarrow> send_udp_loop env egress payload targets (Some socket) (Some error)))"

definition send_udp_payload_to_target_with_socket ::
    "NetEnv \<Rightarrow> RelaySocket \<Rightarrow> OwnedProxyHeader \<Rightarrow> bytes \<Rightarrow> ProxyEgressPolicy
     \<Rightarrow> (SocketAddr, TransportError) result \<times> RelaySocket" where
  "send_udp_payload_to_target_with_socket env relay_socket header payload egress =
     (case udp_header_targets env header of
        Err e \<Rightarrow> (Err e, relay_socket)
      | Ok targets \<Rightarrow> send_udp_loop env egress payload targets relay_socket None)"

fun relay_udp_loop ::
    "NetEnv \<Rightarrow> ProxyEgressPolicy \<Rightarrow> bytes \<Rightarrow> SocketAddr list \<Rightarrow> RelaySocket
     \<Rightarrow> (SocketAddr \<times> SocketAddr \<times> bytes, TransportError) result \<times> RelaySocket" where
  "relay_udp_loop env egress payload [] relay_socket = (Err NoUsableUdpTarget, relay_socket)"
| "relay_udp_loop env egress payload (target # targets) relay_socket =
     (if egress_source_mismatches_target egress target then
        relay_udp_loop env egress payload targets relay_socket
      else case ensure_relay_socket env egress (is_ipv4 target) relay_socket of
          Err e \<Rightarrow> (Err e, relay_socket)
        | Ok socket \<Rightarrow>
            (case udp_send_to env target payload of
               Some error \<Rightarrow> (Err (Io error), Some socket)
             | None \<Rightarrow>
                 (case udp_reply env target of
                    None \<Rightarrow> relay_udp_loop env egress payload targets (Some socket)
                  | Some (Err error) \<Rightarrow> (Err (Io error), Some socket)
                  | Some (Ok (peer, response)) \<Rightarrow> (Ok (target, peer, response), Some socket))))"

definition relay_udp_payload_to_target_with_socket ::
    "NetEnv \<Rightarrow> RelaySocket \<Rightarrow> OwnedProxyHeader \<Rightarrow> bytes \<Rightarrow> ProxyEgressPolicy
     \<Rightarrow> (SocketAddr \<times> SocketAddr \<times> bytes, TransportError) result \<times> RelaySocket" where
  "relay_udp_payload_to_target_with_socket env relay_socket header payload egress =
     (case udp_header_targets env header of
        Err e \<Rightarrow> (Err e, relay_socket)
      | Ok targets \<Rightarrow> relay_udp_loop env egress payload targets relay_socket)"

section \<open>Sockets honour the policy\<close>

definition honours :: "ProxyEgressPolicy \<Rightarrow> Sock \<Rightarrow> bool" where
  "honours egress socket \<longleftrightarrow>
     sock_source socket = send_through egress \<and> sock_mark socket = fwmark egress"

definition relay_socket_ok :: "ProxyEgressPolicy \<Rightarrow> RelaySocket \<Rightarrow> bool" where
  "relay_socket_ok egress rs = (case rs of None \<Rightarrow> True | Some (_, socket) \<Rightarrow> honours egress socket)"

lemma apply_socket_fwmark_Ok:
  "apply_socket_fwmark env \<lparr>sock_source = source, sock_mark = None\<rparr> egress = Ok socket \<Longrightarrow>
     socket = \<lparr>sock_source = source, sock_mark = fwmark egress\<rparr>"
  by (auto simp: apply_socket_fwmark_def result_simps split: option.splits if_splits)

lemma connect_tcp_socket_honours:
  "connect_tcp_socket_to_target env target egress = Ok socket \<Longrightarrow> honours egress socket"
  by (cases "send_through egress"; cases "fwmark egress")
     (auto simp: connect_tcp_socket_to_target_def honours_def result_simps Let_def
       dest!: apply_socket_fwmark_Ok)

lemma connect_first_Ok:
  "connect_first env egress targets err = Ok t \<Longrightarrow>
     honours egress (tt_sock t) \<and> tt_peer_addr t \<in> set targets
     \<and> \<not> egress_source_mismatches_target egress (tt_peer_addr t)"
proof (induction targets arbitrary: err)
  case (Cons target targets)
  then show ?case
    by (auto simp: plain_stream_def result_simps split: if_splits result.splits
        intro: connect_tcp_socket_honours)
qed (auto split: option.splits)

lemma ensure_relay_socket_Ok:
  "ensure_relay_socket env egress v4 rs = Ok (v4', socket) \<Longrightarrow> relay_socket_ok egress rs \<Longrightarrow>
     v4' = v4 \<and> honours egress socket"
  by (auto simp: ensure_relay_socket_def relay_socket_ok_def honours_def result_simps
      split: option.splits if_splits dest!: apply_socket_fwmark_Ok)

text \<open>The targets a send passed over: of the wrong family for the source, or refused.\<close>

definition passed_over :: "NetEnv \<Rightarrow> ProxyEgressPolicy \<Rightarrow> bytes \<Rightarrow> SocketAddr \<Rightarrow> bool" where
  "passed_over env egress payload target \<longleftrightarrow>
     egress_source_mismatches_target egress target \<or> udp_send_to env target payload \<noteq> None"

lemma send_udp_loop_Ok:
  "send_udp_loop env egress payload targets rs err = (Ok target, rs') \<Longrightarrow> relay_socket_ok egress rs \<Longrightarrow>
     (\<exists>skipped later. targets = skipped @ target # later
        \<and> list_all (passed_over env egress payload) skipped)
     \<and> \<not> egress_source_mismatches_target egress target
     \<and> udp_send_to env target payload = None
     \<and> (\<exists>socket. rs' = Some (is_ipv4 target, socket) \<and> honours egress socket)"
proof (induction targets arbitrary: rs err)
  case (Cons t targets)
  have step: ?case if "send_udp_loop env egress payload targets rs1 err1 = (Ok target, rs')"
    "relay_socket_ok egress rs1" "passed_over env egress payload t" for rs1 err1
  proof -
    from Cons.IH [OF that(1,2)] that(3) obtain skipped later where
      "t # targets = (t # skipped) @ target # later" "list_all (passed_over env egress payload) (t # skipped)"
      by auto
    with Cons.IH [OF that(1,2)] show ?thesis by blast
  qed
  show ?case
  proof (cases "egress_source_mismatches_target egress t")
    case True
    with Cons.prems step [of rs err] show ?thesis by (simp add: passed_over_def)
  next
    case False
    with Cons.prems obtain v4 socket
      where e: "ensure_relay_socket env egress (is_ipv4 t) rs = Ok (v4, socket)"
      by (auto split: result.splits)
    with Cons.prems(2) have s: "v4 = is_ipv4 t" "honours egress socket"
      by (auto dest: ensure_relay_socket_Ok)
    show ?thesis
    proof (cases "udp_send_to env t payload")
      case None
      with False Cons.prems(1) e s have "t = target" "rs' = Some (is_ipv4 target, socket)" by auto
      moreover from this have "t # targets = [] @ target # targets" by simp
      moreover have "list_all (passed_over env egress payload) []" by simp
      ultimately show ?thesis using False None s(2) by blast
    next
      case (Some error)
      with False Cons.prems(1) e s step [of "Some (v4, socket)" "Some error"] show ?thesis
        by (simp add: passed_over_def relay_socket_ok_def)
    qed
  qed
qed (auto split: option.splits)

section \<open>Properties\<close>

text \<open>
  C32: a TCP target that is dialled directly is reached through a socket with the configured
  source address and packet mark, and is one of the addresses the header resolves to, of the
  source address's family.
\<close>

theorem tcp_egress_honours_policy:
  assumes "connect_tcp_proxy_target_with_egress env dial_link header egress = Ok t"
    and "dialer_link egress = None"
  shows "oh_network header = Tcp \<and> sock_source (tt_sock t) = send_through egress
    \<and> sock_mark (tt_sock t) = fwmark egress
    \<and> (\<exists>targets. tcp_header_targets env header = Ok targets \<and> tt_peer_addr t \<in> set targets)
    \<and> (case send_through egress of None \<Rightarrow> True
        | Some source \<Rightarrow> ip_is_ipv4 source = ip_is_ipv4 (sa_ip (tt_peer_addr t)))"
proof -
  from assms obtain targets where t: "tcp_header_targets env header = Ok targets"
    "connect_first env egress targets None = Ok t" "oh_network header = Tcp"
    by (auto simp: connect_tcp_proxy_target_with_egress_def result_simps split: if_splits)
  from connect_first_Ok [OF t(2)] t(1,3) show ?thesis
    by (auto simp: honours_def egress_source_mismatches_target_def split: option.splits)
qed

text \<open>
  The first datagram of a direct UDP session goes to the first resolved address that fits
  the source address and accepts the send; the socket kept for the session serves that address
  family and has the configured source address and mark.
\<close>

theorem udp_egress_first_usable_target:
  assumes "send_udp_payload_to_target_with_socket env None header payload egress = (Ok target, relay_socket)"
  shows "\<exists>skipped later socket.
      udp_header_targets env header = Ok (skipped @ target # later)
    \<and> list_all (passed_over env egress payload) skipped
    \<and> \<not> passed_over env egress payload target
    \<and> relay_socket = Some (is_ipv4 target, socket)
    \<and> sock_source socket = send_through egress \<and> sock_mark socket = fwmark egress"
proof -
  from assms obtain targets where t: "udp_header_targets env header = Ok targets"
    "send_udp_loop env egress payload targets None None = (Ok target, relay_socket)"
    by (auto simp: send_udp_payload_to_target_with_socket_def split: result.splits)
  from send_udp_loop_Ok [OF t(2)] t(1) show ?thesis
    by (auto simp: relay_socket_ok_def passed_over_def honours_def)
qed


text \<open>A network for concrete runs: \<^verbatim>\<open>dual\<close> has an IPv6 and an IPv4 address, IPv4 port 9 refuses.\<close>

definition demo_env :: NetEnv where
  "demo_env =
     \<lparr>lookup_host = (\<lambda>_ port. Ok [\<lparr>sa_ip = V6 1, sa_port = port\<rparr>, \<lparr>sa_ip = V4 9, sa_port = port\<rparr>,
                                 \<lparr>sa_ip = V4 7, sa_port = port\<rparr>]),
      so_mark_supported = True, set_mark = (\<lambda>_. None), udp_bind = (\<lambda>_. None),
      udp_send_to = (\<lambda>a _. if sa_ip a = V4 9 then Some (IoError NetworkUnreachable None) else None),
      udp_reply = (\<lambda>a. Some (Ok (a, [1]))), tcp_new = (\<lambda>_. None), tcp_bind = (\<lambda>_. None),
      tcp_connect = (\<lambda>a. if sa_ip a = V4 9 then Some (IoError ConnectionRefused None) else None),
      tcp_set_nodelay = (\<lambda>_. None)\<rparr>"

definition demo_egress :: ProxyEgressPolicy where
  "demo_egress = \<lparr>send_through = Some (V4 5), fwmark = Some 3, dialer_link = None\<rparr>"

lemmas demo_net = demo_env_def demo_egress_def header_addresses_def tcp_header_targets_def
  udp_header_targets_def egress_source_mismatches_target_def connect_tcp_socket_to_target_def
  succeed_def apply_socket_fwmark_def plain_stream_def ensure_relay_socket_def

theorem tcp_egress_honours_policy_witness:
  "\<exists>t. connect_tcp_proxy_target_with_egress demo_env (\<lambda>_. Err NoUsableTcpTarget)
       \<lparr>oh_network = Tcp, oh_address = OwnedDomain ''dual'', oh_port = 80\<rparr> demo_egress = Ok t
     \<and> sock_source (tt_sock t) = Some (V4 5) \<and> sock_mark (tt_sock t) = Some 3
     \<and> ip_is_ipv4 (sa_ip (tt_peer_addr t))"
proof -
  obtain t where "connect_tcp_proxy_target_with_egress demo_env (\<lambda>_. Err NoUsableTcpTarget)
      \<lparr>oh_network = Tcp, oh_address = OwnedDomain ''dual'', oh_port = 80\<rparr> demo_egress = Ok t"
    by (simp add: connect_tcp_proxy_target_with_egress_def demo_net)
  with tcp_egress_honours_policy [OF this] show ?thesis by (simp add: demo_egress_def)
qed

theorem udp_egress_first_usable_target_witness:
  "\<exists>relay_socket skipped later.
     send_udp_payload_to_target_with_socket demo_env None
       \<lparr>oh_network = Udp, oh_address = OwnedDomain ''dual'', oh_port = 53\<rparr> [1] demo_egress
       = (Ok \<lparr>sa_ip = V4 7, sa_port = 53\<rparr>, relay_socket)
   \<and> udp_header_targets demo_env \<lparr>oh_network = Udp, oh_address = OwnedDomain ''dual'', oh_port = 53\<rparr>
       = Ok (skipped @ \<lparr>sa_ip = V4 7, sa_port = 53\<rparr> # later)
   \<and> list_all (passed_over demo_env demo_egress [1]) skipped"
proof -
  obtain rs where "send_udp_payload_to_target_with_socket demo_env None
      \<lparr>oh_network = Udp, oh_address = OwnedDomain ''dual'', oh_port = 53\<rparr> [1] demo_egress
      = (Ok \<lparr>sa_ip = V4 7, sa_port = 53\<rparr>, rs)"
    by (simp add: send_udp_payload_to_target_with_socket_def demo_net)
  with udp_egress_first_usable_target [OF this] show ?thesis by blast
qed

end
