(* ===== verification/StreamIO.thy ===== *)
theory StreamIO
  imports Transport
begin

text \<open>
  Exchanges on a byte stream (\<^verbatim>\<open>AsyncRead + AsyncWrite\<close>): the local side of the client's listener and
  the dialers' side of an upstream proxy. A stream is what the peer sends, how it goes on after that
  (it closes, resets, or stays silent), and what has been written to it. A read that the peer never
  answers leaves the exchange waiting, which is an outcome of its own.
\<close>

section \<open>Streams and their operations\<close>

datatype local_end = LocalClosed | LocalReset IoError | LocalSilent

record LocalStream =
  ls_input :: bytes
  ls_end :: local_end
  ls_output :: bytes
  ls_write_error :: "IoError option"

datatype ('a, 'e) handshake = Got 'a | Refused 'e | Waiting

text \<open>An exchange on streams of any kind, and on the streams above.\<close>

type_synonym ('s, 'a, 'e) exchange = "'s \<Rightarrow> ('a, 'e) handshake \<times> 's"
type_synonym ('a, 'e) stream_io = "(LocalStream, 'a, 'e) exchange"

text \<open>\<open>io_then m f\<close> is \<^verbatim>\<open>f(m.await?)\<close>.\<close>

definition io_then :: "('s, 'a, 'e) exchange \<Rightarrow> ('a \<Rightarrow> ('s, 'b, 'e) exchange) \<Rightarrow> ('s, 'b, 'e) exchange" where
  "io_then m f s =
     (case m s of
        (Got x, s) \<Rightarrow> f x s
      | (Refused e, s) \<Rightarrow> (Refused e, s)
      | (Waiting, s) \<Rightarrow> (Waiting, s))"

definition io_ok :: "'a \<Rightarrow> ('s, 'a, 'e) exchange" where
  "io_ok x s = (Got x, s)"

definition io_err :: "'e \<Rightarrow> ('s, 'a, 'e) exchange" where
  "io_err e s = (Refused e, s)"

definition io_result :: "('a, 'e) result \<Rightarrow> ('s, 'a, 'e) exchange" where
  "io_result r = (case r of Ok x \<Rightarrow> io_ok x | Err e \<Rightarrow> io_err e)"

text \<open>\<^verbatim>\<open>AsyncReadExt::read_exact\<close> and \<^verbatim>\<open>AsyncWriteExt::write_all\<close> of the stream, with the
  conversion of its I/O errors.\<close>

definition stream_read_exact :: "(IoError \<Rightarrow> 'e) \<Rightarrow> nat \<Rightarrow> (bytes, 'e) stream_io" where
  "stream_read_exact wrap n s =
     (if n \<le> length (ls_input s) then
        (Got (take n (ls_input s)), s\<lparr>ls_input := drop n (ls_input s)\<rparr>)
      else
        case ls_end s of
          LocalClosed \<Rightarrow> (Refused (wrap (IoError UnexpectedEof None)), s\<lparr>ls_input := []\<rparr>)
        | LocalReset e \<Rightarrow> (Refused (wrap e), s\<lparr>ls_input := []\<rparr>)
        | LocalSilent \<Rightarrow> (Waiting, s\<lparr>ls_input := []\<rparr>))"

definition stream_write_all :: "(IoError \<Rightarrow> 'e) \<Rightarrow> bytes \<Rightarrow> (unit, 'e) stream_io" where
  "stream_write_all wrap bs s =
     (case ls_write_error s of
        None \<Rightarrow> (Got (), s\<lparr>ls_output := ls_output s @ bs\<rparr>)
      | Some e \<Rightarrow> (Refused (wrap e), s))"

section \<open>Running an exchange\<close>

named_theorems io_simps

lemma io_then_Got [io_simps]:
  "io_then m f s = (Got y, s'') \<longleftrightarrow> (\<exists>x s'. m s = (Got x, s') \<and> f x s' = (Got y, s''))"
  by (auto simp: io_then_def split: prod.splits handshake.splits)

lemma io_ok_Got [io_simps]: "io_ok x s = (Got y, s') \<longleftrightarrow> y = x \<and> s' = s"
  by (auto simp: io_ok_def)

lemma io_err_Got [io_simps]: "io_err e s \<noteq> (Got y, s')"
  by (simp add: io_err_def)

lemma io_result_Got [io_simps]: "io_result r s = (Got y, s') \<longleftrightarrow> r = Ok y \<and> s' = s"
  by (auto simp: io_result_def io_ok_def io_err_def split: result.splits)

lemma stream_write_all_Got [io_simps]:
  "stream_write_all wrap bs s = (Got u, s') \<longleftrightarrow>
     ls_write_error s = None \<and> s' = s\<lparr>ls_output := ls_output s @ bs\<rparr>"
  by (auto simp: stream_write_all_def split: option.splits)

lemma stream_read_exact_Got [io_simps]:
  "stream_read_exact wrap n s = (Got bs, s') \<longleftrightarrow>
     (\<exists>rest. length bs = n \<and> ls_input s = bs @ rest \<and> s' = s\<lparr>ls_input := rest\<rparr>)"
  (is "?read \<longleftrightarrow> ?split")
proof
  assume ?read
  then have "n \<le> length (ls_input s)" "bs = take n (ls_input s)" "s' = s\<lparr>ls_input := drop n (ls_input s)\<rparr>"
    by (auto simp: stream_read_exact_def split: if_splits local_end.splits)
  then show ?split by (intro exI [of _ "drop n (ls_input s)"]) simp
qed (auto simp: stream_read_exact_def)

text \<open>Evaluation on a stream whose next bytes are known.\<close>

lemma io_eval:
  "ls_input s = bs @ rest \<Longrightarrow> length bs = n \<Longrightarrow> stream_read_exact wrap n s = (Got bs, s\<lparr>ls_input := rest\<rparr>)"
  "m s = (Got x, s') \<Longrightarrow> io_then m f s = f x s'"
  by (simp_all add: stream_read_exact_def io_then_def)

text \<open>One step of an exchange that completes: the known part first, then the rest of the exchange.\<close>

named_theorems io_steps

lemma then_write_Got [io_steps]:
  "io_then (stream_write_all wrap bs) f s = (Got y, s') \<longleftrightarrow>
     ls_write_error s = None \<and> f () (s\<lparr>ls_output := ls_output s @ bs\<rparr>) = (Got y, s')"
  by (auto simp: io_simps)

lemma then_read_Got:
  "io_then (stream_read_exact wrap n) f s = (Got y, s') \<longleftrightarrow>
     (\<exists>bs rest. length bs = n \<and> ls_input s = bs @ rest \<and> f bs (s\<lparr>ls_input := rest\<rparr>) = (Got y, s'))"
  by (auto simp: io_simps)

lemma length_small:
  "length bs = Suc 0 \<longleftrightarrow> (\<exists>a. bs = [a])"
  "length bs = 2 \<longleftrightarrow> (\<exists>a b. bs = [a, b])"
  "length bs = 4 \<longleftrightarrow> (\<exists>a b c d. bs = [a, b, c, d])"
  by (auto simp: length_Suc_conv numeral_eq_Suc)

lemma ex_length_small:
  "(\<exists>bs. length bs = Suc 0 \<and> P bs) \<longleftrightarrow> (\<exists>a. P [a])"
  "(\<exists>bs. length bs = 2 \<and> P bs) \<longleftrightarrow> (\<exists>a b. P [a, b])"
  "(\<exists>bs. length bs = 4 \<and> P bs) \<longleftrightarrow> (\<exists>a b c d. P [a, b, c, d])"
  unfolding length_small by blast+

lemma then_read_1 [io_steps]:
  "io_then (stream_read_exact wrap (Suc 0)) f s = (Got y, s') \<longleftrightarrow>
     (\<exists>a rest. ls_input s = a # rest \<and> f [a] (s\<lparr>ls_input := rest\<rparr>) = (Got y, s'))"
  by (simp add: then_read_Got ex_length_small)

lemma then_read_2 [io_steps]:
  "io_then (stream_read_exact wrap 2) f s = (Got y, s') \<longleftrightarrow>
     (\<exists>a b rest. ls_input s = a # b # rest \<and> f [a, b] (s\<lparr>ls_input := rest\<rparr>) = (Got y, s'))"
  by (simp add: then_read_Got ex_length_small)

lemma then_read_4 [io_steps]:
  "io_then (stream_read_exact wrap 4) f s = (Got y, s') \<longleftrightarrow>
     (\<exists>a b c d rest. ls_input s = a # b # c # d # rest \<and> f [a, b, c, d] (s\<lparr>ls_input := rest\<rparr>) = (Got y, s'))"
  by (simp add: then_read_Got ex_length_small)

lemma then_result_Got [io_steps]:
  "io_then (io_result r) f s = (Got y, s') \<longleftrightarrow> (\<exists>x. r = Ok x \<and> f x s = (Got y, s'))"
  by (auto simp: io_simps)

lemma then_ok_Got [io_steps]: "io_then (io_ok x) f s = f x s"
  by (simp add: io_then_def io_ok_def)

lemma then_err_Got [io_steps]: "io_then (io_err e) f s \<noteq> (Got y, s')"
  by (simp add: io_simps)

lemmas io_ends [io_steps] = io_ok_Got io_err_Got io_result_Got stream_write_all_Got

lemma io_then_assoc: "io_then (io_then m f) g = io_then m (\<lambda>x. io_then (f x) g)"
  by (rule ext) (auto simp: io_then_def split: prod.splits handshake.splits)

end
