(* ===== verification/UdpSession.thy ===== *)
theory UdpSession
  imports JuicityStream Egress StreamIO
begin

text \<open>
  UDP-over-stream sessions of the relay, from \<^verbatim>\<open>crates/zuicity-transport/src/lib.rs\<close>:
  \<^verbatim>\<open>relay_direct_udp_over_stream_session\<close>, whose two concurrent directions are a step function on
  a session state driven by events, and \<^verbatim>\<open>relay_udp_over_stream_session\<close>, the request/response
  loop used with a dialer link. Every interleaving of the \<^verbatim>\<open>select!\<close> branches is a list of events.
\<close>

section \<open>The direct session\<close>

record UdpOverStreamRelayReport =
  ur_target :: SocketAddr
  ur_bytes_from_client :: u64
  ur_bytes_from_target :: u64

text \<open>
  \<open>ClientReady\<close>: the pending frame read completes, and a send of its payload would end as given.
  \<open>TargetReply\<close>: the target socket yields a datagram or an error. \<open>SendStopped\<close>: waiting for
  the peer to stop the response stream ends. The idle events are the expiry of the idle timeout of
  the phase they are in.
\<close>

datatype session_event =
    ClientReady "IoError option"
  | ClientIdle
  | TargetReply "(SocketAddr \<times> bytes, IoError) result"
  | SendStopped "(u64 option, StoppedError) result"
  | DrainIdle

datatype session_phase = Relaying | Draining

record DirectSession =
  ds_recv :: RecvStream
  ds_send :: SendStream
  ds_target :: SocketAddr
  ds_sent :: "(SocketAddr \<times> bytes) list"
  ds_bytes_from_client :: u64
  ds_client_bytes :: u64
  ds_bytes_from_target :: u64
  ds_phase :: session_phase

datatype session_outcome =
    Running DirectSession
  | Completed UdpOverStreamRelayReport DirectSession
  | Aborted TransportError DirectSession

fun session_state :: "session_outcome \<Rightarrow> DirectSession" where
  "session_state (Running s) = s"
| "session_state (Completed r s) = s"
| "session_state (Aborted e s) = s"

definition session_report :: "DirectSession \<Rightarrow> UdpOverStreamRelayReport" where
  "session_report s =
     \<lparr>ur_target = ds_target s, ur_bytes_from_client = ds_bytes_from_client s,
      ur_bytes_from_target = ds_bytes_from_target s\<rparr>"

definition end_session :: "bool \<Rightarrow> DirectSession \<Rightarrow> session_outcome" where
  "end_session peer_closed_connection s =
     (if \<not> peer_closed_connection then
        (case send_finish (ds_send s) of
           (Err e, _) \<Rightarrow> Aborted e s
         | (Ok _, send) \<Rightarrow> Completed (session_report s) (s\<lparr>ds_send := send\<rparr>))
      else Completed (session_report s) s)"

text \<open>The client-to-target loop ends: its byte count goes to the session's.\<close>

definition client_done :: "DirectSession \<Rightarrow> DirectSession" where
  "client_done s =
     s\<lparr>ds_bytes_from_client := ds_bytes_from_client s + ds_client_bytes s, ds_client_bytes := 0\<rparr>"

definition RECV_BUFFER :: nat where "RECV_BUFFER = 65535"

definition relaying_step :: "session_event \<Rightarrow> DirectSession \<Rightarrow> session_outcome" where
  "relaying_step event s =
     (case event of
        ClientReady sent \<Rightarrow>
          (case read_udp_datagram_frame (ds_recv s) of
             Ok (request, recv) \<Rightarrow>
               (case sent of
                  Some error \<Rightarrow> Aborted (Io error) s
                | None \<Rightarrow>
                    Running (s\<lparr>ds_recv := recv,
                      ds_sent := ds_sent s @ [(ds_target s, uf_payload request)],
                      ds_client_bytes := ds_client_bytes s + of_nat (length (uf_payload request))\<rparr>))
           | Err error \<Rightarrow>
               if error = ReadExact (FinishedEarly 0) then
                 Running ((client_done s)\<lparr>ds_phase := Draining\<rparr>)
               else if udp_session_connection_lost error then end_session True (client_done s)
               else Aborted error s)
      | ClientIdle \<Rightarrow> end_session False (client_done s)
      | TargetReply (Err error) \<Rightarrow> Aborted (Io error) s
      | TargetReply (Ok (peer, datagram)) \<Rightarrow>
          (let response = take RECV_BUFFER datagram;
               s' = s\<lparr>ds_bytes_from_target := ds_bytes_from_target s + of_nat (length response)\<rparr>
           in case write_udp_over_stream_response (ds_send s) peer response of
                (Err error, _) \<Rightarrow> Aborted error s
              | (Ok _, send) \<Rightarrow> Running (s'\<lparr>ds_send := send\<rparr>))
      | SendStopped _ \<Rightarrow> Running s
      | DrainIdle \<Rightarrow> Running s)"

text \<open>Write errors that mean the client is gone.\<close>

definition response_stream_closed :: "TransportError \<Rightarrow> bool" where
  "response_stream_closed error =
     (case error of
        Write WriteConnectionLost \<Rightarrow> True
      | Write (WriteStopped _) \<Rightarrow> True
      | Write WriteClosedStream \<Rightarrow> True
      | ClosedStream \<Rightarrow> True
      | _ \<Rightarrow> False)"

definition draining_step :: "session_event \<Rightarrow> DirectSession \<Rightarrow> session_outcome" where
  "draining_step event s =
     (case event of
        SendStopped (Ok _) \<Rightarrow> end_session True s
      | SendStopped (Err (StoppedConnectionLost _)) \<Rightarrow> end_session True s
      | SendStopped (Err error) \<Rightarrow> Aborted (Stopped error) s
      | DrainIdle \<Rightarrow> end_session False s
      | TargetReply (Err error) \<Rightarrow> Aborted (Io error) s
      | TargetReply (Ok (peer, datagram)) \<Rightarrow>
          (let response = take RECV_BUFFER datagram in
           case write_udp_over_stream_response (ds_send s) peer response of
             (Ok _, send) \<Rightarrow>
               Running (s\<lparr>ds_send := send,
                 ds_bytes_from_target := ds_bytes_from_target s + of_nat (length response)\<rparr>)
           | (Err error, _) \<Rightarrow>
               if response_stream_closed error then end_session True s else Aborted error s)
      | ClientReady _ \<Rightarrow> Running s
      | ClientIdle \<Rightarrow> Running s)"

definition session_step :: "session_event \<Rightarrow> DirectSession \<Rightarrow> session_outcome" where
  "session_step event s =
     (case ds_phase s of Relaying \<Rightarrow> relaying_step event s | Draining \<Rightarrow> draining_step event s)"

fun run_session :: "session_event list \<Rightarrow> session_outcome \<Rightarrow> session_outcome" where
  "run_session (event # events) (Running s) = run_session events (session_step event s)"
| "run_session _ outcome = outcome"

text \<open>
  The session from its first frame; \<open>idle\<close> tells that none came within the idle timeout. A
  start that fails leaves no session, hence the outer result.
\<close>

definition relay_direct_udp_over_stream_session ::
    "NetEnv \<Rightarrow> bool \<Rightarrow> SendStream \<Rightarrow> RecvStream \<Rightarrow> ProxyEgressPolicy \<Rightarrow> session_event list
     \<Rightarrow> (session_outcome, TransportError) result" where
  "relay_direct_udp_over_stream_session env idle send recv egress events =
     and_then
       (if idle then Err EmptyUdpOverStream
        else case read_udp_datagram_frame recv of
            Ok request \<Rightarrow> Ok request
          | Err error \<Rightarrow>
              if error = ReadExact (FinishedEarly 0) then Err EmptyUdpOverStream else Err error)
       (\<lambda>(first_request, recv).
     (case send_udp_payload_to_target_with_socket env None
             (uf_header first_request) (uf_payload first_request) egress of
        (Err e, _) \<Rightarrow> Err e
      | (Ok target, None) \<Rightarrow> Err NoUsableUdpTarget
      | (Ok target, Some (_, socket)) \<Rightarrow>
          Ok (run_session events (Running
            \<lparr>ds_recv = recv, ds_send = send, ds_target = target,
             ds_sent = [(target, uf_payload first_request)],
             ds_bytes_from_client = of_nat (length (uf_payload first_request)),
             ds_client_bytes = 0, ds_bytes_from_target = 0, ds_phase = Relaying\<rparr>))))"

section \<open>The session through a dialer link\<close>

text \<open>
  \<open>relay\<close> is \<^verbatim>\<open>relay_udp_payload_to_target_with_egress\<close> on its relay state. The list tells for
  each round whether the idle timeout expires first; \<open>None\<close> is a session still waiting. The relay state
  that the session drops at its end is part of the result.
\<close>

record LinkSession =
  ls_first_target :: "SocketAddr option"
  ls_bytes_from_client :: u64
  ls_bytes_from_target :: u64

definition end_link_session ::
    "LinkSession \<Rightarrow> bool \<Rightarrow> SendStream \<Rightarrow> 'st
     \<Rightarrow> (UdpOverStreamRelayReport, TransportError) result \<times> SendStream \<times> 'st" where
  "end_link_session s peer_closed_connection send st =
     (case ls_first_target s of
        None \<Rightarrow> (Err EmptyUdpOverStream, send, st)
      | Some target \<Rightarrow>
          (let report = \<lparr>ur_target = target, ur_bytes_from_client = ls_bytes_from_client s,
                         ur_bytes_from_target = ls_bytes_from_target s\<rparr>
           in if \<not> peer_closed_connection then
                (case send_finish send of
                   (Err e, send) \<Rightarrow> (Err e, send, st)
                 | (Ok _, send) \<Rightarrow> (Ok report, send, st))
              else (Ok report, send, st)))"

fun link_session_loop ::
    "('st \<Rightarrow> OwnedProxyHeader \<Rightarrow> bytes
       \<Rightarrow> (SocketAddr \<times> SocketAddr \<times> bytes, TransportError) handshake \<times> 'st)
     \<Rightarrow> 'st \<Rightarrow> bool list \<Rightarrow> LinkSession \<Rightarrow> SendStream \<Rightarrow> RecvStream
     \<Rightarrow> ((UdpOverStreamRelayReport, TransportError) result \<times> SendStream \<times> 'st) option" where
  "link_session_loop relay st [] s send recv = None"
| "link_session_loop relay st (idle # idles) s send recv =
     (if idle then Some (end_link_session s False send st)
      else case read_udp_datagram_frame recv of
          Err error \<Rightarrow>
            if error = ReadExact (FinishedEarly 0) then Some (end_link_session s False send st)
            else if ls_first_target s \<noteq> None \<and> udp_session_connection_lost error then
              Some (end_link_session s True send st)
            else Some (Err error, send, st)
        | Ok (request, recv) \<Rightarrow>
            (case relay st (uf_header request) (uf_payload request) of
               (Refused e, st) \<Rightarrow> Some (Err e, send, st)
             | (Waiting, st) \<Rightarrow> None
             | (Got (target, peer, response), st) \<Rightarrow>
                 (let s = s\<lparr>ls_first_target :=
                              (case ls_first_target s of None \<Rightarrow> Some target | Some t \<Rightarrow> Some t),
                            ls_bytes_from_client := ls_bytes_from_client s + of_nat (length (uf_payload request)),
                            ls_bytes_from_target := ls_bytes_from_target s + of_nat (length response)\<rparr>
                  in case write_udp_over_stream_response send peer response of
                       (Err e, send) \<Rightarrow> Some (Err e, send, st)
                     | (Ok _, send) \<Rightarrow> link_session_loop relay st idles s send recv)))"

datatype 'st session_result =
    DirectResult "(session_outcome, TransportError) result"
  | LinkResult "((UdpOverStreamRelayReport, TransportError) result \<times> SendStream \<times> 'st) option"

definition relay_udp_over_stream_session ::
    "NetEnv \<Rightarrow> ('st \<Rightarrow> OwnedProxyHeader \<Rightarrow> bytes
       \<Rightarrow> (SocketAddr \<times> SocketAddr \<times> bytes, TransportError) handshake \<times> 'st) \<Rightarrow> 'st
     \<Rightarrow> SendStream \<Rightarrow> RecvStream \<Rightarrow> OwnedProxyHeader \<Rightarrow> ProxyEgressPolicy
     \<Rightarrow> bool list \<Rightarrow> session_event list \<Rightarrow> 'st session_result" where
  "relay_udp_over_stream_session env relay st send recv stream_header egress idles events =
     (if oh_network stream_header \<noteq> Udp then
        DirectResult (Err (UnexpectedProxyNetwork (oh_network stream_header)))
      else if dialer_link egress = None then
        DirectResult (relay_direct_udp_over_stream_session env (idles \<noteq> [] \<and> hd idles) send recv egress events)
      else
        LinkResult (link_session_loop relay st idles
          \<lparr>ls_first_target = None, ls_bytes_from_client = 0, ls_bytes_from_target = 0\<rparr> send recv))"

section \<open>Invariant of the direct session\<close>

text \<open>
  What a session has done: the client frames it took off the stream are the datagrams it sent,
  all to one target, and the reply frames it wrote are the replies it counted.
\<close>

definition reply_bytes :: "SocketAddr \<times> bytes \<Rightarrow> bytes" where
  "reply_bytes r = udp_frame_bytes (proxy_header_for_ip Udp (sa_ip (fst r)) (sa_port (fst r)), snd r)"

definition payload_total :: "('a \<times> bytes) list \<Rightarrow> nat" where
  "payload_total rs = sum_list (map (\<lambda>r. length (snd r)) rs)"

definition sent_inv :: "RecvStream \<Rightarrow> RecvStream \<Rightarrow> SocketAddr \<Rightarrow> (SocketAddr \<times> bytes) list \<Rightarrow> bool" where
  "sent_inv recv0 recv target sent \<longleftrightarrow>
     (\<exists>frames. list_all valid_udp_frame frames
        \<and> fst recv0 = concat (map udp_frame_bytes frames) @ fst recv \<and> snd recv0 = snd recv
        \<and> sent = map (\<lambda>f. (target, snd f)) frames)"

definition reply_inv :: "SendStream \<Rightarrow> SendStream \<Rightarrow> u64 \<Rightarrow> bool" where
  "reply_inv send0 send count \<longleftrightarrow>
     (\<exists>replies. written send = written send0 @ concat (map reply_bytes replies)
        \<and> count = of_nat (payload_total replies))"

definition session_inv :: "RecvStream \<Rightarrow> SendStream \<Rightarrow> DirectSession \<Rightarrow> bool" where
  "session_inv recv0 send0 s \<longleftrightarrow>
     sent_inv recv0 (ds_recv s) (ds_target s) (ds_sent s)
   \<and> reply_inv send0 (ds_send s) (ds_bytes_from_target s)
   \<and> ds_bytes_from_client s + ds_client_bytes s = of_nat (payload_total (ds_sent s))
   \<and> (ds_phase s = Draining \<longrightarrow> ds_client_bytes s = 0)"

definition outcome_ok :: "RecvStream \<Rightarrow> SendStream \<Rightarrow> session_outcome \<Rightarrow> bool" where
  "outcome_ok recv0 send0 r \<longleftrightarrow>
     session_inv recv0 send0 (session_state r)
     \<and> (case r of
          Completed report s \<Rightarrow> report = session_report s \<and> ds_client_bytes s = 0
        | _ \<Rightarrow> True)"

lemma payload_total_append [simp]: "payload_total (xs @ ys) = payload_total xs + payload_total ys"
  and payload_total_Nil [simp]: "payload_total [] = 0"
  and payload_total_Cons [simp]: "payload_total (x # xs) = length (snd x) + payload_total xs"
  by (simp_all add: payload_total_def)

lemma session_inv_client_done [simp]: "session_inv r0 s0 s \<Longrightarrow> session_inv r0 s0 (client_done s)"
  by (simp add: session_inv_def client_done_def)

lemma session_inv_draining [simp]:
  "session_inv r0 s0 s \<Longrightarrow> session_inv r0 s0 ((client_done s)\<lparr>ds_phase := Draining\<rparr>)"
  by (simp add: session_inv_def client_done_def)

lemma client_done_fields [simp]: "ds_client_bytes (client_done s) = 0"
  by (simp add: client_done_def)

lemma session_inv_finish: "session_inv r0 s0 s \<Longrightarrow> send_finish (ds_send s) = (Ok u, send) \<Longrightarrow>
    session_inv r0 s0 (s\<lparr>ds_send := send\<rparr>)"
  by (auto simp: session_inv_def reply_inv_def send_finish_def split: if_splits)

lemma end_session_ok:
  "session_inv r0 s0 s \<Longrightarrow> ds_client_bytes s = 0 \<Longrightarrow> outcome_ok r0 s0 (end_session b s)"
  using session_inv_finish [of r0 s0 s]
  by (auto simp: end_session_def outcome_ok_def session_report_def split: prod.split result.split)

lemma sent_inv_step:
  assumes "sent_inv r0 recv target sent" and "read_udp_datagram_frame recv = Ok (f, recv')"
  shows "sent_inv r0 recv' target (sent @ [(target, uf_payload f)])"
proof -
  let ?f = "(as_borrowed (uf_header f), uf_payload f)"
  from assms(1) obtain frames where "list_all valid_udp_frame frames"
    "fst r0 = concat (map udp_frame_bytes frames) @ fst recv" "snd r0 = snd recv"
    "sent = map (\<lambda>f. (target, snd f)) frames" by (auto simp: sent_inv_def)
  moreover from assms(2) have "valid_udp_frame ?f" "fst recv = udp_frame_bytes ?f @ fst recv'"
    "snd recv' = snd recv" by (simp_all add: read_udp_datagram_frame_Ok)
  ultimately show ?thesis unfolding sent_inv_def by (intro exI [of _ "frames @ [?f]"]) simp
qed

lemma reply_inv_step:
  assumes "reply_inv s0 send count"
    and "write_udp_over_stream_response send peer (take RECV_BUFFER d) = (Ok u, send')"
  shows "reply_inv s0 send' (count + of_nat (length (take RECV_BUFFER d)))"
proof -
  define r where "r = take RECV_BUFFER d"
  have "length r \<le> 65535" by (simp add: r_def RECV_BUFFER_def)
  with assms(2) have w: "written send' = written send @ reply_bytes (peer, r)"
    by (simp add: response_frame_bytes send_write_all_Ok reply_bytes_def r_def [symmetric])
  from assms(1) obtain replies where "written send = written s0 @ concat (map reply_bytes replies)"
    "count = of_nat (payload_total replies)" by (auto simp: reply_inv_def)
  with w show ?thesis
    unfolding reply_inv_def r_def [symmetric] by (intro exI [of _ "replies @ [(peer, r)]"]) simp
qed

lemma session_inv_sent:
  "session_inv r0 s0 s \<Longrightarrow> ds_phase s = Relaying \<Longrightarrow> read_udp_datagram_frame (ds_recv s) = Ok (f, recv) \<Longrightarrow>
     session_inv r0 s0 (s\<lparr>ds_recv := recv,
       ds_sent := ds_sent s @ [(ds_target s, uf_payload f)],
       ds_client_bytes := ds_client_bytes s + of_nat (length (uf_payload f))\<rparr>)"
  using sent_inv_step [of r0 "ds_recv s" "ds_target s" "ds_sent s" f recv]
  by (auto simp: session_inv_def algebra_simps)

lemma session_inv_reply:
  "session_inv r0 s0 s \<Longrightarrow>
   write_udp_over_stream_response (ds_send s) peer (take RECV_BUFFER d) = (Ok u, send) \<Longrightarrow>
     session_inv r0 s0 (s\<lparr>ds_send := send,
       ds_bytes_from_target := ds_bytes_from_target s + of_nat (length (take RECV_BUFFER d))\<rparr>)
   \<and> session_inv r0 s0 (s\<lparr>ds_bytes_from_target := ds_bytes_from_target s + of_nat (length (take RECV_BUFFER d)),
       ds_send := send\<rparr>)"
  using reply_inv_step [of s0 "ds_send s" "ds_bytes_from_target s" peer d u send]
  by (auto simp: session_inv_def)

lemma outcome_ok_simps [simp]:
  "outcome_ok r0 s0 (Running s) = session_inv r0 s0 s"
  "outcome_ok r0 s0 (Aborted e s) = session_inv r0 s0 s"
  by (simp_all add: outcome_ok_def)

lemma relaying_step_ok:
  assumes "session_inv r0 s0 s" and "ds_phase s = Relaying"
  shows "outcome_ok r0 s0 (relaying_step event s)"
  using assms session_inv_sent [OF assms] session_inv_reply [OF assms(1)]
  by (auto simp: relaying_step_def end_session_ok Let_def
      split: session_event.split result.split option.split prod.split)

lemma draining_step_ok:
  assumes "session_inv r0 s0 s" and "ds_phase s = Draining"
  shows "outcome_ok r0 s0 (draining_step event s)"
proof -
  have "ds_client_bytes s = 0" using assms by (simp add: session_inv_def)
  with assms(1) have "outcome_ok r0 s0 (end_session b s)" for b by (rule end_session_ok)
  then show ?thesis
    using assms session_inv_reply [OF assms(1)]
    by (auto simp: draining_step_def Let_def
        split: session_event.split result.split StoppedError.split prod.split)
qed

lemma run_session_ok: "outcome_ok r0 s0 r \<Longrightarrow> outcome_ok r0 s0 (run_session events r)"
proof (induction events r rule: run_session.induct)
  case (1 event events s)
  then have "outcome_ok r0 s0 (session_step event s)"
    using relaying_step_ok draining_step_ok
    by (cases "ds_phase s") (simp_all add: session_step_def)
  with 1 show ?case by simp
qed auto

definition first_state :: "SendStream \<Rightarrow> RecvStream \<Rightarrow> SocketAddr \<Rightarrow> bytes \<Rightarrow> DirectSession" where
  "first_state send recv target payload =
     \<lparr>ds_recv = recv, ds_send = send, ds_target = target, ds_sent = [(target, payload)],
      ds_bytes_from_client = of_nat (length payload), ds_client_bytes = 0,
      ds_bytes_from_target = 0, ds_phase = Relaying\<rparr>"

lemma direct_session_start:
  assumes "relay_direct_udp_over_stream_session env idle send recv egress events = Ok outcome"
  shows "\<exists>f recv1 target. read_udp_datagram_frame recv = Ok (f, recv1)
    \<and> fst (send_udp_payload_to_target_with_socket env None (uf_header f) (uf_payload f) egress) = Ok target
    \<and> outcome = run_session events (Running (first_state send recv1 target (uf_payload f)))"
proof (cases "read_udp_datagram_frame recv")
  case (Ok x)
  obtain f recv1 where x: "x = (f, recv1)" by (cases x)
  obtain r rs where "send_udp_payload_to_target_with_socket env None (uf_header f) (uf_payload f) egress = (r, rs)"
    by fastforce
  with assms Ok x show ?thesis
    by (cases r; cases rs; cases idle)
       (auto simp: relay_direct_udp_over_stream_session_def first_state_def)
next
  case (Err e)
  with assms show ?thesis
    by (cases idle) (auto simp: relay_direct_udp_over_stream_session_def split: if_splits)
qed

lemma first_state_inv:
  assumes "read_udp_datagram_frame recv = Ok (f, recv1)"
  shows "session_inv recv send (first_state send recv1 target (uf_payload f))"
proof -
  have "sent_inv recv recv target []" unfolding sent_inv_def by (intro exI [of _ "[]"]) simp
  from sent_inv_step [OF this assms] have "sent_inv recv recv1 target [(target, uf_payload f)]" by simp
  moreover have "reply_inv send send 0" unfolding reply_inv_def by (intro exI [of _ "[]"]) simp
  ultimately show ?thesis by (simp add: session_inv_def first_state_def)
qed

lemma run_session_target:
  "ds_target (session_state (run_session es r)) = ds_target (session_state r)
   \<and> (ds_sent (session_state r) \<noteq> [] \<longrightarrow> ds_sent (session_state (run_session es r)) \<noteq> [])"
proof (induction es r rule: run_session.induct)
  case (1 event events s)
  have "ds_target (session_state (session_step event s)) = ds_target s
      \<and> (ds_sent s \<noteq> [] \<longrightarrow> ds_sent (session_state (session_step event s)) \<noteq> [])"
    by (auto simp: session_step_def relaying_step_def draining_step_def end_session_def client_done_def
        Let_def split: session_phase.split session_event.split result.split option.split prod.split
        StoppedError.split)
  with 1 show ?case by auto
qed auto

section \<open>Properties\<close>


text \<open>A frame and its bytes for concrete runs: two payload bytes for 0.0.0.7, port 53.\<close>

definition demo_frame :: UdpFrame where
  "demo_frame = \<lparr>uf_header = from_ip Udp (V4 7) 53, uf_payload = [1, 2]\<rparr>"

definition demo_frame_bytes :: bytes where
  "demo_frame_bytes = udp_frame_bytes (as_borrowed (uf_header demo_frame), uf_payload demo_frame)"

lemma read_demo_frame [simp]:
  "read_udp_datagram_frame (demo_frame_bytes @ rest, e) = Ok (demo_frame, rest, e)"
proof -
  have "valid_udp_frame (as_borrowed (from_ip Udp (V4 7) 53), [1, 2])"
    by (simp add: valid_udp_frame_def as_borrowed_from_ip)
  then show ?thesis
    using read_udp_frame_bytes [of "from_ip Udp (V4 7) 53" "[1, 2]" rest e]
    by (simp add: demo_frame_def demo_frame_bytes_def)
qed

lemma read_empty [simp]: "read_udp_datagram_frame ([], Fin) = Err (ReadExact (FinishedEarly 0))"
  by (simp add: read_udp_datagram_frame_def read_runtime_target_metadata_def recv_read_exact_def)

lemma send_demo_frame [simp]:
  "send_udp_payload_to_target_with_socket demo_env None (uf_header demo_frame) p egress_direct
   = (Ok \<lparr>sa_ip = V4 7, sa_port = 53\<rparr>, Some (True, \<lparr>sock_source = None, sock_mark = None\<rparr>))"
  by (simp add: send_udp_payload_to_target_with_socket_def demo_net demo_frame_def from_ip_def
      egress_direct_def)

abbreviation fresh_send :: SendStream where
  "fresh_send \<equiv> \<lparr>written = [], write_error = None, finished = False\<rparr>"


text \<open>
  A client that has sent its frames and closed its half, followed by an idle target, ends the
  session: it completes, the response stream is finished and the report is the session's counts.
\<close>

theorem direct_session_completes:
  assumes "ds_phase s = Relaying" and "ds_recv s = ([], Fin)" and "\<not> finished (ds_send s)"
  shows "\<exists>s'. run_session [ClientReady sent, DrainIdle] (Running s)
      = Completed \<lparr>ur_target = ds_target s,
          ur_bytes_from_client = ds_bytes_from_client s + ds_client_bytes s,
          ur_bytes_from_target = ds_bytes_from_target s\<rparr> s'
    \<and> finished (ds_send s') \<and> written (ds_send s') = written (ds_send s)"
  using assms
  by (auto simp: session_step_def relaying_step_def client_done_def draining_step_def end_session_def
      send_finish_def session_report_def)

theorem direct_session_completes_witness:
  "\<exists>s'. run_session [ClientReady None, DrainIdle]
      (Running (first_state fresh_send ([], Fin) \<lparr>sa_ip = V4 7, sa_port = 53\<rparr> [1, 2]))
      = Completed \<lparr>ur_target = \<lparr>sa_ip = V4 7, sa_port = 53\<rparr>, ur_bytes_from_client = 2,
          ur_bytes_from_target = 0\<rparr> s' \<and> finished (ds_send s')"
  using direct_session_completes
      [of "first_state fresh_send ([], Fin) \<lparr>sa_ip = V4 7, sa_port = 53\<rparr> [1, 2]" None]
  by (auto simp: first_state_def)

text \<open>
  C40: a client stream that is cut in the middle of a frame, right after the target of the frame,
  is taken for a clean end: the session goes on to drain the replies as if the stream had ended
  before the frame, and the frame is dropped without an error.
\<close>

theorem cut_frame_is_clean_end:
  assumes "wf_address a" and "ds_phase s = Relaying"
  shows "session_step (ClientReady sent) (s\<lparr>ds_recv := (metadata_bytes a p, Fin)\<rparr>)
    = Running ((client_done s)\<lparr>ds_recv := (metadata_bytes a p, Fin), ds_phase := Draining\<rparr>)"
proof -
  have m: "read_runtime_target_metadata (metadata_bytes a p, Fin) [] = Ok (metadata_bytes a p, [], Fin)"
    using assms(1) by (subst read_runtime_target_metadata_Ok) auto
  have "read_udp_datagram_frame (metadata_bytes a p, Fin) = Err (ReadExact (FinishedEarly 0))"
    by (simp add: read_udp_datagram_frame_def m recv_read_exact_def)
  then show ?thesis
    using assms(2) by (simp add: session_step_def relaying_step_def client_done_def)
qed

theorem cut_frame_is_clean_end_witness:
  "\<exists>s'. session_step (ClientReady None)
      (first_state fresh_send (metadata_bytes (Ipv4 7) 53, Fin) \<lparr>sa_ip = V4 7, sa_port = 53\<rparr> [])
    = Running s' \<and> ds_phase s' = Draining"
proof -
  let ?s = "first_state fresh_send (metadata_bytes (Ipv4 7) 53, Fin) \<lparr>sa_ip = V4 7, sa_port = 53\<rparr> []"
  have "?s\<lparr>ds_recv := (metadata_bytes (Ipv4 7) 53, Fin)\<rparr> = ?s" by (simp add: first_state_def)
  then show ?thesis
    using cut_frame_is_clean_end [of "Ipv4 7" ?s None 53] by (simp add: first_state_def)
qed

end
