(* ===== verification/TcpRelay.thy ===== *)
theory TcpRelay
  imports UdpSession Auth
begin

text \<open>
  The TCP relay of \<^verbatim>\<open>crates/zuicity-transport/src/lib.rs\<close>: the copy loops with a write-stall
  timeout (\<^verbatim>\<open>relay_copy_with_stall_timeout\<close>, its read-ahead variant, and the vectored copy of
  QUIC chunks), and \<^verbatim>\<open>relay_tcp_proxy_stream\<close>, which runs both directions of a proxied TCP
  stream. A reader is the list of its read results; a writer is the bytes it has taken and the
  replies its next writes meet. A writer without replies left takes whatever it is offered.
\<close>

section \<open>Readers and writers\<close>

text \<open>The end of the list is the end of the stream, as is an empty read.\<close>

type_synonym Reader = "(bytes, IoError) result list"

definition read_buf :: "Reader \<Rightarrow> (bytes, IoError) result \<times> Reader" where
  "read_buf reader = (case reader of [] \<Rightarrow> (Ok [], []) | r # rs \<Rightarrow> (r, rs))"

text \<open>\<open>Block\<close>: the writer takes nothing for longer than any stall timeout.\<close>

datatype write_reply = Accept nat | Refuse IoError | Block

record Writer =
  w_out :: bytes
  w_replies :: "write_reply list"
  w_flush_error :: "IoError option"
  w_shutdown_error :: "IoError option"
  w_shutdown :: bool

datatype write_poll = Wrote nat | WriteErr IoError | NotReady

definition writer_write :: "Writer \<Rightarrow> bytes \<Rightarrow> write_poll \<times> Writer" where
  "writer_write w data =
     (case w_replies w of
        [] \<Rightarrow> (Wrote (length data), w\<lparr>w_out := w_out w @ data\<rparr>)
      | Accept n # replies \<Rightarrow>
          (Wrote (min n (length data)), w\<lparr>w_out := w_out w @ take n data, w_replies := replies\<rparr>)
      | Refuse e # replies \<Rightarrow> (WriteErr e, w\<lparr>w_replies := replies\<rparr>)
      | Block # replies \<Rightarrow> (NotReady, w\<lparr>w_replies := replies\<rparr>))"

definition writer_flush :: "Writer \<Rightarrow> (unit, IoError) result" where
  "writer_flush w = (case w_flush_error w of None \<Rightarrow> Ok () | Some e \<Rightarrow> Err e)"

definition writer_shutdown :: "Writer \<Rightarrow> (unit, IoError) result \<times> Writer" where
  "writer_shutdown w =
     (case w_shutdown_error w of
        None \<Rightarrow> (Ok (), w\<lparr>w_shutdown := True\<rparr>)
      | Some e \<Rightarrow> (Err e, w))"

lemma writer_write_Wrote:
  "writer_write w data = (Wrote n, w') \<Longrightarrow>
     n \<le> length data \<and> w_out w' = w_out w @ take n data \<and> w_flush_error w' = w_flush_error w
     \<and> w_shutdown_error w' = w_shutdown_error w \<and> w_shutdown w' = w_shutdown w"
  by (auto simp: writer_write_def min_def split: list.splits write_reply.splits if_splits)

lemma writer_write_other:
  "writer_write w data = (WriteErr e, w') \<Longrightarrow> w_out w' = w_out w"
  "writer_write w data = (NotReady, w') \<Longrightarrow> w_out w' = w_out w"
  by (auto simp: writer_write_def split: list.splits write_reply.splits)

section \<open>Writing whole buffers\<close>

text \<open>\<^verbatim>\<open>AsyncWriteExt::write_all\<close>: how it ends, if at all, and the writer it leaves.\<close>

datatype write_end = WriteDone | WriteFailed IoError | WriteStalled

definition write_zero :: IoError where
  "write_zero = IoError WriteZero None"

function write_all :: "Writer \<Rightarrow> bytes \<Rightarrow> write_end \<times> Writer" where
  "write_all w buffer =
     (if buffer = [] then (WriteDone, w)
      else case writer_write w buffer of
          (Wrote n, w) \<Rightarrow>
            if n = 0 then (WriteFailed write_zero, w) else write_all w (drop n buffer)
        | (WriteErr e, w) \<Rightarrow> (WriteFailed e, w)
        | (NotReady, w) \<Rightarrow> (WriteStalled, w))"
  by pat_completeness auto
termination by (relation "measure (\<lambda>(w, buffer). length buffer)") auto

declare write_all.simps [simp del]

text \<open>The stall timeout turns a write that would never end into an error.\<close>

definition within_stall_timeout :: "write_end \<times> Writer \<Rightarrow> (unit, IoError) result \<times> Writer" where
  "within_stall_timeout res =
     (case res of
        (WriteDone, w) \<Rightarrow> (Ok (), w)
      | (WriteFailed e, w) \<Rightarrow> (Err e, w)
      | (WriteStalled, w) \<Rightarrow> (Err (IoError TimedOut None), w))"

definition write_all_with_stall_timeout :: "Writer \<Rightarrow> bytes \<Rightarrow> (unit, IoError) result \<times> Writer" where
  "write_all_with_stall_timeout w buffer = within_stall_timeout (write_all w buffer)"

section \<open>Vectored writes\<close>

text \<open>
  The bookkeeping after a vectored write of \<open>remaining\<close> bytes: chunks written in full are
  dropped, a chunk written in part is advanced. \<open>None\<close> is the panic of an index past the chunks.
\<close>

function advance_chunks :: "nat \<Rightarrow> bytes list \<Rightarrow> nat \<Rightarrow> (bytes list \<times> nat) option" where
  "advance_chunks remaining chunks first =
     (if remaining = 0 then Some (chunks, first)
      else if length chunks \<le> first then None
      else if remaining < length (chunks ! first) then
        Some (chunks[first := drop remaining (chunks ! first)], first)
      else advance_chunks (remaining - length (chunks ! first)) (chunks[first := []]) (first + 1))"
  by pat_completeness auto
termination by (relation "measure (\<lambda>(remaining, chunks, first). length chunks - first)") auto

declare advance_chunks.simps [simp del]

definition pending_chunks :: "bytes list \<Rightarrow> nat \<Rightarrow> bytes" where
  "pending_chunks chunks first = concat (drop first chunks)"

lemma advance_chunks_Some:
  "remaining \<le> length (pending_chunks chunks first) \<Longrightarrow>
   \<exists>chunks' first'. advance_chunks remaining chunks first = Some (chunks', first')
     \<and> pending_chunks chunks' first' = drop remaining (pending_chunks chunks first)
     \<and> ([] \<notin> set (drop first chunks) \<longrightarrow> [] \<notin> set (drop first' chunks'))
     \<and> length chunks' = length chunks"
proof (induction remaining chunks first rule: advance_chunks.induct)
  case (1 remaining chunks first)
  show ?case
  proof (cases "remaining = 0 \<or> length chunks \<le> first")
    case True
    with 1 show ?thesis by (subst advance_chunks.simps) (auto simp: pending_chunks_def)
  next
    case False
    then have first: "first < length chunks" and rem: "remaining \<noteq> 0" by auto
    define c where "c = chunks ! first"
    have drop: "drop first chunks = c # drop (Suc first) chunks"
      using first by (simp add: c_def Cons_nth_drop_Suc)
    show ?thesis
    proof (cases "remaining < length c")
      case True
      then show ?thesis using first rem drop
        by (subst advance_chunks.simps)
          (auto simp: c_def [symmetric] pending_chunks_def drop_update_swap)
    next
      case False
      have eq: "advance_chunks remaining chunks first =
          advance_chunks (remaining - length c) (chunks[first := []]) (Suc first)"
        using first rem False by (subst advance_chunks.simps) (simp add: c_def)
      have "pending_chunks (chunks[first := []]) (Suc first) = pending_chunks chunks (Suc first)"
        by (simp add: pending_chunks_def)
      moreover have "pending_chunks chunks first = c @ pending_chunks chunks (Suc first)"
        by (simp add: pending_chunks_def drop)
      ultimately show ?thesis
        using 1(1) [unfolded c_def [symmetric]] 1(2) first rem False eq drop by fastforce
    qed
  qed
qed

function write_vectored_loop :: "Writer \<Rightarrow> bytes list \<Rightarrow> nat \<Rightarrow> (write_end \<times> Writer) option" where
  "write_vectored_loop w chunks first =
     (if length chunks \<le> first then Some (WriteDone, w)
      else case writer_write w (pending_chunks chunks first) of
          (Wrote amount, w) \<Rightarrow>
            if amount = 0 then Some (WriteFailed write_zero, w)
            else (case advance_chunks amount chunks first of
                    None \<Rightarrow> None
                  | Some (chunks, first) \<Rightarrow> write_vectored_loop w chunks first)
        | (WriteErr e, w) \<Rightarrow> Some (WriteFailed e, w)
        | (NotReady, w) \<Rightarrow> Some (WriteStalled, w))"
  by pat_completeness auto
termination
proof (relation "measure (\<lambda>(w, chunks, first). length (pending_chunks chunks first))", goal_cases)
  case (2 w chunks first p w' amount a chunks' first')
  from 2(2,3) have "writer_write w (pending_chunks chunks first) = (Wrote amount, w')" by simp
  then have "amount \<le> length (pending_chunks chunks first)" by (auto dest: writer_write_Wrote)
  with advance_chunks_Some [of amount chunks first] 2 show ?case by auto
qed simp

declare write_vectored_loop.simps [simp del]

definition write_all_vectored_with_stall_timeout ::
    "Writer \<Rightarrow> bytes list \<Rightarrow> ((unit, IoError) result \<times> Writer) option" where
  "write_all_vectored_with_stall_timeout w chunks =
     map_option within_stall_timeout (write_vectored_loop w chunks 0)"

section \<open>Copy loops\<close>

definition RELAY_COPY_BUFFER_SIZE :: nat where "RELAY_COPY_BUFFER_SIZE = 64 * 1024"
definition RELAY_QUIC_CHUNK_BATCH_SIZE :: nat where "RELAY_QUIC_CHUNK_BATCH_SIZE = 64"

definition flush_copied :: "Writer \<Rightarrow> u64 \<Rightarrow> (u64, IoError) result \<times> Writer" where
  "flush_copied w copied = (and_then (writer_flush w) (\<lambda>_. Ok copied), w)"

fun relay_copy_loop :: "Reader \<Rightarrow> Writer \<Rightarrow> u64 \<Rightarrow> (u64, IoError) result \<times> Writer" where
  "relay_copy_loop [] w copied = flush_copied w copied"
| "relay_copy_loop (Err e # reads) w copied = (Err e, w)"
| "relay_copy_loop (Ok buffer # reads) w copied =
     (if buffer = [] then flush_copied w copied
      else case write_all_with_stall_timeout w buffer of
          (Err e, w) \<Rightarrow> (Err e, w)
        | (Ok _, w) \<Rightarrow> relay_copy_loop reads w (copied + of_nat (length buffer)))"

definition relay_copy_with_stall_timeout :: "Reader \<Rightarrow> Writer \<Rightarrow> (u64, IoError) result \<times> Writer" where
  "relay_copy_with_stall_timeout reader w = relay_copy_loop reader w 0"

text \<open>
  The read-ahead variant has two buffers: it writes the current one while it fills the other.
  \<open>read_first\<close> says for each round whether the read ends before the write, in which case its
  result is kept until the write has ended.
\<close>

function read_ahead_loop ::
    "bool list \<Rightarrow> bytes list \<Rightarrow> nat \<Rightarrow> nat \<Rightarrow> Reader \<Rightarrow> Writer \<Rightarrow> u64
     \<Rightarrow> (u64, IoError) result \<times> Writer" where
  "read_ahead_loop read_first buffers current current_len reader w copied =
     (if current_len = 0 then flush_copied w copied
      else
        (let next = 1 - current;
             (read, reader') = read_buf reader;
             read_result = (if read_first \<noteq> [] \<and> hd read_first then Some read else None)
         in case write_all_with_stall_timeout w (take current_len (buffers ! current)) of
              (Err e, w) \<Rightarrow> (Err e, w)
            | (Ok _, w) \<Rightarrow>
                (case (case read_result of Some result \<Rightarrow> result | None \<Rightarrow> read) of
                   Err e \<Rightarrow> (Err e, w)
                 | Ok data \<Rightarrow>
                     read_ahead_loop (tl read_first) (buffers[next := data]) next (length data) reader' w
                       (copied + of_nat current_len))))"
  by pat_completeness auto
termination by (relation "measure (\<lambda>(rf, bs, c, n, reader, w, k). length reader + (if n = 0 then 0 else 1))")
  (auto simp: read_buf_def split: list.splits if_splits)

declare read_ahead_loop.simps [simp del]

definition relay_copy_read_ahead_with_stall_timeout ::
    "bool list \<Rightarrow> Reader \<Rightarrow> Writer \<Rightarrow> (u64, IoError) result \<times> Writer" where
  "relay_copy_read_ahead_with_stall_timeout read_first reader w =
     (case read_buf reader of
        (Err e, _) \<Rightarrow> (Err e, w)
      | (Ok data, reader) \<Rightarrow> read_ahead_loop read_first [data, []] 0 (length data) reader w 0)"

text \<open>A reader of QUIC chunks is the list of the batches \<^verbatim>\<open>read_chunks\<close> yields.\<close>

type_synonym ChunkReader = "(bytes list, IoError) result list"

fun relay_quic_chunks_loop ::
    "ChunkReader \<Rightarrow> Writer \<Rightarrow> u64 \<Rightarrow> ((u64, IoError) result \<times> Writer) option" where
  "relay_quic_chunks_loop [] w copied = Some (flush_copied w copied)"
| "relay_quic_chunks_loop (Err e # reads) w copied = Some (Err e, w)"
| "relay_quic_chunks_loop (Ok batch # reads) w copied =
     (case write_all_vectored_with_stall_timeout w batch of
        None \<Rightarrow> None
      | Some (Err e, w) \<Rightarrow> Some (Err e, w)
      | Some (Ok _, w) \<Rightarrow>
          relay_quic_chunks_loop reads w (copied + sum_list (map (\<lambda>c. of_nat (length c)) batch)))"

definition relay_quic_chunks_to_target_with_stall_timeout ::
    "ChunkReader \<Rightarrow> Writer \<Rightarrow> ((u64, IoError) result \<times> Writer) option" where
  "relay_quic_chunks_to_target_with_stall_timeout reader w = relay_quic_chunks_loop reader w 0"

section \<open>The relay of a proxied TCP stream\<close>

record TcpProxyRelayReport =
  tr_target :: SocketAddr
  tr_bytes_from_client :: u64
  tr_bytes_from_target :: u64

datatype ProxyRelayReport = TcpReport TcpProxyRelayReport | UdpReport UdpOverStreamRelayReport

fun report_bytes_from_client :: "ProxyRelayReport \<Rightarrow> u64" where
  "report_bytes_from_client (TcpReport r) = tr_bytes_from_client r"
| "report_bytes_from_client (UdpReport r) = ur_bytes_from_client r"

fun report_bytes_from_target :: "ProxyRelayReport \<Rightarrow> u64" where
  "report_bytes_from_target (TcpReport r) = tr_bytes_from_target r"
| "report_bytes_from_target (UdpReport r) = ur_bytes_from_target r"

datatype target_stream_kind = Plain | Boxed

record TcpProxyTargetStream =
  ts_kind :: target_stream_kind
  ts_peer_addr :: SocketAddr
  ts_reader :: Reader
  ts_writer :: Writer

text \<open>The send half of the QUIC stream: when, and how, the peer acknowledges its end.\<close>

record QuicSendHalf =
  qs_writer :: Writer
  qs_stopped :: "(u64 option, StoppedError) result option" \<comment> \<open>\<open>None\<close>: never\<close>

datatype task_end = Finished "(u64, TransportError) result" | Panicked string | Hangs

definition client_to_target_task ::
    "bytes \<Rightarrow> ChunkReader \<Rightarrow> Writer \<Rightarrow> task_end \<times> Writer" where
  "client_to_target_task initial_payload client target_write =
     (case if initial_payload = [] then (WriteDone, target_write)
           else write_all target_write initial_payload of
        (WriteFailed e, w) \<Rightarrow> (Finished (Err (Io e)), w)
      | (WriteStalled, w) \<Rightarrow> (Hangs, w)
      | (WriteDone, w) \<Rightarrow>
          (case relay_quic_chunks_to_target_with_stall_timeout client w of
             None \<Rightarrow> (Panicked ''index out of bounds'', w)
           | Some (Err e, w) \<Rightarrow> (Finished (Err (Io e)), w)
           | Some (Ok n, w) \<Rightarrow>
               (case writer_shutdown w of
                  (Err e, w) \<Rightarrow> (Finished (Err (Io e)), w)
                | (Ok _, w) \<Rightarrow> (Finished (Ok (of_nat (length initial_payload) + n)), w))))"

definition quic_finish :: "Writer \<Rightarrow> (unit, TransportError) result \<times> Writer" where
  "quic_finish w =
     (if w_shutdown w then (Err ClosedStream, w) else (Ok (), w\<lparr>w_shutdown := True\<rparr>))"

definition target_to_client_task ::
    "bool list \<Rightarrow> target_stream_kind \<Rightarrow> Reader \<Rightarrow> QuicSendHalf \<Rightarrow> task_end \<times> Writer" where
  "target_to_client_task read_first kind target_read quic_send =
     (case (case kind of
              Plain \<Rightarrow> relay_copy_read_ahead_with_stall_timeout read_first target_read (qs_writer quic_send)
            | Boxed \<Rightarrow> relay_copy_with_stall_timeout target_read (qs_writer quic_send)) of
        (Err e, w) \<Rightarrow> (Finished (Err (Io e)), w)
      | (Ok n, w) \<Rightarrow>
          (case quic_finish w of
             (Err e, w) \<Rightarrow> (Finished (Err e), w)
           | (Ok _, w) \<Rightarrow>
               (case qs_stopped quic_send of
                  None \<Rightarrow> (Hangs, w)
                | Some (Err e) \<Rightarrow> (Finished (Err (Stopped e)), w)
                | Some (Ok _) \<Rightarrow> (Finished (Ok n), w))))"

datatype relay_direction = ClientToTarget | TargetToClient

text \<open>The join loop over the directions, in the order they end; \<open>None\<close>: it waits forever.\<close>

fun join_directions ::
    "(relay_direction \<times> task_end) list \<Rightarrow> u64 option \<Rightarrow> u64 option
     \<Rightarrow> (u64 option \<times> u64 option, TransportError) result option" where
  "join_directions [] from_client from_target = Some (Ok (from_client, from_target))"
| "join_directions ((_, Hangs) # ends) from_client from_target =
     (case join_directions ends from_client from_target of
        Some (Err e) \<Rightarrow> Some (Err e)
      | _ \<Rightarrow> None)"
| "join_directions ((_, Panicked p) # ends) from_client from_target = Some (Err (TaskJoin p))"
| "join_directions ((_, Finished (Err e)) # ends) from_client from_target = Some (Err e)"
| "join_directions ((ClientToTarget, Finished (Ok n)) # ends) from_client from_target =
     join_directions ends (Some n) from_target"
| "join_directions ((TargetToClient, Finished (Ok n)) # ends) from_client from_target =
     join_directions ends from_client (Some n)"

definition missing_report :: "string \<Rightarrow> TransportError" where
  "missing_report what = Io (IoError (OtherIo (what @ '' relay task ended without a report'')) None)"

definition assemble_report ::
    "SocketAddr \<Rightarrow> u64 option \<times> u64 option \<Rightarrow> (TcpProxyRelayReport, TransportError) result" where
  "assemble_report target = (\<lambda>(from_client, from_target).
     and_then (ok_or from_client (missing_report ''client-to-target'')) (\<lambda>bytes_from_client.
     and_then (ok_or from_target (missing_report ''target-to-client'')) (\<lambda>bytes_from_target.
     Ok \<lparr>tr_target = target, tr_bytes_from_client = bytes_from_client,
         tr_bytes_from_target = bytes_from_target\<rparr>)))"

text \<open>It returns the result and the two writers it leaves, the target's and the QUIC stream's.\<close>

definition relay_tcp_proxy_stream ::
    "bool \<Rightarrow> bool list \<Rightarrow> QuicSendHalf \<Rightarrow> ChunkReader \<Rightarrow> TcpProxyTargetStream \<Rightarrow> bytes
     \<Rightarrow> (TcpProxyRelayReport, TransportError) result option \<times> Writer \<times> Writer" where
  "relay_tcp_proxy_stream client_first read_first quic_send quic_recv target initial_payload =
     (let (c, target_write) = client_to_target_task initial_payload quic_recv (ts_writer target);
          (t, quic_write) = target_to_client_task read_first (ts_kind target) (ts_reader target) quic_send;
          ends = (if client_first then [(ClientToTarget, c), (TargetToClient, t)]
                  else [(TargetToClient, t), (ClientToTarget, c)])
      in (map_option (\<lambda>joined. and_then joined (assemble_report (ts_peer_addr target)))
            (join_directions ends None None),
          target_write, quic_write))"

section \<open>Facts on writes\<close>

definition same_controls :: "Writer \<Rightarrow> Writer \<Rightarrow> bool" where
  "same_controls w w' \<longleftrightarrow> w_flush_error w' = w_flush_error w \<and> w_shutdown_error w' = w_shutdown_error w
     \<and> w_shutdown w' = w_shutdown w"

lemma same_controls_simps [simp]: "same_controls w w"
  "same_controls w w1 \<Longrightarrow> same_controls w1 w2 \<Longrightarrow> same_controls w w2"
  by (auto simp: same_controls_def)

lemma writer_write_controls: "writer_write w data = (p, w') \<Longrightarrow> same_controls w w'"
  by (auto simp: writer_write_def same_controls_def split: list.splits write_reply.splits)

lemma write_all_taken:
  "write_all w b = (e, w') \<Longrightarrow>
     same_controls w w' \<and> (\<exists>n \<le> length b. w_out w' = w_out w @ take n b \<and> (e = WriteDone \<longrightarrow> n = length b))"
proof (induction w b rule: write_all.induct)
  case (1 w b)
  show ?case
  proof (cases "b = []")
    case True
    with 1(2) show ?thesis by (simp add: write_all.simps)
  next
    case False
    obtain p w1 where p: "writer_write w b = (p, w1)" by fastforce
    note c = writer_write_controls [OF p]
    show ?thesis
    proof (cases p)
      case (Wrote n)
      note n = writer_write_Wrote [OF p [unfolded Wrote]]
      show ?thesis
      proof (cases "n = 0")
        case True
        with 1(2) False p Wrote n c show ?thesis by (auto simp: write_all.simps [of w])
      next
        case nz: False
        with 1(2) False p Wrote have "write_all w1 (drop n b) = (e, w')" by (simp add: write_all.simps [of w])
        from 1(1) [OF False p [symmetric] Wrote nz this] obtain m where m: "same_controls w1 w'"
          "m \<le> length (drop n b)" "w_out w' = w_out w1 @ take m (drop n b)"
          "e = WriteDone \<Longrightarrow> m = length (drop n b)" by blast
        from m n have "w_out w' = w_out w @ take (n + m) b" by (simp add: take_add)
        moreover from m n have "n + m \<le> length b" "e = WriteDone \<Longrightarrow> n + m = length b" by auto
        moreover from c m(1) have "same_controls w w'" by simp
        ultimately show ?thesis by blast
      qed
    next
      case (WriteErr err)
      then show ?thesis using 1(2) False p writer_write_other(1) [OF p [unfolded WriteErr]] c
        by (auto simp: write_all.simps [of w])
    next
      case NotReady
      then show ?thesis using 1(2) False p writer_write_other(2) [OF p [unfolded NotReady]] c
        by (auto simp: write_all.simps [of w])
    qed
  qed
qed

lemma write_all_stall_Ok:
  "write_all_with_stall_timeout w b = (Ok u, w') \<Longrightarrow> same_controls w w' \<and> w_out w' = w_out w @ b"
  using write_all_taken [of w b] by (auto simp: write_all_with_stall_timeout_def within_stall_timeout_def
      split: prod.splits write_end.splits)

lemma write_vectored_loop_eq:
  "[] \<notin> set (drop first chunks) \<Longrightarrow>
     write_vectored_loop w chunks first = Some (write_all w (pending_chunks chunks first))"
proof (induction w chunks first rule: write_vectored_loop.induct)
  case (1 w chunks first)
  show ?case
  proof (cases "length chunks \<le> first")
    case True
    then show ?thesis
      by (simp add: write_vectored_loop.simps [of w] write_all.simps [of w] pending_chunks_def)
  next
    case False
    then have "chunks ! first \<in> set (drop first chunks)" by (simp add: Cons_nth_drop_Suc [symmetric])
    with 1(2) have ne: "pending_chunks chunks first \<noteq> []" by (fastforce simp: pending_chunks_def)
    obtain p w1 where p: "writer_write w (pending_chunks chunks first) = (p, w1)" by fastforce
    show ?thesis
    proof (cases "\<exists>n. p = Wrote n \<and> n \<noteq> 0")
      case True
      then obtain n where n: "p = Wrote n" "n \<noteq> 0" by auto
      with writer_write_Wrote [OF p [unfolded n]] advance_chunks_Some [of n chunks first] 1(2)
      obtain chunks' first' where a: "advance_chunks n chunks first = Some (chunks', first')"
        "pending_chunks chunks' first' = drop n (pending_chunks chunks first)"
        "[] \<notin> set (drop first' chunks')" by blast
      from 1(1) [OF False p [symmetric] n(1,2) a(1) refl a(3)] a False p n ne show ?thesis
        by (simp add: write_vectored_loop.simps [of w chunks] write_all.simps [of w "pending_chunks chunks first"])
    next
      case other: False
      with False p ne show ?thesis
        by (cases p)
          (simp_all add: write_vectored_loop.simps [of w] write_all.simps [of w "pending_chunks chunks first"])
    qed
  qed
qed

section \<open>Properties\<close>


definition demo_writer :: "write_reply list \<Rightarrow> Writer" where
  "demo_writer replies =
     \<lparr>w_out = [], w_replies = replies, w_flush_error = None, w_shutdown_error = None, w_shutdown = False\<rparr>"


lemma read_ahead_loop_done [simp]:
  "read_ahead_loop read_first buffers current 0 reader w copied = flush_copied w copied"
  by (simp add: read_ahead_loop.simps)

lemma read_ahead_loop_eq:
  "length buffers = 2 \<Longrightarrow> current < 2 \<Longrightarrow> current_len = length (buffers ! current) \<Longrightarrow>
     read_ahead_loop read_first buffers current current_len reader w copied =
       relay_copy_loop (Ok (buffers ! current) # reader) w copied"
proof (induction read_first buffers current current_len reader w copied rule: read_ahead_loop.induct)
  case (1 read_first buffers current current_len reader w copied)
  show ?case
  proof (cases "current_len = 0")
    case True
    with 1 show ?thesis by (simp add: read_ahead_loop.simps)
  next
    case False
    obtain r w1 where wr: "write_all_with_stall_timeout w (buffers ! current) = (r, w1)" by fastforce
    obtain read reader' where read: "read_buf reader = (read, reader')" by fastforce
    have next_eq: "relay_copy_loop reader w' k = relay_copy_loop (read # reader') w' k" for w' k
      using read by (auto simp: read_buf_def split: list.splits)
    have sel: "(case if P then Some read else None of Some result \<Rightarrow> result | None \<Rightarrow> read) = read" for P
      by simp
    have later: "read_ahead_loop (tl read_first) (buffers[1 - current := data]) (1 - current) (length data) reader' w1
        (copied + of_nat current_len) = relay_copy_loop (Ok data # reader') w1 (copied + of_nat current_len)"
      if "r = Ok ()" "read = Ok data" for data
    proof -
      have "(Ok (), w1) = write_all_with_stall_timeout w (take current_len (buffers ! current))"
        using wr that(1) 1(4) by simp
      from 1(1) [OF False refl refl read [symmetric] refl this refl, of data] that 1(2,3) show ?thesis
        by (simp add: sel nth_list_update)
    qed
    show ?thesis
      using 1(2,3,4) False wr read later next_eq
      by (cases r; cases read) (simp_all add: read_ahead_loop.simps [of read_first] Let_def)
  qed
qed

text \<open>
  C28: copying with read-ahead is the plain copy: whatever the order in which the concurrent reads
  and writes end, result, byte count and written bytes are those of the loop that reads and writes
  in turn, so a read error never cuts off the write before it.
\<close>

theorem read_ahead_is_plain_copy:
  "relay_copy_read_ahead_with_stall_timeout read_first reader w = relay_copy_with_stall_timeout reader w"
proof (cases reader)
  case Nil
  then show ?thesis
    by (simp add: relay_copy_read_ahead_with_stall_timeout_def relay_copy_with_stall_timeout_def
        read_buf_def read_ahead_loop.simps)
next
  case (Cons r rs)
  then show ?thesis
    by (cases r) (simp_all add: relay_copy_read_ahead_with_stall_timeout_def
        relay_copy_with_stall_timeout_def read_buf_def read_ahead_loop_eq)
qed

section \<open>What a relay delivers\<close>

fun read_to_end :: "Reader \<Rightarrow> bytes option" where
  "read_to_end [] = Some []"
| "read_to_end (Err e # reads) = None"
| "read_to_end (Ok b # reads) = (if b = [] then Some [] else map_option ((@) b) (read_to_end reads))"

fun chunks_to_end :: "ChunkReader \<Rightarrow> bytes option" where
  "chunks_to_end [] = Some []"
| "chunks_to_end (Err e # reads) = None"
| "chunks_to_end (Ok batch # reads) = map_option ((@) (concat batch)) (chunks_to_end reads)"

text \<open>\<^verbatim>\<open>read_chunks\<close> yields no empty chunk.\<close>

definition nonempty_chunks :: "ChunkReader \<Rightarrow> bool" where
  "nonempty_chunks reads \<longleftrightarrow> list_all (\<lambda>r. case r of Ok batch \<Rightarrow> [] \<notin> set batch | Err _ \<Rightarrow> True) reads"

lemma relay_copy_loop_Ok:
  "relay_copy_loop reads w k = (Ok n, w') \<Longrightarrow>
     \<exists>data. read_to_end reads = Some data \<and> same_controls w w' \<and> w_out w' = w_out w @ data
       \<and> n = k + of_nat (length data)"
proof (induction reads w k rule: relay_copy_loop.induct)
  case (3 buffer reads w copied)
  show ?case
  proof (cases "buffer = []")
    case True
    with 3 show ?thesis by (auto simp: flush_copied_def writer_flush_def split: option.splits)
  next
    case False
    with 3(2) obtain u w1 where w1: "write_all_with_stall_timeout w buffer = (Ok u, w1)"
      and rest: "relay_copy_loop reads w1 (copied + of_nat (length buffer)) = (Ok n, w')"
      by (auto split: prod.splits result.splits)
    from 3(1) [OF False w1 [symmetric] refl rest] write_all_stall_Ok [OF w1] False show ?thesis
      by (auto simp: add.assoc)
  qed
qed (auto simp: flush_copied_def writer_flush_def split: option.splits)

lemma sum_chunk_lengths: "sum_list (map (\<lambda>c. of_nat (length c)) batch) = (of_nat (length (concat batch)) :: u64)"
  by (induction batch) simp_all

lemma relay_quic_chunks_loop_Ok:
  "relay_quic_chunks_loop reads w k = Some (Ok n, w') \<Longrightarrow> nonempty_chunks reads \<Longrightarrow>
     \<exists>data. chunks_to_end reads = Some data \<and> same_controls w w' \<and> w_out w' = w_out w @ data
       \<and> n = k + of_nat (length data)"
proof (induction reads w k rule: relay_quic_chunks_loop.induct)
  case (3 batch reads w copied)
  from 3(3) have ne: "[] \<notin> set batch" and reads: "nonempty_chunks reads" by (auto simp: nonempty_chunks_def)
  have v: "write_all_vectored_with_stall_timeout w batch = Some (write_all_with_stall_timeout w (concat batch))"
    using write_vectored_loop_eq [of 0 batch w] ne
    by (simp add: write_all_vectored_with_stall_timeout_def write_all_with_stall_timeout_def pending_chunks_def)
  with 3(2) obtain u w1 where w1: "write_all_with_stall_timeout w (concat batch) = (Ok u, w1)"
    and rest: "relay_quic_chunks_loop reads w1 (copied + of_nat (length (concat batch))) = Some (Ok n, w')"
    by (auto simp: sum_chunk_lengths split: prod.splits result.splits)
  from 3(1) [OF v [unfolded w1] refl refl, unfolded sum_chunk_lengths, OF rest reads] write_all_stall_Ok [OF w1]
  show ?case by (auto simp: add.assoc)
qed (auto simp: flush_copied_def writer_flush_def split: option.splits)

lemma client_to_target_task_Ok:
  assumes "client_to_target_task initial reads w = (Finished (Ok n), w')" and "nonempty_chunks reads"
  shows "\<exists>data. chunks_to_end reads = Some data \<and> w_out w' = w_out w @ initial @ data \<and> w_shutdown w'
    \<and> n = of_nat (length (initial @ data))"
proof -
  obtain e w1 where e: "(if initial = [] then (WriteDone, w) else write_all w initial) = (e, w1)" by fastforce
  with assms(1) obtain m w2 where "e = WriteDone" and c: "relay_quic_chunks_loop reads w1 0 = Some (Ok m, w2)"
    and w': "writer_shutdown w2 = (Ok (), w')" "n = of_nat (length initial) + m"
    by (auto simp: client_to_target_task_def relay_quic_chunks_to_target_with_stall_timeout_def
        split: prod.splits result.splits option.splits write_end.splits)
  with e write_all_taken [of w initial e w1] have "w_out w1 = w_out w @ initial" by (auto split: if_splits)
  with relay_quic_chunks_loop_Ok [OF c assms(2)] w' show ?thesis
    by (auto simp: writer_shutdown_def split: option.splits)
qed

lemma target_to_client_task_Ok:
  assumes "target_to_client_task read_first kind reads q = (Finished (Ok n), w')"
  shows "\<exists>data. read_to_end reads = Some data \<and> w_out w' = w_out (qs_writer q) @ data \<and> w_shutdown w'
    \<and> n = of_nat (length data)"
proof -
  have copy: "(case kind of Plain \<Rightarrow> relay_copy_read_ahead_with_stall_timeout read_first reads (qs_writer q)
      | Boxed \<Rightarrow> relay_copy_with_stall_timeout reads (qs_writer q)) = relay_copy_loop reads (qs_writer q) 0"
    by (cases kind; cases reads; cases "hd reads")
      (simp_all add: relay_copy_with_stall_timeout_def relay_copy_read_ahead_with_stall_timeout_def
        read_buf_def read_ahead_loop_eq)
  with assms obtain w1 where c: "relay_copy_loop reads (qs_writer q) 0 = (Ok n, w1)"
    and w': "quic_finish w1 = (Ok (), w')"
    by (auto simp: target_to_client_task_def split: prod.splits result.splits option.splits)
  with relay_copy_loop_Ok [OF c] show ?thesis by (auto simp: quic_finish_def split: if_splits)
qed

lemma join_directions_Ok:
  assumes "join_directions (if client_first then [(ClientToTarget, c), (TargetToClient, t)]
      else [(TargetToClient, t), (ClientToTarget, c)]) None None = Some (Ok ends)"
  shows "\<exists>n m. c = Finished (Ok n) \<and> t = Finished (Ok m) \<and> ends = (Some n, Some m)"
proof (cases c)
  case (Finished r)
  with assms show ?thesis by (cases t; cases r; cases "case t of Finished r' \<Rightarrow> r' | _ \<Rightarrow> Err ClosedStream")
      (auto split: if_splits)
next
  case (Panicked p)
  with assms show ?thesis by (cases t; cases "case t of Finished r' \<Rightarrow> r' | _ \<Rightarrow> Err ClosedStream")
      (auto split: if_splits)
next
  case Hangs
  with assms show ?thesis by (cases t; cases "case t of Finished r' \<Rightarrow> r' | _ \<Rightarrow> Err ClosedStream")
      (auto split: if_splits)
qed

lemma relay_tcp_proxy_stream_done:
  assumes "relay_tcp_proxy_stream client_first read_first quic_send quic_recv target initial =
      (Some (Ok report), target_write, quic_write)"
    and "nonempty_chunks quic_recv"
  shows "\<exists>from_client from_target.
      chunks_to_end quic_recv = Some from_client \<and> read_to_end (ts_reader target) = Some from_target
    \<and> w_out target_write = w_out (ts_writer target) @ initial @ from_client \<and> w_shutdown target_write
    \<and> w_out quic_write = w_out (qs_writer quic_send) @ from_target \<and> w_shutdown quic_write
    \<and> report = \<lparr>tr_target = ts_peer_addr target,
        tr_bytes_from_client = of_nat (length (initial @ from_client)),
        tr_bytes_from_target = of_nat (length from_target)\<rparr>"
proof -
  obtain c tw where c: "client_to_target_task initial quic_recv (ts_writer target) = (c, tw)" by fastforce
  obtain t qw where t: "target_to_client_task read_first (ts_kind target) (ts_reader target) quic_send = (t, qw)"
    by fastforce
  from assms(1) c t obtain ends where w: "tw = target_write" "qw = quic_write"
    and j: "join_directions (if client_first then [(ClientToTarget, c), (TargetToClient, t)]
      else [(TargetToClient, t), (ClientToTarget, c)]) None None = Some (Ok ends)"
    and e: "assemble_report (ts_peer_addr target) ends = Ok report"
    by (auto simp: relay_tcp_proxy_stream_def Let_def and_then_Ok_iff)
  from join_directions_Ok [OF j] obtain n m where n: "c = Finished (Ok n)" and m: "t = Finished (Ok m)"
    and "ends = (Some n, Some m)" by blast
  with e have r: "report = \<lparr>tr_target = ts_peer_addr target, tr_bytes_from_client = n, tr_bytes_from_target = m\<rparr>"
    by (simp add: assemble_report_def)
  note c = c [unfolded n w] and t = t [unfolded m w]
  from client_to_target_task_Ok [OF c assms(2)] target_to_client_task_Ok [OF t] r
  show ?thesis by auto
qed

text \<open>
  C6: a TCP relay that completes has delivered everything, in both directions and for every order
  in which they end: the target got the payload that came with the header and then every byte of the
  client's stream, followed by a shutdown; the QUIC stream got every byte the target sent, followed by
  its end; and the report counts exactly these bytes.
\<close>

theorem tcp_relay_exact:
  assumes "relay_tcp_proxy_stream client_first read_first quic_send quic_recv target initial =
      (Some (Ok report), target_write, quic_write)"
    and "nonempty_chunks quic_recv"
  shows "\<exists>from_client from_target.
      chunks_to_end quic_recv = Some from_client \<and> read_to_end (ts_reader target) = Some from_target
    \<and> w_out target_write = w_out (ts_writer target) @ initial @ from_client \<and> w_shutdown target_write
    \<and> w_out quic_write = w_out (qs_writer quic_send) @ from_target \<and> w_shutdown quic_write
    \<and> report = \<lparr>tr_target = ts_peer_addr target,
        tr_bytes_from_client = of_nat (length (initial @ from_client)),
        tr_bytes_from_target = of_nat (length from_target)\<rparr>"
  using assms by (rule relay_tcp_proxy_stream_done)

theorem tcp_relay_exact_witness:
  "\<exists>target_write quic_write report.
     relay_tcp_proxy_stream False [True] \<lparr>qs_writer = demo_writer [Accept 1], qs_stopped = Some (Ok None)\<rparr>
       [Ok [[3], [4, 5]]]
       \<lparr>ts_kind = Plain, ts_peer_addr = \<lparr>sa_ip = V4 1, sa_port = 80\<rparr>, ts_reader = [Ok [7], Ok [8, 9]],
        ts_writer = demo_writer [Accept 2, Accept 1]\<rparr> [1, 2]
     = (Some (Ok report), target_write, quic_write)
   \<and> w_out target_write = [1, 2, 3, 4, 5] \<and> w_out quic_write = [7, 8, 9]
   \<and> tr_bytes_from_client report = 5 \<and> tr_bytes_from_target report = 3"
proof -
  let ?q = "\<lparr>qs_writer = demo_writer [Accept 1], qs_stopped = Some (Ok None)\<rparr>"
  let ?t = "\<lparr>ts_kind = Plain, ts_peer_addr = \<lparr>sa_ip = V4 1, sa_port = 80\<rparr>, ts_reader = [Ok [7], Ok [8, 9]],
        ts_writer = demo_writer [Accept 2, Accept 1]\<rparr>"
  note eval = write_all.simps writer_write_def demo_writer_def within_stall_timeout_def
    write_all_with_stall_timeout_def flush_copied_def writer_flush_def
  have "\<exists>w. client_to_target_task [1, 2] [Ok [[3], [4, 5]]] (ts_writer ?t) = (Finished (Ok 5), w)"
    using write_vectored_loop_eq [of 0 "[[3], [4, 5]]"]
    by (simp add: client_to_target_task_def relay_quic_chunks_to_target_with_stall_timeout_def eval
        write_all_vectored_with_stall_timeout_def pending_chunks_def writer_shutdown_def)
  moreover have "\<exists>w. target_to_client_task [True] Plain [Ok [7], Ok [8, 9]] ?q = (Finished (Ok 3), w)"
    by (simp add: target_to_client_task_def relay_copy_read_ahead_with_stall_timeout_def read_buf_def
        read_ahead_loop_eq eval quic_finish_def)
  ultimately obtain tw qw report where
    r: "relay_tcp_proxy_stream False [True] ?q [Ok [[3], [4, 5]]] ?t [1, 2] = (Some (Ok report), tw, qw)"
    by (auto simp: relay_tcp_proxy_stream_def Let_def assemble_report_def)
  from tcp_relay_exact [OF r] r show ?thesis
    by (auto simp: nonempty_chunks_def demo_writer_def)
qed

text \<open>
  The payload that comes with the header escapes the stall timeout. Where the target takes
  nothing, bytes that arrive after the header end the relay with a timeout, while the same bytes
  arriving together with the header block the direction for as long as the target is silent.
\<close>

theorem initial_payload_write_unbounded:
  assumes "payload \<noteq> []" and "w_replies w = Block # replies"
  shows "fst (client_to_target_task payload reads w) = Hangs
    \<and> fst (client_to_target_task [] (Ok [payload] # reads) w) = Finished (Err (Io (IoError TimedOut None)))"
proof -
  have "write_all w payload = (WriteStalled, w\<lparr>w_replies := replies\<rparr>)"
    using assms by (simp add: write_all.simps writer_write_def)
  then show ?thesis using assms write_vectored_loop_eq [of 0 "[payload]" w]
    by (simp add: client_to_target_task_def relay_quic_chunks_to_target_with_stall_timeout_def
        write_all_vectored_with_stall_timeout_def within_stall_timeout_def pending_chunks_def)
qed

theorem initial_payload_write_unbounded_witness:
  "fst (client_to_target_task [1] [] (demo_writer [Block])) = Hangs
    \<and> fst (client_to_target_task [] [Ok [[1]]] (demo_writer [Block]))
        = Finished (Err (Io (IoError TimedOut None)))"
  using initial_payload_write_unbounded [of "[1]" "demo_writer [Block]" "[]" "[]"]
  by (simp add: demo_writer_def)

end
