(* ===== verification/Config.thy ===== *)
theory Config
  imports DialerLink
begin

text \<open>
  The configuration crate, \<^verbatim>\<open>crates/zuicity-config/src/lib.rs\<close>: the raw JSON shape, client and
  server validation, the structured SOCKS5 outbound and its environment overrides, forward
  rules, TLS server names and Go-style numbers. A \<^verbatim>\<open>BTreeMap\<close> is the list of its entries in key
  order. JSON, UUID, URL, base64 and hex decoding are arguments.
\<close>

section \<open>Congestion control\<close>

datatype CongestionControl = CcBbr | CcCubic | CcNewReno

datatype FwmarkParseErrorKind = Syntax | Range

datatype ConfigError =
    Read IoError
  | Json string
  | UuidError string
  | MissingClientEntryPoint
  | MissingServerListen
  | InvalidUserUuid string string
  | InvalidPinnedCertChainSha256
  | InvalidCongestionControl string
  | InvalidFwmark string FwmarkParseErrorKind
  | InvalidSendThrough string string
  | InvalidOutbound string
  | ConflictingOutboundAndDialerLink

definition CongestionControl_parse :: "string \<Rightarrow> (CongestionControl, ConfigError) result" where
  "CongestionControl_parse value =
     (if value = ''bbr'' then Ok CcBbr
      else if value = ''cubic'' then Ok CcCubic
      else if value = ''new_reno'' then Ok CcNewReno
      else Err (InvalidCongestionControl value))"

fun CongestionControl_as_str :: "CongestionControl \<Rightarrow> string" where
  "CongestionControl_as_str CcBbr = ''bbr''"
| "CongestionControl_as_str CcCubic = ''cubic''"
| "CongestionControl_as_str CcNewReno = ''new_reno''"

fun FwmarkParseErrorKind_text :: "FwmarkParseErrorKind \<Rightarrow> string" where
  "FwmarkParseErrorKind_text Syntax = ''invalid syntax''"
| "FwmarkParseErrorKind_text Range = ''value out of range''"

section \<open>Raw and validated configuration\<close>

record RawOutboundConfig =
  ob_type :: string
  ob_server :: string
  ob_server_port :: "u16 option"
  ob_username :: string
  ob_password :: string
  ob_version :: string

definition RawOutboundConfig_default :: RawOutboundConfig where
  "RawOutboundConfig_default =
     \<lparr>ob_type = [], ob_server = [], ob_server_port = None, ob_username = [], ob_password = [],
      ob_version = []\<rparr>"

record RawConfig =
  rc_listen :: string
  rc_server :: string
  rc_uuid :: string
  rc_password :: string
  rc_sni :: string
  rc_allow_insecure :: bool
  rc_pinned_certchain_sha256 :: string
  rc_forward :: "(string \<times> string) list"
  rc_users :: "(string \<times> string) list"
  rc_certificate :: string
  rc_private_key :: string
  rc_fwmark :: string
  rc_send_through :: string
  rc_dialer_link :: string
  rc_outbound :: "RawOutboundConfig option"
  rc_protect_path :: string
  rc_disable_outbound_udp443 :: bool
  rc_congestion_control :: string
  rc_log_level :: string

definition RawConfig_default :: RawConfig where
  "RawConfig_default =
     \<lparr>rc_listen = [], rc_server = [], rc_uuid = [], rc_password = [], rc_sni = [],
      rc_allow_insecure = False, rc_pinned_certchain_sha256 = [], rc_forward = [], rc_users = [],
      rc_certificate = [], rc_private_key = [], rc_fwmark = [], rc_send_through = [],
      rc_dialer_link = [], rc_outbound = None, rc_protect_path = [],
      rc_disable_outbound_udp443 = False, rc_congestion_control = [], rc_log_level = []\<rparr>"

record ClientConfig =
  cc_raw :: RawConfig
  cc_uuid :: Uuid
  cc_congestion_control :: "CongestionControl option"
  cc_pinned_certchain_sha256 :: "bytes option"

record ForwardRule =
  fr_local_addr :: string
  fr_remote_addr :: string
  fr_relay_tcp :: bool
  fr_relay_udp :: bool

record ServerConfig =
  sc_raw :: RawConfig
  sc_users :: "(Uuid \<times> string) list"
  sc_congestion_control :: "CongestionControl option"
  sc_fwmark :: "u32 option"
  sc_send_through :: "IpAddr option"
  sc_dialer_link :: "string option"

section \<open>Go-style numbers\<close>

definition go_parse_uint_base0_digits :: "string \<Rightarrow> (string \<times> nat) option" where
  "go_parse_uint_base0_digits value =
     (if value = [] then None
      else case or_else (strip_prefix value ''0x'') (strip_prefix value ''0X'') of
          Some hex \<Rightarrow> Some (hex, 16)
        | None \<Rightarrow>
            (case or_else (strip_prefix value ''0b'') (strip_prefix value ''0B'') of
               Some binary \<Rightarrow> Some (binary, 2)
             | None \<Rightarrow>
                 (case or_else (strip_prefix value ''0o'') (strip_prefix value ''0O'') of
                    Some octal \<Rightarrow> Some (octal, 8)
                  | None \<Rightarrow>
                      if length value > 1 \<and> starts_with value ''0'' then Some (drop 1 value, 8)
                      else Some (value, 10))))"

definition go_digit :: "char \<Rightarrow> nat option" where
  "go_digit c =
     (let b = of_char c :: nat in
      if 48 \<le> b \<and> b \<le> 57 then Some (b - 48)
      else if 97 \<le> b \<and> b \<le> 122 then Some (b - 97 + 10)
      else if 65 \<le> b \<and> b \<le> 90 then Some (b - 65 + 10)
      else None)"

text \<open>The loop over the digits, with its four variables; the value stays below \<open>2 ^ 32\<close>.\<close>

fun go_digits_loop ::
    "nat \<Rightarrow> string \<Rightarrow> nat \<Rightarrow> bool \<Rightarrow> bool \<Rightarrow> bool \<Rightarrow> (u32, FwmarkParseErrorKind) result" where
  "go_digits_loop radix [] value seen_digit previous_was_digit overflowed =
     (if \<not> seen_digit \<or> \<not> previous_was_digit then Err Syntax
      else if overflowed then Err Range
      else Ok (of_nat value))"
| "go_digits_loop radix (c # cs) value seen_digit previous_was_digit overflowed =
     (if c = CHR ''_'' then
        (if \<not> previous_was_digit then Err Syntax
         else go_digits_loop radix cs value seen_digit False overflowed)
      else case go_digit c of
          None \<Rightarrow> Err Syntax
        | Some digit \<Rightarrow>
            if radix \<le> digit then Err Syntax
            else
              (let next = value * radix + digit in
               if \<not> overflowed \<and> next \<le> 4294967295 then
                 go_digits_loop radix cs next True True overflowed
               else go_digits_loop radix cs value True True True))"

definition parse_u32_digits_with_go_underscores ::
    "string \<Rightarrow> nat \<Rightarrow> (u32, FwmarkParseErrorKind) result" where
  "parse_u32_digits_with_go_underscores digits radix = go_digits_loop radix digits 0 False False False"

definition parse_u32_base0 :: "string \<Rightarrow> (u32, FwmarkParseErrorKind) result" where
  "parse_u32_base0 value =
     and_then (ok_or (go_parse_uint_base0_digits value) Syntax) (\<lambda>(digits, radix).
       parse_u32_digits_with_go_underscores digits radix)"

section \<open>Forward rules and server names\<close>

definition parse_forward_rule :: "string \<Rightarrow> string \<Rightarrow> ForwardRule" where
  "parse_forward_rule local_addr remote_addr =
     (let parts = split_char CHR ''/'' local_addr;
          suffixes = tl parts;
          relay = (if suffixes = [] then (True, True)
                   else foldl (\<lambda>(tcp, udp) suffix.
                       if suffix = ''tcp'' then (True, udp)
                       else if suffix = ''udp'' then (tcp, True)
                       else (tcp, udp)) (False, False) suffixes)
      in \<lparr>fr_local_addr = hd parts, fr_remote_addr = remote_addr,
          fr_relay_tcp = fst relay, fr_relay_udp = snd relay\<rparr>)"

definition forward_rules :: "ClientConfig \<Rightarrow> ForwardRule list" where
  "forward_rules config =
     map (\<lambda>(local_addr, remote_addr). parse_forward_rule local_addr remote_addr) (rc_forward (cc_raw config))"

definition split_host_port_host :: "string \<Rightarrow> string option" where
  "split_host_port_host value =
     (case rsplit_once CHR '':'' value of
        None \<Rightarrow> None
      | Some (host, port) \<Rightarrow>
          if host = [] \<or> port = [] then None
          else if starts_with host ''['' \<and> ends_with host '']'' then
            Some (slice 1 (length host - 1) host)
          else if CHR '':'' \<in> set host then None
          else Some host)"

definition tls_server_name :: "ClientConfig \<Rightarrow> string" where
  "tls_server_name config =
     (if rc_sni (cc_raw config) \<noteq> [] then rc_sni (cc_raw config)
      else unwrap_or (split_host_port_host (rc_server (cc_raw config))) [])"

section \<open>The SOCKS5 outbound\<close>

definition unreserved :: "byte \<Rightarrow> bool" where
  "unreserved b \<longleftrightarrow>
     (0x41 \<le> b \<and> b \<le> 0x5A) \<or> (0x61 \<le> b \<and> b \<le> 0x7A) \<or> (0x30 \<le> b \<and> b \<le> 0x39)
     \<or> b \<in> {0x2D, 0x5F, 0x2E, 0x7E}"

definition percent_encode_userinfo :: "string \<Rightarrow> string" where
  "percent_encode_userinfo value =
     concat (map (\<lambda>b. if unreserved b then [char_of_byte b] else CHR ''%'' # upper_hex2 b) (as_bytes value))"

definition socks5_dialer_link_from_outbound ::
    "Libs \<Rightarrow> RawOutboundConfig \<Rightarrow> (string, ConfigError) result" where
  "socks5_dialer_link_from_outbound libs outbound =
     (let outbound_type = (if ob_type outbound = [] then ''socks5'' else ob_type outbound) in
      if \<not> eq_ignore_ascii_case outbound_type ''socks5'' \<and> outbound_type \<noteq> ''5'' then
        Err (InvalidOutbound (''unsupported type `'' @ outbound_type @ ''`; only socks5 is supported''))
      else if ob_version outbound \<noteq> [] \<and> ob_version outbound \<noteq> ''5'' then
        Err (InvalidOutbound (''unsupported version `'' @ ob_version outbound @ ''`; only 5 is supported''))
      else if trim (ob_server outbound) = [] then Err (InvalidOutbound ''server is required'')
      else
        and_then (ok_or (ob_server_port outbound) (InvalidOutbound ''server_port is required'')) (\<lambda>port.
        if port = 0 then Err (InvalidOutbound ''server_port must be non-zero'')
        else
          (let host = trim (ob_server outbound);
               authority = (if CHR '':'' \<in> set host \<and> \<not> starts_with host ''['' then ''['' @ host @ '']'' else host);
               endpoint_error = InvalidOutbound ''server must be a valid hostname or IP address''
           in
           and_then (map_err (\<lambda>_. endpoint_error)
               (lib_url_parse libs (''socks5://'' @ authority @ '':'' @ dec_string (unat port)))) (\<lambda>endpoint.
           if url_host_str endpoint = None \<or> url_port endpoint \<noteq> Some port \<or> url_username endpoint \<noteq> []
              \<or> url_password endpoint \<noteq> None \<or> url_query endpoint \<noteq> None \<or> url_fragment endpoint \<noteq> None then
             Err endpoint_error
           else if length (ob_username outbound) > 255 \<or> length (ob_password outbound) > 255 then
             Err (InvalidOutbound ''SOCKS5 username and password must each be at most 255 bytes'')
           else
             and_then
               (case (ob_username outbound = [], ob_password outbound = []) of
                  (True, True) \<Rightarrow> Ok []
                | (False, False) \<Rightarrow>
                    Ok (percent_encode_userinfo (ob_username outbound) @ '':''
                        @ percent_encode_userinfo (ob_password outbound) @ ''@'')
                | _ \<Rightarrow>
                    Err (InvalidOutbound
                      ''SOCKS5 username and password must either both be set or both be empty''))
               (\<lambda>userinfo. Ok (''socks5://'' @ userinfo @ authority @ '':'' @ dec_string (unat port)))))))"

record ServerOutboundEnvValues =
  ev_type :: "string option"
  ev_server :: "string option"
  ev_port :: "string option"
  ev_username :: "string option"
  ev_password :: "string option"

definition non_empty_env_value :: "string option \<Rightarrow> string option" where
  "non_empty_env_value value = filter_nonempty value"

text \<open>\<^verbatim>\<open>if field.is_empty() && let Some(value) = env { field = value }\<close>\<close>

definition fill_empty :: "string \<Rightarrow> string option \<Rightarrow> string" where
  "fill_empty field env = (if field = [] then unwrap_or env [] else field)"

definition env_port_error :: ConfigError where
  "env_port_error = InvalidOutbound ''ZUICITY_OUTBOUND_PORT must be an integer from 1 through 65535''"

text \<open>
  The configuration is updated in place: the second component is its state afterwards, also when
  the port is invalid.
\<close>

definition apply_server_outbound_env_values ::
    "RawConfig \<Rightarrow> ServerOutboundEnvValues \<Rightarrow> (unit, ConfigError) result \<times> RawConfig" where
  "apply_server_outbound_env_values raw env_values =
     (let env_type = non_empty_env_value (ev_type env_values);
          env_server = non_empty_env_value (ev_server env_values);
          env_port = non_empty_env_value (ev_port env_values);
          env_username = non_empty_env_value (ev_username env_values);
          env_password = non_empty_env_value (ev_password env_values)
      in
      if env_type = None \<and> env_server = None \<and> env_port = None \<and> env_username = None \<and> env_password = None
      then (Ok (), raw)
      else
        (let outbound = unwrap_or (rc_outbound raw) RawOutboundConfig_default;
             outbound = outbound\<lparr>ob_type := fill_empty (ob_type outbound) env_type,
                                 ob_server := fill_empty (ob_server outbound) env_server\<rparr>;
             port = (case (ob_server_port outbound, env_port) of
                       (None, Some value) \<Rightarrow>
                         (case parse_u16 value of
                            None \<Rightarrow> Err env_port_error
                          | Some port \<Rightarrow> if port = 0 then Err env_port_error else Ok (Some port))
                     | (current, _) \<Rightarrow> Ok current)
         in case port of
              Err e \<Rightarrow> (Err e, raw\<lparr>rc_outbound := Some outbound\<rparr>)
            | Ok port \<Rightarrow>
                (Ok (), raw\<lparr>rc_outbound := Some
                   (outbound\<lparr>ob_server_port := port,
                             ob_username := fill_empty (ob_username outbound) env_username,
                             ob_password := fill_empty (ob_password outbound) env_password\<rparr>)\<rparr>)))"

definition apply_server_outbound_env_overrides ::
    "(string \<Rightarrow> string option) \<Rightarrow> RawConfig \<Rightarrow> (unit, ConfigError) result \<times> RawConfig" where
  "apply_server_outbound_env_overrides env_var raw =
     apply_server_outbound_env_values raw
       \<lparr>ev_type = env_var ''ZUICITY_OUTBOUND_TYPE'', ev_server = env_var ''ZUICITY_OUTBOUND_SERVER'',
        ev_port = env_var ''ZUICITY_OUTBOUND_PORT'', ev_username = env_var ''ZUICITY_OUTBOUND_USERNAME'',
        ev_password = env_var ''ZUICITY_OUTBOUND_PASSWORD''\<rparr>"

definition resolve_server_dialer_link :: "Libs \<Rightarrow> RawConfig \<Rightarrow> (string option, ConfigError) result" where
  "resolve_server_dialer_link libs raw =
     and_then (transpose_result (map_option (socks5_dialer_link_from_outbound libs) (rc_outbound raw)))
       (\<lambda>from_outbound.
     (let from_dialer_link = (if rc_dialer_link raw \<noteq> [] then Some (rc_dialer_link raw) else None) in
      case (from_outbound, from_dialer_link) of
        (None, None) \<Rightarrow> Ok None
      | (Some link, None) \<Rightarrow> Ok (Some link)
      | (None, Some link) \<Rightarrow> Ok (Some link)
      | (Some outbound_link, Some dialer_link) \<Rightarrow>
          if outbound_link = dialer_link then Ok (Some outbound_link)
          else Err ConflictingOutboundAndDialerLink))"

section \<open>Validation\<close>

definition optional_known_congestion_control :: "string \<Rightarrow> CongestionControl option" where
  "optional_known_congestion_control value =
     (if value = [] then None
      else case CongestionControl_parse value of Ok c \<Rightarrow> Some c | Err _ \<Rightarrow> None)"

text \<open>\<open>hex_decode\<close> is \<^verbatim>\<open>hex::decode\<close>.\<close>

definition optional_pin_hash ::
    "Libs \<Rightarrow> (string \<Rightarrow> bytes option) \<Rightarrow> string \<Rightarrow> (bytes option, ConfigError) result" where
  "optional_pin_hash libs hex_decode value =
     (if value = [] then Ok None
      else
        map_ok Some
          (map_err (\<lambda>_. InvalidPinnedCertChainSha256)
            (result_or_else (lib_base64_decode libs URL_SAFE value)
            (result_or_else (lib_base64_decode libs URL_SAFE_NO_PAD value)
            (result_or_else (lib_base64_decode libs STANDARD value)
            (result_or_else (lib_base64_decode libs STANDARD_NO_PAD value)
            (ok_or (hex_decode value) (OtherDecodeError []))))))))"

definition validate_client ::
    "Libs \<Rightarrow> (string \<Rightarrow> bytes option) \<Rightarrow> RawConfig \<Rightarrow> (ClientConfig, ConfigError) result" where
  "validate_client libs hex_decode raw =
     and_then (map_err UuidError (lib_uuid_parse libs (rc_uuid raw))) (\<lambda>uuid.
     and_then (optional_pin_hash libs hex_decode (rc_pinned_certchain_sha256 raw)) (\<lambda>pin.
     Ok \<lparr>cc_raw = raw, cc_uuid = uuid,
         cc_congestion_control = optional_known_congestion_control (rc_congestion_control raw),
         cc_pinned_certchain_sha256 = pin\<rparr>))"

text \<open>\<^verbatim>\<open>BTreeMap::insert\<close>\<close>

fun btree_insert :: "'k :: linorder \<Rightarrow> 'v \<Rightarrow> ('k \<times> 'v) list \<Rightarrow> ('k \<times> 'v) list" where
  "btree_insert k v [] = [(k, v)]"
| "btree_insert k v ((k', v') # rest) =
     (if k < k' then (k, v) # (k', v') # rest
      else if k = k' then (k, v) # rest
      else (k', v') # btree_insert k v rest)"

fun parse_users ::
    "Libs \<Rightarrow> (string \<times> string) list \<Rightarrow> (Uuid \<times> string) list \<Rightarrow> ((Uuid \<times> string) list, ConfigError) result" where
  "parse_users libs [] users = Ok users"
| "parse_users libs ((uuid, password) # rest) users =
     and_then (map_err (InvalidUserUuid uuid) (lib_uuid_parse libs uuid)) (\<lambda>parsed.
       parse_users libs rest (btree_insert parsed password users))"

definition validate_server :: "Libs \<Rightarrow> RawConfig \<Rightarrow> (ServerConfig, ConfigError) result" where
  "validate_server libs raw =
     and_then (parse_users libs (rc_users raw) []) (\<lambda>users.
     and_then
       (if rc_fwmark raw = [] then Ok None
        else map_ok Some (map_err (InvalidFwmark (rc_fwmark raw)) (parse_u32_base0 (rc_fwmark raw))))
       (\<lambda>mark.
     and_then
       (if rc_send_through raw = [] then Ok None
        else map_ok Some
          (ok_or (parse_ip (rc_send_through raw))
             (InvalidSendThrough (rc_send_through raw) ''invalid IP address syntax'')))
       (\<lambda>source.
     and_then (resolve_server_dialer_link libs raw) (\<lambda>link.
     Ok \<lparr>sc_raw = (case link of None \<Rightarrow> raw | Some l \<Rightarrow> raw\<lparr>rc_dialer_link := l\<rparr>),
         sc_users = users,
         sc_congestion_control = optional_known_congestion_control (rc_congestion_control raw),
         sc_fwmark = mark,
         sc_send_through = source,
         sc_dialer_link = link\<rparr>))))"

section \<open>Loading\<close>

datatype 'o JsonValue = JObject 'o | JNull | JArray | JString | JNumber | JBool

definition non_object_config_error :: "'o JsonValue \<Rightarrow> string" where
  "non_object_config_error value =
     ''config must be a JSON object, found ''
     @ (case value of JArray \<Rightarrow> ''array'' | JString \<Rightarrow> ''string'' | JNumber \<Rightarrow> ''number''
        | JBool \<Rightarrow> ''bool'' | JObject _ \<Rightarrow> ''object'' | JNull \<Rightarrow> ''object'')"

definition load_json_str ::
    "(string \<Rightarrow> ('o JsonValue, string) result) \<Rightarrow> ('o \<Rightarrow> (RawConfig, string) result)
     \<Rightarrow> string \<Rightarrow> (RawConfig, ConfigError) result" where
  "load_json_str from_str from_value input =
     and_then (map_err Json (from_str input)) (\<lambda>value.
     case value of
       JObject obj \<Rightarrow> map_err Json (from_value obj)
     | JNull \<Rightarrow> Ok RawConfig_default
     | other \<Rightarrow> Err (Json (non_object_config_error other)))"

definition load_json_file ::
    "(string \<Rightarrow> (string, IoError) result) \<Rightarrow> (string \<Rightarrow> ('o JsonValue, string) result)
     \<Rightarrow> ('o \<Rightarrow> (RawConfig, string) result) \<Rightarrow> string \<Rightarrow> (RawConfig, ConfigError) result" where
  "load_json_file read_to_string from_str from_value path =
     and_then (map_err Read (read_to_string path)) (load_json_str from_str from_value)"

section \<open>Facts on Go-style numbers\<close>

text \<open>Underscores separate digits: none first, none last, none doubled; \<open>prev\<close> is the digit before.\<close>

fun underscores_ok :: "bool \<Rightarrow> string \<Rightarrow> bool" where
  "underscores_ok prev [] = prev"
| "underscores_ok prev (c # cs) =
     (if c = CHR ''_'' then prev \<and> underscores_ok False cs else underscores_ok True cs)"

lemma go_digit_to_digit:
  "radix \<le> 36 \<Longrightarrow> (case go_digit c of None \<Rightarrow> None | Some d \<Rightarrow> if radix \<le> d then None else Some d) = to_digit c radix"
  by (auto simp: go_digit_def to_digit_def Let_def)

definition go_number :: "nat \<Rightarrow> bool \<Rightarrow> nat \<Rightarrow> string \<Rightarrow> nat option" where
  "go_number radix prev value ds =
     (if underscores_ok prev ds then digits_value radix value (filter (\<lambda>c. c \<noteq> CHR ''_'') ds) else None)"

definition go_result :: "nat option \<Rightarrow> (u32, FwmarkParseErrorKind) result" where
  "go_result n = (case n of
       None \<Rightarrow> Err Syntax
     | Some n \<Rightarrow> if n \<le> 4294967295 then Ok (of_nat n) else Err Range)"

lemma go_number_simps:
  "go_number radix prev n [] = (if prev then Some n else None)"
  "go_number radix prev n (c # cs) =
     (if c = CHR ''_'' then (if prev then go_number radix False n cs else None)
      else case to_digit c radix of None \<Rightarrow> None | Some d \<Rightarrow> go_number radix True (n * radix + d) cs)"
  by (auto simp: go_number_def split: option.split)

lemma go_loop_step:
  assumes "radix \<le> 36" and "c \<noteq> CHR ''_''"
  shows "go_digits_loop radix (c # cs) value seen prev overflowed =
    (case to_digit c radix of
       None \<Rightarrow> Err Syntax
     | Some d \<Rightarrow>
         if \<not> overflowed \<and> value * radix + d \<le> 4294967295
         then go_digits_loop radix cs (value * radix + d) True True overflowed
         else go_digits_loop radix cs value True True True)"
  using assms go_digit_to_digit [OF assms(1), of c]
  by (cases "go_digit c") (auto simp: Let_def split: if_splits option.splits)

lemma go_loop_overflowed:
  "radix \<le> 36 \<Longrightarrow> seen \<or> \<not> prev \<Longrightarrow>
     go_digits_loop radix ds value seen prev True =
       (if go_number radix prev n ds = None then Err Syntax else Err Range)"
proof (induction ds arbitrary: n seen prev)
  case (Cons c ds)
  show ?case
  proof (cases "c = CHR ''_''")
    case True
    then show ?thesis using Cons.IH [of seen False n] Cons.prems by (auto simp: go_number_simps)
  next
    case False
    then show ?thesis
      using Cons.IH [of True True "n * radix + the (to_digit c radix)"] Cons.prems
      by (cases "to_digit c radix")
         (simp_all add: go_loop_step go_number_simps del: go_digits_loop.simps)
  qed
qed (auto simp: go_number_simps)

lemma go_number_mono: "go_number radix prev n ds = Some m \<Longrightarrow> 1 \<le> radix \<Longrightarrow> n \<le> m"
  by (auto simp: go_number_def split: if_splits dest: digits_value_mono)

lemma go_loop_correct:
  "1 \<le> radix \<Longrightarrow> radix \<le> 36 \<Longrightarrow> seen \<or> \<not> prev \<Longrightarrow> v \<le> 4294967295 \<Longrightarrow>
     go_digits_loop radix ds v seen prev False = go_result (go_number radix prev v ds)"
proof (induction ds arbitrary: v seen prev)
  case Nil
  then show ?case by (auto simp: go_number_simps go_result_def)
next
  case (Cons c ds)
  show ?case
  proof (cases "c = CHR ''_''")
    case True
    then show ?thesis
      using Cons.IH [of seen False v] Cons.prems by (auto simp: go_number_simps go_result_def)
  next
    case c: False
    show ?thesis
    proof (cases "to_digit c radix")
      case None
      with c Cons.prems show ?thesis
        by (simp add: go_loop_step go_number_simps go_result_def del: go_digits_loop.simps)
    next
      case (Some d)
      let ?n = "v * radix + d"
      show ?thesis
      proof (cases "?n \<le> 4294967295")
        case True
        with c Some Cons.IH [of True True ?n] Cons.prems show ?thesis
          by (simp add: go_loop_step go_number_simps del: go_digits_loop.simps)
      next
        case False
        have "go_result (go_number radix True ?n ds)
            = (if go_number radix True ?n ds = None then Err Syntax else Err Range)"
          using go_number_mono [of radix True ?n ds] False Cons.prems(1)
          by (auto simp: go_result_def split: option.split)
        with c Some False Cons.prems go_loop_overflowed [of radix True True ds v ?n] show ?thesis
          by (simp add: go_loop_step go_number_simps del: go_digits_loop.simps)
      qed
    qed
  qed
qed

section \<open>Facts on percent escapes\<close>

lemma parse_int_upper_hex2: "parse_int 16 255 (upper_hex2 b) = Ok (unat b)"
proof -
  have b: "unat b < 256" using unsigned_less [where 'a = nat, of b] by simp
  then have d: "unat b div 16 < 16" "unat b mod 16 < 16" by simp_all
  have "upper_digit_char (unat b div 16) \<noteq> CHR ''+''"
    using to_digit_upper [of "unat b div 16" 16] d(1) by (auto simp: to_digit_def)
  then have "parse_unsigned 16 255 (upper_hex2 b) = Some (unat b)"
    using b d by (simp add: parse_unsigned_def upper_hex2_def to_digit_upper)
  then show ?thesis by (simp add: parse_int_Ok)
qed

lemma upper_digit_ascii: "d < 16 \<Longrightarrow> byte_of_char (upper_digit_char d) < 0x80"
  by (auto simp: upper_digit_char_def byte_of_char_def word_less_nat_alt unat_of_nat)

lemma percent_decode_escape:
  "percent_decode_bytes raw (0x25 # as_bytes (upper_hex2 b) @ rest) field =
     map_ok (\<lambda>r. b # r) (percent_decode_bytes raw rest field)"
proof -
  have "unat b div 16 < 16" using unsigned_less [where 'a = nat, of b] by simp
  then have "utf8_valid (as_bytes (upper_hex2 b))"
    by (intro utf8_valid_ascii) (auto simp: upper_hex2_def as_bytes_def intro!: upper_digit_ascii)
  moreover obtain h l where hl: "as_bytes (upper_hex2 b) = [h, l]" by (simp add: upper_hex2_def as_bytes_def)
  moreover have "parse_int 16 255 (str_of_bytes [h, l]) = Ok (unat b)"
    using parse_int_upper_hex2 [of b] hl by (metis str_of_bytes_as_bytes)
  ultimately show ?thesis by (simp del: utf8_valid.simps)
qed

lemma percent_decode_encode:
  "percent_decode_bytes raw (as_bytes (percent_encode_userinfo s)) field = Ok (as_bytes s)"
proof (induction s)
  case Nil
  then show ?case by (simp add: percent_encode_userinfo_def as_bytes_def)
next
  case (Cons c s)
  let ?b = "byte_of_char c"
  have "as_bytes (percent_encode_userinfo (c # s)) =
      (if unreserved ?b then [?b] else 0x25 # as_bytes (upper_hex2 ?b)) @ as_bytes (percent_encode_userinfo s)"
    by (simp add: percent_encode_userinfo_def as_bytes_def byte_of_char_def [of "CHR ''%''"])
  moreover have "unreserved ?b \<Longrightarrow> ?b \<noteq> 0x25" by (auto simp: unreserved_def)
  ultimately show ?case
    using Cons percent_decode_escape [of raw ?b] by (auto simp: as_bytes_def)
qed

section \<open>Facts on user tables\<close>

lemma btree_insert_keys: "set (map fst (btree_insert k v xs)) = insert k (set (map fst xs))"
  by (induction k v xs rule: btree_insert.induct) auto

lemma btree_insert_sorted:
  "sorted_wrt (<) (map fst xs) \<Longrightarrow> sorted_wrt (<) (map fst (btree_insert k v xs))"
proof (induction k v xs rule: btree_insert.induct)
  case (2 k v k' v' rest)
  then show ?case using btree_insert_keys [of k v rest] by auto
qed simp

lemma btree_insert_map_of:
  "sorted_wrt (<) (map fst xs) \<Longrightarrow> map_of (btree_insert k v xs) = (map_of xs)(k \<mapsto> v)"
proof (induction k v xs rule: btree_insert.induct)
  case (2 k v k' v' rest)
  have "k < k' \<Longrightarrow> k \<notin> fst ` set rest" using 2(2) by auto
  with 2 show ?case by (auto simp: fun_eq_iff map_of_eq_None_iff split: if_splits)
qed auto

definition parsed_users :: "Libs \<Rightarrow> (string \<times> string) list \<Rightarrow> (Uuid \<times> string) list" where
  "parsed_users libs us =
     map (\<lambda>(u, pw). (case lib_uuid_parse libs u of Ok w \<Rightarrow> w | Err _ \<Rightarrow> 0, pw)) us"

lemma parse_users_Ok:
  "parse_users libs us acc = Ok users \<Longrightarrow> sorted_wrt (<) (map fst acc) \<Longrightarrow>
     sorted_wrt (<) (map fst users) \<and> map_of users = map_of acc ++ map_of (rev (parsed_users libs us))
     \<and> (\<forall>(u, pw)\<in>set us. is_ok (lib_uuid_parse libs u))"
proof (induction us arbitrary: acc)
  case (Cons x us)
  obtain u pw where x: "x = (u, pw)" by (cases x)
  with Cons.prems obtain w where w: "lib_uuid_parse libs u = Ok w"
    "parse_users libs us (btree_insert w pw acc) = Ok users" by (auto simp: result_simps)
  from Cons.IH [OF w(2)] Cons.prems(2) w(1) x show ?case
    by (auto simp: btree_insert_sorted btree_insert_map_of parsed_users_def map_add_def fun_eq_iff
        is_ok_iff split: option.splits)
qed (auto simp: parsed_users_def)

section \<open>Properties\<close>

text \<open>
  Parsing a packet mark is Go's base-0 syntax after the prefix: the digits of the radix with
  single underscores between them; every value up to \<open>2 ^ 32 - 1\<close> is accepted with its value,
  a larger one is a range error, and anything else a syntax error, even if it is too large as
  well. Decimal and \<^verbatim>\<open>0x\<close> text of a mark read back as the mark.
\<close>

theorem fwmark_parse_correct:
  "(\<forall>ds radix. go_parse_uint_base0_digits s = Some (ds, radix) \<longrightarrow>
      parse_u32_base0 s =
        (if underscores_ok False ds then
           (case digits_value radix 0 (filter (\<lambda>c. c \<noteq> CHR ''_'') ds) of
              None \<Rightarrow> Err Syntax
            | Some n \<Rightarrow> if n \<le> 4294967295 then Ok (of_nat n) else Err Range)
         else Err Syntax))
   \<and> parse_u32_base0 (''0x'' @ hex_string (unat w)) = Ok w"
proof (intro conjI allI impI)
  fix ds radix assume d: "go_parse_uint_base0_digits s = Some (ds, radix)"
  then have "1 \<le> radix" "radix \<le> 36"
    by (auto simp: go_parse_uint_base0_digits_def split: if_splits option.splits)
  then show "parse_u32_base0 s =
        (if underscores_ok False ds then
           (case digits_value radix 0 (filter (\<lambda>c. c \<noteq> CHR ''_'') ds) of
              None \<Rightarrow> Err Syntax
            | Some n \<Rightarrow> if n \<le> 4294967295 then Ok (of_nat n) else Err Range)
         else Err Syntax)"
    using d go_loop_correct [of radix False False 0 ds]
    by (simp add: parse_u32_base0_def parse_u32_digits_with_go_underscores_def go_result_def go_number_def)
next
  let ?h = "hex_string (unat w)"
  have hd: "digits_value 16 0 (hex_string n) = Some n" for n
  proof (induction n rule: hex_string.induct)
    case (1 n)
    then show ?case
      by (cases "n < 16") (simp_all add: hex_string.simps [of n] to_digit_digit_char digits_value_append)
  qed
  have digits: "c \<in> set (hex_string n) \<Longrightarrow> to_digit c 16 \<noteq> None" for c n
  proof (induction n rule: hex_string.induct)
    case (1 n)
    then show ?case
      by (cases "n < 16") (auto simp: hex_string.simps [of n] to_digit_digit_char)
  qed
  have us: "CHR ''_'' \<notin> set ?h" using digits [of "CHR ''_''" "unat w"] by (auto simp: to_digit_def)
  have ok: "underscores_ok b cs" if "CHR ''_'' \<notin> set cs" "b \<or> cs \<noteq> []" for b cs
    using that by (induction cs arbitrary: b) auto
  have "?h \<noteq> []" by (subst hex_string.simps) simp
  moreover have "filter (\<lambda>c. c \<noteq> CHR ''_'') ?h = ?h" using us by (auto simp: filter_id_conv)
  ultimately have "go_number 16 False 0 ?h = Some (unat w)"
    using us ok hd by (simp add: go_number_def)
  moreover have "unat w \<le> 4294967295" using unsigned_less [where 'a = nat, of w] by simp
  moreover have "go_parse_uint_base0_digits (''0x'' @ ?h) = Some (?h, 16)"
    by (simp add: go_parse_uint_base0_digits_def strip_prefix_def starts_with_def or_else_def)
  ultimately show "parse_u32_base0 (''0x'' @ ?h) = Ok w"
    using go_loop_correct [of 16 False False 0 ?h]
    by (simp add: parse_u32_base0_def parse_u32_digits_with_go_underscores_def go_result_def)
qed

theorem fwmark_parse_correct_witness:
  "parse_u32_base0 ''0x1F'' = Ok 31 \<and> parse_u32_base0 ''1_000'' = Ok 1000
   \<and> parse_u32_base0 ''0o40000000000'' = Err Range \<and> parse_u32_base0 ''1__0'' = Err Syntax"
proof -
  have d: "go_parse_uint_base0_digits ''0x1F'' = Some (''1F'', 16)"
    "go_parse_uint_base0_digits ''1_000'' = Some (''1_000'', 10)"
    "go_parse_uint_base0_digits ''0o40000000000'' = Some (''40000000000'', 8)"
    "go_parse_uint_base0_digits ''1__0'' = Some (''1__0'', 10)"
    by (simp_all add: go_parse_uint_base0_digits_def strip_prefix_def starts_with_def or_else_def)
  from fwmark_parse_correct [THEN conjunct1, rule_format, OF d(1)]
    fwmark_parse_correct [THEN conjunct1, rule_format, OF d(2)]
    fwmark_parse_correct [THEN conjunct1, rule_format, OF d(3)]
    fwmark_parse_correct [THEN conjunct1, rule_format, OF d(4)]
  show ?thesis by (simp add: to_digit_def)
qed

text \<open>
  C33: the SOCKS5 link built from a structured outbound carries its credentials safely: the
  escaped texts have no character that could end the user part of a URL, and unescaping them, as
  the link parser does, gives back the configured user name and password.
\<close>

theorem outbound_credentials_survive:
  assumes "socks5_dialer_link_from_outbound libs ob = Ok link"
    and "ob_username ob \<noteq> []" and "utf8_string (ob_username ob)" and "utf8_string (ob_password ob)"
  shows "\<exists>user pass authority.
      link = ''socks5://'' @ user @ '':'' @ pass @ ''@'' @ authority
    \<and> set (user @ pass) \<inter> set '':/?#[]@'' = {}
    \<and> percent_decode_utf8 raw user field = Ok (ob_username ob)
    \<and> percent_decode_utf8 raw pass field = Ok (ob_password ob) \<and> ob_password ob \<noteq> []"
proof -
  let ?e = percent_encode_userinfo
  have dec: "percent_decode_utf8 raw (?e s) field = Ok s" if "utf8_string s" for s
    using that by (simp add: percent_decode_utf8_def percent_decode_encode string_from_utf8_def)
  have hex: "upper_digit_char d \<notin> set '':/?#[]@''" if "d < 16" for d
    using to_digit_upper [of d 16] that by (auto simp: to_digit_def)
  have un: "char_of_byte b \<notin> set '':/?#[]@''" if "unreserved b" for b
  proof
    assume "char_of_byte b \<in> set '':/?#[]@''"
    then have "byte_of_char (char_of_byte b) \<in> set (as_bytes '':/?#[]@'')"
      unfolding as_bytes_def set_map by (rule imageI)
    then have "b \<in> set (as_bytes '':/?#[]@'')" by (simp only: byte_of_char_of_byte)
    then have "b \<in> {0x3A, 0x2F, 0x3F, 0x23, 0x5B, 0x5D, 0x40}"
      by (simp add: as_bytes_def byte_of_char_def)
    with that show False by (auto simp: unreserved_def)
  qed
  have safe: "set (?e s) \<inter> set '':/?#[]@'' = {}" for s
  proof -
    define D where "D = set '':/?#[]@''"
    have "unat b div 16 < 16" "unat b mod 16 < 16" for b :: byte
      using unsigned_less [where 'a = nat, of b] by simp_all
    then have "upper_digit_char (unat b div 16) \<notin> D" "upper_digit_char (unat b mod 16) \<notin> D" for b :: byte
      using hex unfolding D_def by blast+
    moreover have "CHR ''%'' \<notin> D" by (simp add: D_def)
    ultimately have "set (if unreserved b then [char_of_byte b] else CHR ''%'' # upper_hex2 b) \<inter> D = {}" for b
      using un [of b] unfolding D_def [symmetric] by (auto simp: upper_hex2_def)
    then show ?thesis unfolding D_def [symmetric] percent_encode_userinfo_def set_concat set_map by blast
  qed
  from assms(1,2) obtain authority where "ob_password ob \<noteq> []"
    "link = ''socks5://'' @ ?e (ob_username ob) @ '':'' @ ?e (ob_password ob) @ ''@'' @ authority"
    by (auto simp: socks5_dialer_link_from_outbound_def result_simps Let_def split: if_splits bool.splits)
  with dec [OF assms(3)] dec [OF assms(4)] safe [of "ob_username ob"] safe [of "ob_password ob"]
  show ?thesis by (intro exI conjI) (assumption | simp add: Int_Un_distrib2)+
qed

definition demo_outbound :: RawOutboundConfig where
  "demo_outbound = RawOutboundConfig_default
     \<lparr>ob_server := ''10.0.0.1'', ob_server_port := Some 1080, ob_username := ''a:b'', ob_password := ''p@/#''\<rparr>"

definition socks_libs :: Libs where
  "socks_libs = demo_libs\<lparr>lib_url_parse := (\<lambda>_. Ok (demo_url
     \<lparr>url_host_str := Some ''10.0.0.1'', url_port := Some 1080, url_username := [], url_password := None,
      url_query := None, url_fragment := None\<rparr>))\<rparr>"

theorem outbound_credentials_survive_witness:
  "\<exists>link user pass authority. socks5_dialer_link_from_outbound socks_libs demo_outbound = Ok link
    \<and> link = ''socks5://'' @ user @ '':'' @ pass @ ''@'' @ authority
    \<and> set (user @ pass) \<inter> set '':/?#[]@'' = {}
    \<and> percent_decode_utf8 [] user [] = Ok ''a:b'' \<and> percent_decode_utf8 [] pass [] = Ok ''p@/#''"
proof -
  let ?link = "''socks5://'' @ (percent_encode_userinfo ''a:b'' @ '':'' @ percent_encode_userinfo ''p@/#'' @ ''@'')
    @ ''10.0.0.1'' @ '':'' @ dec_string 1080"
  have "trim ''10.0.0.1'' = ''10.0.0.1''" by (simp add: trim_eval)
  then have link: "socks5_dialer_link_from_outbound socks_libs demo_outbound = Ok ?link"
    by (simp add: socks5_dialer_link_from_outbound_def socks_libs_def demo_libs_def demo_url_def
        demo_outbound_def RawOutboundConfig_default_def eq_ignore_ascii_case_def to_ascii_lowercase_def
        ascii_lower_def ok_or_def starts_with_def)
  have "utf8_string (ob_username demo_outbound)" "utf8_string (ob_password demo_outbound)"
    "ob_username demo_outbound \<noteq> []"
    by (simp_all add: demo_outbound_def utf8_string_def as_bytes_def byte_of_char_def)
  with outbound_credentials_survive [OF link, of "[]" "[]"] link show ?thesis
    by (fastforce simp: demo_outbound_def)
qed

definition no_env_overrides :: "ServerOutboundEnvValues \<Rightarrow> bool" where
  "no_env_overrides env_values \<longleftrightarrow>
     list_all (\<lambda>v. v = None \<or> v = Some [])
       [ev_type env_values, ev_server env_values, ev_port env_values, ev_username env_values, ev_password env_values]"

definition outbound_extends :: "RawOutboundConfig \<Rightarrow> RawOutboundConfig \<Rightarrow> bool" where
  "outbound_extends ob ob' \<longleftrightarrow>
     ob_version ob' = ob_version ob
     \<and> (ob_type ob \<noteq> [] \<longrightarrow> ob_type ob' = ob_type ob)
     \<and> (ob_server ob \<noteq> [] \<longrightarrow> ob_server ob' = ob_server ob)
     \<and> (ob_server_port ob \<noteq> None \<longrightarrow> ob_server_port ob' = ob_server_port ob)
     \<and> (ob_username ob \<noteq> [] \<longrightarrow> ob_username ob' = ob_username ob)
     \<and> (ob_password ob \<noteq> [] \<longrightarrow> ob_password ob' = ob_password ob)"

lemma non_empty_env_value_None: "non_empty_env_value v = None \<longleftrightarrow> v = None \<or> v = Some []"
  by (auto simp: non_empty_env_value_def filter_nonempty_def split: option.splits list.splits)

lemma fill_empty_keeps: "x \<noteq> [] \<Longrightarrow> fill_empty x e = x"
  by (simp add: fill_empty_def)

lemma env_overrides_outbound:
  assumes "apply_server_outbound_env_values raw env_values = (r, raw')" and "\<not> no_env_overrides env_values"
  shows "\<exists>ob'. raw' = raw\<lparr>rc_outbound := Some ob'\<rparr>
    \<and> outbound_extends (unwrap_or (rc_outbound raw) RawOutboundConfig_default) ob'
    \<and> (\<forall>p. r = Ok () \<and> rc_outbound raw = None \<and> ob_server_port ob' = Some p \<longrightarrow> p \<noteq> 0)"
proof -
  define ob where "ob = unwrap_or (rc_outbound raw) RawOutboundConfig_default"
  have default: "rc_outbound raw = None \<Longrightarrow> ob_server_port ob = None"
    by (simp add: ob_def unwrap_or_def RawOutboundConfig_default_def)
  have some: "\<not> (non_empty_env_value (ev_type env_values) = None \<and> non_empty_env_value (ev_server env_values) = None
      \<and> non_empty_env_value (ev_port env_values) = None \<and> non_empty_env_value (ev_username env_values) = None
      \<and> non_empty_env_value (ev_password env_values) = None)"
    using assms(2) by (auto simp: no_env_overrides_def non_empty_env_value_None)
  show ?thesis
    using assms(1) default
    unfolding apply_server_outbound_env_values_def Let_def ob_def [symmetric] if_not_P [OF some]
    by (cases "ob_server_port ob"; cases "non_empty_env_value (ev_port env_values)")
      (auto simp: outbound_extends_def fill_empty_keeps split: if_splits option.splits)
qed

text \<open>
  Environment overrides only fill what the configuration leaves empty: with no non-empty
  variable nothing changes, not even a missing outbound; otherwise every field of the outbound
  that was set keeps its value, and no other part of the configuration changes. An override of
  the port is a port from 1 through 65535.
\<close>

theorem env_overrides_fill_only:
  assumes "apply_server_outbound_env_values raw env_values = (r, raw')"
  shows "raw'\<lparr>rc_outbound := rc_outbound raw\<rparr> = raw
    \<and> (no_env_overrides env_values \<longrightarrow> raw' = raw \<and> r = Ok ())
    \<and> (\<forall>ob. rc_outbound raw = Some ob \<longrightarrow> (\<exists>ob'. rc_outbound raw' = Some ob' \<and> outbound_extends ob ob'))
    \<and> (\<forall>ob' p. rc_outbound raw = None \<and> r = Ok () \<and> rc_outbound raw' = Some ob'
         \<and> ob_server_port ob' = Some p \<longrightarrow> p \<noteq> 0)"
proof -
  show ?thesis
  proof (cases "no_env_overrides env_values")
    case True
    then have "raw' = raw \<and> r = Ok ()" using assms
      by (simp add: apply_server_outbound_env_values_def non_empty_env_value_None no_env_overrides_def)
    then show ?thesis by (auto simp: outbound_extends_def)
  next
    case False
    with assms obtain ob' where raw': "raw' = raw\<lparr>rc_outbound := Some ob'\<rparr>"
      and ext: "outbound_extends (unwrap_or (rc_outbound raw) RawOutboundConfig_default) ob'"
      and port: "\<forall>p. r = Ok () \<and> rc_outbound raw = None \<and> ob_server_port ob' = Some p \<longrightarrow> p \<noteq> 0"
      using env_overrides_outbound by blast
    from raw' have "raw'\<lparr>rc_outbound := rc_outbound raw\<rparr> = raw" by simp
    with False raw' ext port show ?thesis by (auto simp: unwrap_or_def)
  qed
qed

theorem env_overrides_fill_only_witness:
  "let env_values = \<lparr>ev_type = None, ev_server = Some ''10.9.9.9'', ev_port = Some ''8080'',
                 ev_username = Some [], ev_password = None\<rparr>;
       raw = RawConfig_default\<lparr>rc_outbound := Some demo_outbound\<rparr>;
       raw' = snd (apply_server_outbound_env_values raw env_values)
   in raw'\<lparr>rc_outbound := rc_outbound raw\<rparr> = raw
    \<and> (\<exists>ob'. rc_outbound raw' = Some ob' \<and> outbound_extends demo_outbound ob')"
proof -
  let ?env_values = "\<lparr>ev_type = None, ev_server = Some ''10.9.9.9'', ev_port = Some ''8080'',
                 ev_username = Some [], ev_password = None\<rparr>"
  let ?raw = "RawConfig_default\<lparr>rc_outbound := Some demo_outbound\<rparr>"
  have "apply_server_outbound_env_values ?raw ?env_values =
      (fst (apply_server_outbound_env_values ?raw ?env_values), snd (apply_server_outbound_env_values ?raw ?env_values))"
    by simp
  from env_overrides_fill_only [OF this] show ?thesis unfolding Let_def by auto
qed

text \<open>
  A server configuration that validates has a user table with one entry per UUID, in
  ascending order, in which a UUID listed twice (in two spellings) keeps the password listed last;
  the mark, the source address and the dialer link are the parsed forms of their texts, and
  everything else of the configuration is kept.
\<close>

theorem validated_server_config:
  assumes "validate_server libs raw = Ok sc"
  shows "sorted_wrt (<) (map fst (sc_users sc))
    \<and> (\<forall>(u, pw)\<in>set (rc_users raw). is_ok (lib_uuid_parse libs u))
    \<and> map_of (sc_users sc) = map_of (rev (parsed_users libs (rc_users raw)))
    \<and> (case sc_fwmark sc of None \<Rightarrow> rc_fwmark raw = [] | Some m \<Rightarrow> parse_u32_base0 (rc_fwmark raw) = Ok m)
    \<and> (case sc_send_through sc of None \<Rightarrow> rc_send_through raw = [] | Some a \<Rightarrow> parse_ip (rc_send_through raw) = Some a)
    \<and> resolve_server_dialer_link libs raw = Ok (sc_dialer_link sc)
    \<and> (sc_raw sc)\<lparr>rc_dialer_link := rc_dialer_link raw\<rparr> = raw"
proof -
  from assms obtain users mark source link where
    users: "parse_users libs (rc_users raw) [] = Ok users"
    and mark: "(if rc_fwmark raw = [] then Ok None
        else map_ok Some (map_err (InvalidFwmark (rc_fwmark raw)) (parse_u32_base0 (rc_fwmark raw)))) = Ok mark"
    and source: "(if rc_send_through raw = [] then Ok None
        else map_ok Some (ok_or (parse_ip (rc_send_through raw))
          (InvalidSendThrough (rc_send_through raw) ''invalid IP address syntax''))) = Ok source"
    and link: "resolve_server_dialer_link libs raw = Ok link"
    and sc: "sc = \<lparr>sc_raw = (case link of None \<Rightarrow> raw | Some l \<Rightarrow> raw\<lparr>rc_dialer_link := l\<rparr>), sc_users = users,
         sc_congestion_control = optional_known_congestion_control (rc_congestion_control raw),
         sc_fwmark = mark, sc_send_through = source, sc_dialer_link = link\<rparr>"
    unfolding validate_server_def and_then_Ok_iff by blast
  from mark have "case mark of None \<Rightarrow> rc_fwmark raw = [] | Some m \<Rightarrow> parse_u32_base0 (rc_fwmark raw) = Ok m"
    by (auto simp: result_simps split: if_splits)
  moreover from source have "case source of None \<Rightarrow> rc_send_through raw = []
      | Some a \<Rightarrow> parse_ip (rc_send_through raw) = Some a"
    by (auto simp: result_simps ok_or_def split: if_splits option.splits)
  moreover have "(case link of None \<Rightarrow> raw | Some l \<Rightarrow> raw\<lparr>rc_dialer_link := l\<rparr>)\<lparr>rc_dialer_link := rc_dialer_link raw\<rparr> = raw"
    by (cases link) simp_all
  ultimately show ?thesis using parse_users_Ok [OF users] link sc by simp
qed

theorem validated_server_config_witness:
  "\<exists>sc. validate_server (demo_libs\<lparr>lib_uuid_parse := (\<lambda>_. Ok 5)\<rparr>)
      (RawConfig_default\<lparr>rc_users := [(''AB'', ''old''), (''ab'', ''new'')], rc_fwmark := ''7''\<rparr>) = Ok sc
    \<and> map_of (sc_users sc) 5 = Some ''new'' \<and> sc_fwmark sc = Some 7"
proof -
  let ?libs = "demo_libs\<lparr>lib_uuid_parse := (\<lambda>_. Ok 5)\<rparr>"
  let ?raw = "RawConfig_default\<lparr>rc_users := [(''AB'', ''old''), (''ab'', ''new'')], rc_fwmark := ''7''\<rparr>"
  have mark: "parse_u32_base0 ''7'' = Ok 7"
    by (simp add: parse_u32_base0_def go_parse_uint_base0_digits_def strip_prefix_def starts_with_def
        or_else_def parse_u32_digits_with_go_underscores_def go_digit_def to_digit_def)
  then obtain sc where sc: "validate_server ?libs ?raw = Ok sc"
    by (simp add: validate_server_def RawConfig_default_def resolve_server_dialer_link_def transpose_result_def)
  from validated_server_config [OF sc] mark sc show ?thesis
    by (auto simp: parsed_users_def RawConfig_default_def split: option.splits)
qed

end
