(* ===== verification/ServerConnection.thy ===== *)
theory ServerConnection
  imports Counter Auth TcpRelay Config
begin

text \<open>
  What the server of \<^verbatim>\<open>crates/zuicity-server/src/lib.rs\<close> does with one authenticated connection:
  its metrics and reports, the classification of errors, and the tasks that accept and relay the
  streams of a connection (\<^verbatim>\<open>run_authenticated_proxy_connection_until\<close>,
  \<^verbatim>\<open>run_udp_over_stream_connection\<close>). A task is a step function on events, one for each branch of
  its \<^verbatim>\<open>select!\<close>; relay tasks in a \<^verbatim>\<open>JoinSet\<close> are identified by numbers, and the result of a relay
  comes with the event that joins it. Metrics and the trace of log messages are shared by all tasks.
\<close>

section \<open>Errors\<close>

datatype ServerError =
    NoUsersConfigured
  | ServerConfigError ConfigError
  | ServerTransport TransportError
  | ServerJoin JoinError

text \<open>\<open>io_text\<close> is the message of an I/O error, which the standard library takes from the system.\<close>

definition io_error_is_peer_close :: "(IoError \<Rightarrow> string) \<Rightarrow> IoError \<Rightarrow> bool" where
  "io_error_is_peer_close io_text error \<longleftrightarrow> io_text error = ''connection lost''"

definition io_error_is_target_open_failure :: "(IoError \<Rightarrow> string) \<Rightarrow> IoError \<Rightarrow> bool" where
  "io_error_is_target_open_failure io_text error \<longleftrightarrow>
     io_kind error \<in> {NotFound, ConnectionRefused, AddrNotAvailable, NetworkDown, NetworkUnreachable, HostUnreachable}
     \<or> contains_str (io_text error) ''failed to lookup address information''"

definition proxy_connection_closed :: "(IoError \<Rightarrow> string) \<Rightarrow> TransportError \<Rightarrow> bool" where
  "proxy_connection_closed io_text error =
     (case error of
        Connection _ \<Rightarrow> True
      | Stopped (StoppedConnectionLost _) \<Rightarrow> True
      | Io source \<Rightarrow> io_error_is_peer_close io_text source
      | _ \<Rightarrow> False)"

definition proxy_target_open_failed :: "(IoError \<Rightarrow> string) \<Rightarrow> TransportError \<Rightarrow> bool" where
  "proxy_target_open_failed io_text error =
     (case error of
        NoUsableTcpTarget \<Rightarrow> True
      | NoUsableUdpTarget \<Rightarrow> True
      | Socks5SetupTimedOut _ \<Rightarrow> True
      | Io source \<Rightarrow> io_error_is_target_open_failure io_text source
      | _ \<Rightarrow> False)"

definition is_fatal_accept_error :: "ServerError \<Rightarrow> bool" where
  "is_fatal_accept_error error \<longleftrightarrow> error = NoUsersConfigured \<or> error = ServerTransport EndpointClosed"

definition is_ignorable_pre_auth_error :: "(IoError \<Rightarrow> string) \<Rightarrow> ServerError \<Rightarrow> bool" where
  "is_ignorable_pre_auth_error io_text error =
     (case error of ServerTransport error \<Rightarrow> proxy_connection_closed io_text error | _ \<Rightarrow> False)"

section \<open>Metrics\<close>

record ServerMetrics =
  sm_accepted_connections :: AtomicCounter64
  sm_rejected_connections :: AtomicCounter64
  sm_active_connections :: AtomicCounter64
  sm_completed_tcp_relays :: AtomicCounter64
  sm_completed_udp_relays :: AtomicCounter64
  sm_failed_proxy_streams :: AtomicCounter64
  sm_bytes_from_client :: AtomicCounter64
  sm_bytes_from_target :: AtomicCounter64

definition ServerMetrics_default :: ServerMetrics where
  "ServerMetrics_default =
     \<lparr>sm_accepted_connections = counter_new 0, sm_rejected_connections = counter_new 0,
      sm_active_connections = counter_new 0, sm_completed_tcp_relays = counter_new 0,
      sm_completed_udp_relays = counter_new 0, sm_failed_proxy_streams = counter_new 0,
      sm_bytes_from_client = counter_new 0, sm_bytes_from_target = counter_new 0\<rparr>"

definition connection_accepted :: "ServerMetrics \<Rightarrow> ServerMetrics" where
  "connection_accepted m =
     m\<lparr>sm_accepted_connections := counter_inc (sm_accepted_connections m),
       sm_active_connections := counter_inc (sm_active_connections m)\<rparr>"

definition connection_rejected :: "ServerMetrics \<Rightarrow> ServerMetrics" where
  "connection_rejected m = m\<lparr>sm_rejected_connections := counter_inc (sm_rejected_connections m)\<rparr>"

definition connection_closed :: "ServerMetrics \<Rightarrow> ServerMetrics" where
  "connection_closed m = m\<lparr>sm_active_connections := counter_dec (sm_active_connections m)\<rparr>"

definition bytes_from_client :: "ServerMetrics \<Rightarrow> u64 \<Rightarrow> ServerMetrics" where
  "bytes_from_client m n = m\<lparr>sm_bytes_from_client := counter_add (sm_bytes_from_client m) n\<rparr>"

definition bytes_from_target :: "ServerMetrics \<Rightarrow> u64 \<Rightarrow> ServerMetrics" where
  "bytes_from_target m n = m\<lparr>sm_bytes_from_target := counter_add (sm_bytes_from_target m) n\<rparr>"

definition tcp_relay_completed :: "ServerMetrics \<Rightarrow> u64 \<Rightarrow> u64 \<Rightarrow> ServerMetrics" where
  "tcp_relay_completed m from_client from_target =
     bytes_from_target
       (bytes_from_client
          (m\<lparr>sm_completed_tcp_relays := counter_inc (sm_completed_tcp_relays m)\<rparr>) from_client) from_target"

definition udp_relay_completed :: "ServerMetrics \<Rightarrow> u64 \<Rightarrow> u64 \<Rightarrow> ServerMetrics" where
  "udp_relay_completed m from_client from_target =
     bytes_from_target
       (bytes_from_client
          (m\<lparr>sm_completed_udp_relays := counter_inc (sm_completed_udp_relays m)\<rparr>) from_client) from_target"

definition proxy_stream_failed :: "ServerMetrics \<Rightarrow> ServerMetrics" where
  "proxy_stream_failed m = m\<lparr>sm_failed_proxy_streams := counter_inc (sm_failed_proxy_streams m)\<rparr>"

fun proxy_relay_completed :: "ServerMetrics \<Rightarrow> ProxyRelayReport \<Rightarrow> ServerMetrics" where
  "proxy_relay_completed m (TcpReport r) = tcp_relay_completed m (tr_bytes_from_client r) (tr_bytes_from_target r)"
| "proxy_relay_completed m (UdpReport r) = udp_relay_completed m (ur_bytes_from_client r) (ur_bytes_from_target r)"

text \<open>The point-in-time copy of the counters.\<close>

record ServerMetricsSnapshot =
  accepted_connections :: u64
  rejected_connections :: u64
  active_connections :: u64
  completed_tcp_relays :: u64
  completed_udp_relays :: u64
  failed_proxy_streams :: u64
  snapshot_bytes_from_client :: u64
  snapshot_bytes_from_target :: u64

definition snapshot :: "ServerMetrics \<Rightarrow> ServerMetricsSnapshot" where
  "snapshot m =
     \<lparr>accepted_connections = counter_load (sm_accepted_connections m),
      rejected_connections = counter_load (sm_rejected_connections m),
      active_connections = counter_load (sm_active_connections m),
      completed_tcp_relays = counter_load (sm_completed_tcp_relays m),
      completed_udp_relays = counter_load (sm_completed_udp_relays m),
      failed_proxy_streams = counter_load (sm_failed_proxy_streams m),
      snapshot_bytes_from_client = counter_load (sm_bytes_from_client m),
      snapshot_bytes_from_target = counter_load (sm_bytes_from_target m)\<rparr>"

lemmas metrics_defs =
  connection_accepted_def connection_rejected_def connection_closed_def bytes_from_client_def
  bytes_from_target_def tcp_relay_completed_def udp_relay_completed_def proxy_stream_failed_def

section \<open>Log messages\<close>

datatype log_level = Debug | Warn

text \<open>What every task of the server can change: the metrics and the log, newest message last.\<close>

record ServerShared =
  sh_metrics :: ServerMetrics
  sh_log :: "(log_level \<times> string) list"

definition trace :: "log_level \<Rightarrow> string \<Rightarrow> ServerShared \<Rightarrow> ServerShared" where
  "trace level message sh = sh\<lparr>sh_log := sh_log sh @ [(level, message)]\<rparr>"

definition count_in :: "(ServerMetrics \<Rightarrow> ServerMetrics) \<Rightarrow> ServerShared \<Rightarrow> ServerShared" where
  "count_in f sh = sh\<lparr>sh_metrics := f (sh_metrics sh)\<rparr>"

definition trace_authenticated_accept_error :: "ServerError \<Rightarrow> ServerShared \<Rightarrow> ServerShared" where
  "trace_authenticated_accept_error error sh =
     (case error of ServerTransport _ \<Rightarrow> trace Warn ''handleAuth'' sh | _ \<Rightarrow> sh)"

definition trace_tcp_proxy_relay :: "ServerShared \<Rightarrow> ServerShared" where
  "trace_tcp_proxy_relay sh = trace Debug ''zuicity received a [tcp] request'' sh"

definition trace_udp_over_stream_relay :: "ServerShared \<Rightarrow> ServerShared" where
  "trace_udp_over_stream_relay sh = trace Debug ''zuicity received a [udp] request'' sh"

fun trace_proxy_relay :: "ProxyRelayReport \<Rightarrow> ServerShared \<Rightarrow> ServerShared" where
  "trace_proxy_relay (TcpReport _) sh = trace_tcp_proxy_relay sh"
| "trace_proxy_relay (UdpReport _) sh = trace_udp_over_stream_relay sh"

lemma trace_metrics [simp]:
  "sh_metrics (trace level message sh) = sh_metrics sh"
  "sh_metrics (trace_tcp_proxy_relay sh) = sh_metrics sh"
  "sh_metrics (trace_udp_over_stream_relay sh) = sh_metrics sh"
  "sh_metrics (trace_authenticated_accept_error e sh) = sh_metrics sh"
  "sh_metrics (trace_proxy_relay r sh) = sh_metrics sh"
  "sh_metrics (count_in f sh) = f (sh_metrics sh)"
  by (simp_all add: trace_def trace_tcp_proxy_relay_def trace_udp_over_stream_relay_def
      trace_authenticated_accept_error_def count_in_def split: ServerError.split)
     (cases r; simp add: trace_def trace_tcp_proxy_relay_def trace_udp_over_stream_relay_def)

section \<open>Reports\<close>

record ServerProxyLoopReport =
  pr_accepted_connections :: u64
  pr_rejected_connections :: u64
  pr_completed_tcp_relays :: u64
  pr_completed_udp_relays :: u64
  pr_failed_proxy_streams :: u64
  pr_bytes_from_client :: u64
  pr_bytes_from_target :: u64

definition ServerProxyLoopReport_default :: ServerProxyLoopReport where
  "ServerProxyLoopReport_default =
     \<lparr>pr_accepted_connections = 0, pr_rejected_connections = 0, pr_completed_tcp_relays = 0,
      pr_completed_udp_relays = 0, pr_failed_proxy_streams = 0, pr_bytes_from_client = 0,
      pr_bytes_from_target = 0\<rparr>"

definition add_relay :: "ServerProxyLoopReport \<Rightarrow> ProxyRelayReport \<Rightarrow> ServerProxyLoopReport" where
  "add_relay report relay =
     (let report = report\<lparr>pr_bytes_from_client := pr_bytes_from_client report + report_bytes_from_client relay,
            pr_bytes_from_target := pr_bytes_from_target report + report_bytes_from_target relay\<rparr>
      in case relay of
           TcpReport _ \<Rightarrow> report\<lparr>pr_completed_tcp_relays := pr_completed_tcp_relays report + 1\<rparr>
         | UdpReport _ \<Rightarrow> report\<lparr>pr_completed_udp_relays := pr_completed_udp_relays report + 1\<rparr>)"

definition merge_report :: "ServerProxyLoopReport \<Rightarrow> ServerProxyLoopReport \<Rightarrow> ServerProxyLoopReport" where
  "merge_report a b =
     \<lparr>pr_accepted_connections = pr_accepted_connections a + pr_accepted_connections b,
      pr_rejected_connections = pr_rejected_connections a + pr_rejected_connections b,
      pr_completed_tcp_relays = pr_completed_tcp_relays a + pr_completed_tcp_relays b,
      pr_completed_udp_relays = pr_completed_udp_relays a + pr_completed_udp_relays b,
      pr_failed_proxy_streams = pr_failed_proxy_streams a + pr_failed_proxy_streams b,
      pr_bytes_from_client = pr_bytes_from_client a + pr_bytes_from_client b,
      pr_bytes_from_target = pr_bytes_from_target a + pr_bytes_from_target b\<rparr>"

record UdpConnectionReport =
  uc_completed_udp_relays :: u64
  uc_bytes_from_client :: u64
  uc_bytes_from_target :: u64

definition UdpConnectionReport_default :: UdpConnectionReport where
  "UdpConnectionReport_default =
     \<lparr>uc_completed_udp_relays = 0, uc_bytes_from_client = 0, uc_bytes_from_target = 0\<rparr>"

section \<open>Relays of a proxy connection\<close>

type_synonym relay_result = "(ProxyRelayReport, TransportError) result"

definition record_proxy_connection_result ::
    "(IoError \<Rightarrow> string) \<Rightarrow> relay_result \<Rightarrow> ServerProxyLoopReport \<Rightarrow> ServerShared
     \<Rightarrow> ServerProxyLoopReport \<times> ServerShared" where
  "record_proxy_connection_result io_text relay report sh =
     (case relay of
        Ok relay \<Rightarrow>
          (add_relay report relay,
           count_in (\<lambda>m. proxy_relay_completed m relay) (trace_proxy_relay relay sh))
      | Err error \<Rightarrow>
          if proxy_connection_closed io_text error then (report, sh)
          else if proxy_stream_closed_before_header error then (report, sh)
          else if proxy_target_open_failed io_text error then
            (report\<lparr>pr_failed_proxy_streams := pr_failed_proxy_streams report + 1\<rparr>,
             count_in proxy_stream_failed (trace Debug ''targetStream'' sh))
          else
            (report\<lparr>pr_failed_proxy_streams := pr_failed_proxy_streams report + 1\<rparr>,
             count_in proxy_stream_failed (trace Warn ''handleStream'' sh)))"

datatype conn_phase =
    Serving
  | DrainingRelays bool \<comment> \<open>until the deadline; whether shutdown was requested\<close>
  | AbortingRelays bool \<comment> \<open>after the deadline\<close>

datatype tuic_relay = NoTuicRelay | TuicRelayRunning | TuicRelayAborted

record ProxyConnection =
  pc_connection :: AuthenticatedConnection
  pc_relays :: "(nat \<times> AcceptedProxyStream) list"
  pc_next_relay :: nat
  pc_report :: ServerProxyLoopReport
  pc_phase :: conn_phase
  pc_tuic_relay :: tuic_relay

definition ProxyConnection_start :: "AuthenticatedConnection \<Rightarrow> ProxyConnection" where
  "ProxyConnection_start connection =
     \<lparr>pc_connection = connection, pc_relays = [], pc_next_relay = 0,
      pc_report = ServerProxyLoopReport_default, pc_phase = Serving,
      pc_tuic_relay = (if ac_protocol connection = Tuic then TuicRelayRunning else NoTuicRelay)\<rparr>"

text \<open>
  \<open>ShutdownChanged\<close>: the watch channel yields its value, or its sender is gone. \<open>QuicClosed\<close>: the
  connection is closed. \<open>StreamReady\<close>: accepting the next stream and reading its header is done.
  \<open>RelayJoined\<close>: a relay task is joined, with its result or the error of the task. \<open>DrainDeadline\<close>:
  the drain timeout is over.
\<close>

datatype conn_event =
    ShutdownChanged "bool option"
  | QuicClosed
  | StreamReady
  | RelayJoined nat "(relay_result, JoinError) result"
  | DrainDeadline

datatype ('c, 'o) task_step = Continue 'c | Return 'o

type_synonym conn_result = "(ServerProxyLoopReport, ServerError) result"

definition remove_relay :: "nat \<Rightarrow> (nat \<times> 'a) list \<Rightarrow> (nat \<times> 'a) list" where
  "remove_relay i relays = filter (\<lambda>(j, _). j \<noteq> i) relays"

text \<open>After the drain: close on shutdown, abort the TUIC datagram relay, return the report.\<close>

definition close_quic :: "nat \<Rightarrow> string \<Rightarrow> AuthenticatedConnection \<Rightarrow> AuthenticatedConnection" where
  "close_quic code reason ac = ac\<lparr>ac_connection := (ac_connection ac)\<lparr>qc_close := Some (code, reason)\<rparr>\<rparr>"

definition finish_connection :: "bool \<Rightarrow> ProxyConnection \<Rightarrow> ProxyConnection" where
  "finish_connection shutdown_requested c =
     c\<lparr>pc_connection := (if shutdown_requested then close_quic 0 ''server shutdown'' (pc_connection c)
                          else pc_connection c),
       pc_tuic_relay := (if pc_tuic_relay c = NoTuicRelay then NoTuicRelay else TuicRelayAborted)\<rparr>"

definition settle_connection :: "ProxyConnection \<Rightarrow> (ProxyConnection, conn_result \<times> ProxyConnection) task_step" where
  "settle_connection c =
     (case pc_phase c of
        Serving \<Rightarrow> Continue c
      | DrainingRelays sd \<Rightarrow>
          if pc_relays c = [] then Return (Ok (pc_report c), finish_connection sd c) else Continue c
      | AbortingRelays sd \<Rightarrow>
          if pc_relays c = [] then Return (Ok (pc_report c), finish_connection sd c) else Continue c)"

definition accept_stream_step ::
    "(IoError \<Rightarrow> string) \<Rightarrow> ProxyConnection \<Rightarrow> ServerShared \<Rightarrow> ProxyConnection \<times> ServerShared" where
  "accept_stream_step io_text c sh =
     (case accept_proxy_stream (pc_connection c) of
        (Ok stream, connection) \<Rightarrow>
          (c\<lparr>pc_connection := connection, pc_relays := pc_relays c @ [(pc_next_relay c, stream)],
             pc_next_relay := pc_next_relay c + 1\<rparr>, sh)
      | (Err error, connection) \<Rightarrow>
          (let c = c\<lparr>pc_connection := connection\<rparr> in
           if proxy_connection_closed io_text error then (c\<lparr>pc_phase := DrainingRelays False\<rparr>, sh)
           else if proxy_stream_closed_before_header error then (c, sh)
           else
             (c\<lparr>pc_report := (pc_report c)\<lparr>pr_failed_proxy_streams := pr_failed_proxy_streams (pc_report c) + 1\<rparr>\<rparr>,
              count_in proxy_stream_failed (trace Warn ''handleStream'' sh))))"

text \<open>Joining a relay; an error of the task ends the connection task, except while aborting.\<close>

definition join_relay_step ::
    "(IoError \<Rightarrow> string) \<Rightarrow> nat \<Rightarrow> (relay_result, JoinError) result \<Rightarrow> ProxyConnection \<Rightarrow> ServerShared
     \<Rightarrow> (ProxyConnection, conn_result \<times> ProxyConnection) task_step \<times> ServerShared" where
  "join_relay_step io_text i joined c sh =
     (if i \<notin> fst ` set (pc_relays c) then (Continue c, sh)
      else
        (let c = c\<lparr>pc_relays := remove_relay i (pc_relays c)\<rparr> in
         case joined of
           Ok relay \<Rightarrow>
             (let (report, sh) = record_proxy_connection_result io_text relay (pc_report c) sh
              in (settle_connection (c\<lparr>pc_report := report\<rparr>), sh))
         | Err error \<Rightarrow>
             (case pc_phase c of
                AbortingRelays _ \<Rightarrow> (settle_connection c, sh)
              | _ \<Rightarrow> (Return (Err (ServerJoin error), c\<lparr>pc_relays := []\<rparr>), sh))))"

definition proxy_connection_step ::
    "(IoError \<Rightarrow> string) \<Rightarrow> conn_event \<Rightarrow> ProxyConnection \<Rightarrow> ServerShared
     \<Rightarrow> (ProxyConnection, conn_result \<times> ProxyConnection) task_step \<times> ServerShared" where
  "proxy_connection_step io_text event c sh =
     (case (event, pc_phase c) of
        (ShutdownChanged (Some True), Serving) \<Rightarrow>
          (settle_connection (c\<lparr>pc_phase := DrainingRelays True\<rparr>), sh)
      | (QuicClosed, Serving) \<Rightarrow> (settle_connection (c\<lparr>pc_phase := DrainingRelays False\<rparr>), sh)
      | (StreamReady, Serving) \<Rightarrow>
          (let (c, sh) = accept_stream_step io_text c sh in (settle_connection c, sh))
      | (RelayJoined i joined, _) \<Rightarrow> join_relay_step io_text i joined c sh
      | (DrainDeadline, DrainingRelays sd) \<Rightarrow> (settle_connection (c\<lparr>pc_phase := AbortingRelays sd\<rparr>), sh)
      | _ \<Rightarrow> (Continue c, sh))"

section \<open>Relays of a UDP-only connection\<close>

record UdpConnection =
  ud_connection :: AuthenticatedConnection
  ud_relays :: "(nat \<times> AcceptedProxyStream) list"
  ud_next_relay :: nat
  ud_report :: UdpConnectionReport
  ud_closed :: bool \<comment> \<open>the accept loop is over\<close>

definition UdpConnection_start :: "AuthenticatedConnection \<Rightarrow> UdpConnection" where
  "UdpConnection_start connection =
     \<lparr>ud_connection = connection, ud_relays = [], ud_next_relay = 0,
      ud_report = UdpConnectionReport_default, ud_closed = False\<rparr>"

definition accumulate_udp_relay ::
    "(IoError \<Rightarrow> string) \<Rightarrow> relay_result \<Rightarrow> UdpConnectionReport \<Rightarrow> ServerShared
     \<Rightarrow> UdpConnectionReport \<times> ServerShared" where
  "accumulate_udp_relay io_text relay report sh =
     (case relay of
        Ok (UdpReport r) \<Rightarrow>
          (\<lparr>uc_completed_udp_relays = uc_completed_udp_relays report + 1,
            uc_bytes_from_client = uc_bytes_from_client report + ur_bytes_from_client r,
            uc_bytes_from_target = uc_bytes_from_target report + ur_bytes_from_target r\<rparr>,
           trace_udp_over_stream_relay
             (count_in (\<lambda>m. udp_relay_completed m (ur_bytes_from_client r) (ur_bytes_from_target r)) sh))
      | Ok (TcpReport _) \<Rightarrow> (report, sh)
      | Err error \<Rightarrow>
          if proxy_connection_closed io_text error then (report, sh)
          else (report, trace Warn ''handleUdpStream'' sh))"

datatype udp_conn_event = UdpStreamReady | UdpRelayJoined nat "(relay_result, JoinError) result"

type_synonym udp_conn_result = "(UdpConnectionReport, ServerError) result"

definition settle_udp_connection :: "UdpConnection \<Rightarrow> (UdpConnection, udp_conn_result) task_step" where
  "settle_udp_connection c =
     (if ud_closed c \<and> ud_relays c = [] then Return (Ok (ud_report c)) else Continue c)"

definition udp_connection_step ::
    "(IoError \<Rightarrow> string) \<Rightarrow> udp_conn_event \<Rightarrow> UdpConnection \<Rightarrow> ServerShared
     \<Rightarrow> (UdpConnection, udp_conn_result) task_step \<times> ServerShared" where
  "udp_connection_step io_text event c sh =
     (case event of
        UdpStreamReady \<Rightarrow>
          if ud_closed c then (Continue c, sh)
          else
            (case accept_proxy_stream (ud_connection c) of
               (Ok stream, connection) \<Rightarrow>
                 (Continue (c\<lparr>ud_connection := connection,
                    ud_relays := ud_relays c @ [(ud_next_relay c, stream)],
                    ud_next_relay := ud_next_relay c + 1\<rparr>), sh)
             | (Err error, connection) \<Rightarrow>
                 if proxy_connection_closed io_text error then
                   (settle_udp_connection (c\<lparr>ud_connection := connection, ud_closed := True\<rparr>), sh)
                 else (Return (Err (ServerTransport error)), sh))
      | UdpRelayJoined i joined \<Rightarrow>
          if i \<notin> fst ` set (ud_relays c) then (Continue c, sh)
          else
            (case joined of
               Err error \<Rightarrow> (Return (Err (ServerJoin error)), sh)
             | Ok relay \<Rightarrow>
                 (let (report, sh) = accumulate_udp_relay io_text relay (ud_report c) sh
                  in (settle_udp_connection
                        (c\<lparr>ud_relays := remove_relay i (ud_relays c), ud_report := report\<rparr>), sh))))"

section \<open>Reports and metrics agree\<close>

text \<open>The counters a loop report has, read off the metrics.\<close>

definition metrics_report :: "ServerMetrics \<Rightarrow> ServerProxyLoopReport" where
  "metrics_report m =
     \<lparr>pr_accepted_connections = sm_accepted_connections m, pr_rejected_connections = sm_rejected_connections m,
      pr_completed_tcp_relays = sm_completed_tcp_relays m, pr_completed_udp_relays = sm_completed_udp_relays m,
      pr_failed_proxy_streams = sm_failed_proxy_streams m, pr_bytes_from_client = sm_bytes_from_client m,
      pr_bytes_from_target = sm_bytes_from_target m\<rparr>"

lemma merge_report_laws [simp]:
  "merge_report ServerProxyLoopReport_default r = r" "merge_report r ServerProxyLoopReport_default = r"
  "merge_report (merge_report a b) c = merge_report a (merge_report b c)"
  by (simp_all add: merge_report_def ServerProxyLoopReport_default_def add.assoc)

lemma merge_report_commute: "merge_report a b = merge_report b a"
  by (simp add: merge_report_def add.commute)

lemma merge_report_left_commute: "merge_report a (merge_report b c) = merge_report b (merge_report a c)"
  by (simp add: merge_report_def add.left_commute)

lemmas merge_report_ac = merge_report_commute merge_report_left_commute

text \<open>A step adds the same amounts to a report and to the metrics, and leaves the number of active
  connections alone.\<close>

definition same_delta :: "ServerProxyLoopReport \<Rightarrow> ServerShared \<Rightarrow> ServerProxyLoopReport \<Rightarrow> ServerShared \<Rightarrow> bool" where
  "same_delta report sh report' sh' \<longleftrightarrow>
     (\<exists>d. report' = merge_report report d
        \<and> metrics_report (sh_metrics sh') = merge_report (metrics_report (sh_metrics sh)) d)
     \<and> sm_active_connections (sh_metrics sh') = sm_active_connections (sh_metrics sh)"

lemma same_delta_refl [simp]: "same_delta r sh r sh"
  unfolding same_delta_def by (auto intro!: exI [of _ ServerProxyLoopReport_default])

lemma same_delta_failed:
  "same_delta r sh (r\<lparr>pr_failed_proxy_streams := pr_failed_proxy_streams r + 1\<rparr>)
     (count_in proxy_stream_failed (trace level message sh))"
  unfolding same_delta_def
  by (auto simp: merge_report_def metrics_report_def metrics_defs ServerProxyLoopReport_default_def
      intro!: exI [of _ "ServerProxyLoopReport_default\<lparr>pr_failed_proxy_streams := 1\<rparr>"])

lemma same_delta_relay:
  "same_delta r sh (add_relay r relay)
     (count_in (\<lambda>m. proxy_relay_completed m relay) (trace_proxy_relay relay sh))"
  unfolding same_delta_def
  by (cases relay)
    (auto simp: add_relay_def merge_report_def metrics_report_def metrics_defs ServerProxyLoopReport_default_def
      intro!: exI [of _ "add_relay ServerProxyLoopReport_default relay"])

lemma same_delta_record:
  assumes "record_proxy_connection_result io_text relay r sh = (r', sh')"
  shows "same_delta r sh r' sh'"
  using assms same_delta_relay same_delta_failed
  by (auto simp: record_proxy_connection_result_def split: result.splits if_splits)

lemma same_delta_accept:
  assumes "accept_stream_step io_text c sh = (c', sh')"
  shows "same_delta (pc_report c) sh (pc_report c') sh'"
  using assms same_delta_failed
  by (auto simp: accept_stream_step_def Let_def split: prod.splits result.splits if_splits)

fun step_report :: "(ProxyConnection, conn_result \<times> ProxyConnection) task_step \<Rightarrow> ServerProxyLoopReport" where
  "step_report (Continue c) = pc_report c"
| "step_report (Return (_, c)) = pc_report c"

lemma step_report_settle [simp]: "step_report (settle_connection c) = pc_report c"
  by (auto simp: settle_connection_def finish_connection_def split: conn_phase.split)

lemma same_delta_step:
  assumes "proxy_connection_step io_text event c sh = (out, sh')"
  shows "same_delta (pc_report c) sh (step_report out) sh'"
proof (cases event)
  case (RelayJoined i joined)
  show ?thesis
  proof (cases "\<exists>relay. joined = Ok relay \<and> i \<in> fst ` set (pc_relays c)")
    case True
    then obtain relay where "joined = Ok relay" "i \<in> fst ` set (pc_relays c)" by blast
    moreover obtain r1 sh1 where "record_proxy_connection_result io_text relay (pc_report c) sh = (r1, sh1)"
      by fastforce
    ultimately show ?thesis using RelayJoined assms same_delta_record
      by (auto simp: proxy_connection_step_def join_relay_step_def Let_def)
  next
    case False
    with RelayJoined assms show ?thesis
      by (auto simp: proxy_connection_step_def join_relay_step_def Let_def
          split: result.splits if_splits conn_phase.splits)
  qed
next
  case StreamReady
  with assms same_delta_accept show ?thesis
    by (auto simp: proxy_connection_step_def split: conn_phase.splits prod.splits)
qed (use assms in \<open>auto simp: proxy_connection_step_def split: conn_phase.splits option.splits bool.splits\<close>)

text \<open>Only a task error ends the connection task with an error; otherwise its report is returned.\<close>

lemma settle_connection_Return:
  "settle_connection c = Return (r, c') \<Longrightarrow> r = Ok (pc_report c) \<and> pc_report c' = pc_report c"
  by (auto simp: settle_connection_def finish_connection_def split: conn_phase.splits if_splits)

lemma proxy_connection_step_Return:
  assumes "proxy_connection_step io_text event c sh = (Return (r, c'), sh')"
  shows "r = Ok (pc_report c') \<or> (\<exists>e. r = Err (ServerJoin e))"
  using assms
  by (auto simp: proxy_connection_step_def join_relay_step_def Let_def dest!: settle_connection_Return
      split: conn_event.splits conn_phase.splits option.splits bool.splits prod.splits result.splits if_splits)

section \<open>A connection task ends\<close>

fun run_connection ::
    "(IoError \<Rightarrow> string) \<Rightarrow> conn_event list
     \<Rightarrow> (ProxyConnection, conn_result \<times> ProxyConnection) task_step \<times> ServerShared
     \<Rightarrow> (ProxyConnection, conn_result \<times> ProxyConnection) task_step \<times> ServerShared" where
  "run_connection io_text (e # es) (Continue c, sh) =
     run_connection io_text es (proxy_connection_step io_text e c sh)"
| "run_connection io_text _ st = st"

definition drained :: "bool \<Rightarrow> (ProxyConnection, conn_result \<times> ProxyConnection) task_step \<Rightarrow> bool" where
  "drained sd out \<longleftrightarrow> (\<exists>c. out = Return (Ok (pc_report c), c) \<and> pc_relays c = []
     \<and> pc_tuic_relay c \<noteq> TuicRelayRunning
     \<and> (sd \<longrightarrow> qc_close (ac_connection (pc_connection c)) = Some (0, ''server shutdown'')))"

lemma settle_connection_drained:
  "pc_phase c = AbortingRelays sd \<or> pc_phase c = DrainingRelays sd \<Longrightarrow> pc_relays c = [] \<Longrightarrow>
     drained sd (settle_connection c)"
  by (auto simp: settle_connection_def drained_def finish_connection_def close_quic_def)

lemma run_connection_drained [simp]:
  "drained sd out \<Longrightarrow> run_connection io_text es (out, sh) = (out, sh)"
  by (cases es) (auto simp: drained_def)

lemma aborting_relay_joined:
  assumes "pc_phase c = AbortingRelays sd" and "pc_relays c \<noteq> []"
  shows "\<exists>c' sh'. proxy_connection_step io_text (RelayJoined i joined) c sh = (settle_connection c', sh')
    \<and> pc_phase c' = AbortingRelays sd \<and> pc_relays c' = remove_relay i (pc_relays c)"
proof (cases "i \<in> fst ` set (pc_relays c)")
  case False
  then have "remove_relay i (pc_relays c) = pc_relays c"
    by (force simp: remove_relay_def filter_id_conv)
  moreover have "settle_connection c = Continue c" using assms by (simp add: settle_connection_def)
  ultimately show ?thesis
    using assms False by (auto simp: proxy_connection_step_def join_relay_step_def intro!: exI [of _ c])
next
  case True
  then show ?thesis using assms
    by (auto simp: proxy_connection_step_def join_relay_step_def Let_def split: result.split prod.split)
qed

lemma aborting_joins_drain:
  "pc_phase c = AbortingRelays sd \<Longrightarrow> fst ` set (pc_relays c) \<subseteq> set ids \<Longrightarrow>
     drained sd (fst (run_connection io_text (map (\<lambda>i. RelayJoined i (res i)) ids) (settle_connection c, sh)))"
proof (induction ids arbitrary: c sh)
  case Nil
  then show ?case by (simp add: settle_connection_drained)
next
  case (Cons i ids)
  show ?case
  proof (cases "pc_relays c = []")
    case True
    with Cons.prems have "drained sd (settle_connection c)" by (simp add: settle_connection_drained)
    then show ?thesis by simp
  next
    case False
    with Cons.prems(1) have "settle_connection c = Continue c" by (simp add: settle_connection_def)
    moreover from aborting_relay_joined [OF Cons.prems(1) False] obtain c' sh'
      where "proxy_connection_step io_text (RelayJoined i (res i)) c sh = (settle_connection c', sh')"
        and c': "pc_phase c' = AbortingRelays sd" "pc_relays c' = remove_relay i (pc_relays c)" by blast
    moreover have "fst ` set (pc_relays c') \<subseteq> set ids"
      using Cons.prems(2) c'(2) by (auto simp: remove_relay_def)
    ultimately show ?thesis using Cons.IH [of c' sh'] c'(1) by simp
  qed
qed

text \<open>
  C30: no relay can keep a connection task from ending. Once shutdown is requested, or the
  connection is closed, and the drain deadline passes, the task returns its report as soon as the
  aborted relays are joined, whatever each of them was doing and whether it completed, failed or
  was cancelled; on shutdown the connection is closed with code 0, and the TUIC datagram relay does
  not outlive the task.
\<close>

theorem connection_task_drains:
  assumes "pc_phase c = Serving" and "event = (if sd then ShutdownChanged (Some True) else QuicClosed)"
    and "fst ` set (pc_relays c) \<subseteq> set ids"
  shows "drained sd (fst (run_connection io_text
    (event # DrainDeadline # map (\<lambda>i. RelayJoined i (joined i)) ids) (Continue c, sh)))"
proof -
  let ?c = "c\<lparr>pc_phase := DrainingRelays sd\<rparr>"
  have step: "proxy_connection_step io_text event c sh = (settle_connection ?c, sh)"
    using assms(1,2) by (simp add: proxy_connection_step_def)
  show ?thesis
  proof (cases "pc_relays c = []")
    case True
    then have "drained sd (settle_connection ?c)" by (simp add: settle_connection_drained)
    with step show ?thesis by simp
  next
    case False
    then have "settle_connection ?c = Continue ?c" by (simp add: settle_connection_def)
    with step have "run_connection io_text (event # DrainDeadline # map (\<lambda>i. RelayJoined i (joined i)) ids) (Continue c, sh) =
      run_connection io_text (map (\<lambda>i. RelayJoined i (joined i)) ids)
        (settle_connection (c\<lparr>pc_phase := AbortingRelays sd\<rparr>), sh)"
      by (simp add: proxy_connection_step_def [of _ DrainDeadline])
    with aborting_joins_drain [of "c\<lparr>pc_phase := AbortingRelays sd\<rparr>" sd ids io_text joined sh] assms(3)
    show ?thesis by simp
  qed
qed

definition demo_connection :: AuthenticatedConnection where
  "demo_connection = \<lparr>ac_connection = connection_with [], ac_protocol = Tuic\<rparr>"

definition demo_stream :: AcceptedProxyStream where
  "demo_stream = \<lparr>aps_recv = ([], Fin), aps_header = \<lparr>oh_network = Tcp, oh_address = OwnedIpv4 1, oh_port = 80\<rparr>,
     aps_initial_payload = []\<rparr>"

definition ServerShared_default :: ServerShared where
  "ServerShared_default = \<lparr>sh_metrics = ServerMetrics_default, sh_log = []\<rparr>"

theorem connection_task_drains_witness:
  "drained True (fst (run_connection (\<lambda>_. [])
    [ShutdownChanged (Some True), DrainDeadline, RelayJoined 0 (Err JoinCancelled),
     RelayJoined 1 (Ok (Err NoUsableTcpTarget))]
    (Continue ((ProxyConnection_start demo_connection)\<lparr>pc_relays := [(0, demo_stream), (1, demo_stream)]\<rparr>),
     ServerShared_default)))"
  using connection_task_drains [of "(ProxyConnection_start demo_connection)\<lparr>pc_relays := [(0, demo_stream), (1, demo_stream)]\<rparr>"
      "ShutdownChanged (Some True)" True "[0, 1]" "\<lambda>_. []"
      "\<lambda>i. if i = 0 then Err JoinCancelled else Ok (Err NoUsableTcpTarget)" ServerShared_default]
  by (simp add: ProxyConnection_start_def)

end
