(* ===== verification/Server.thy ===== *)
theory Server
  imports Admission ServerConnection
begin

text \<open>
  The server of \<^verbatim>\<open>crates/zuicity-server/src/lib.rs\<close>: its runtime configuration and egress policy,
  and the three accept loops (\<^verbatim>\<open>run_tcp_proxy_loop_until_with_hooks\<close>,
  \<^verbatim>\<open>run_udp_over_stream_loop_until_with_hooks\<close>, \<^verbatim>\<open>run_proxy_loop_until_with_hooks\<close>). The loops differ
  in the task they run for a connection and in their report, and share everything else; they are one
  step function on events, with these parts as an argument. A run is a list of events, in any order
  in which the branches of the \<^verbatim>\<open>select!\<close> can become ready (a superset of the biased order), and a
  task in a \<^verbatim>\<open>JoinSet\<close> is its position in a list.
\<close>

section \<open>Runtime configuration\<close>

record ServerRuntimeConfig =
  rt_config :: ServerConfig
  rt_tls :: TlsPolicy
  rt_streams :: StreamPolicy
  rt_quic :: QuicRuntimePolicy

definition ServerRuntimeConfig_from_config :: "ServerConfig \<Rightarrow> ServerRuntimeConfig" where
  "ServerRuntimeConfig_from_config config =
     \<lparr>rt_config = config, rt_tls = TlsPolicy_upstream, rt_streams = StreamPolicy_upstream,
      rt_quic = upstream_server\<lparr>congestion_controller :=
        from_config_name (map_option CongestionControl_as_str (sc_congestion_control config))\<rparr>\<rparr>"

record ServerEgressPolicy =
  se_block_underlay_udp443 :: bool
  se_send_through :: "IpAddr option"
  se_fwmark :: "u32 option"
  se_dialer_link :: "string option"

definition ServerEgressPolicy_from_config :: "ServerConfig \<Rightarrow> ServerEgressPolicy" where
  "ServerEgressPolicy_from_config config =
     \<lparr>se_block_underlay_udp443 = rc_disable_outbound_udp443 (sc_raw config),
      se_send_through = sc_send_through config,
      se_fwmark = sc_fwmark config,
      se_dialer_link =
        (case sc_dialer_link config of
           Some link \<Rightarrow> Some link
         | None \<Rightarrow>
             if rc_dialer_link (sc_raw config) \<noteq> [] then Some (rc_dialer_link (sc_raw config)) else None)\<rparr>"

definition blocks_underlay_udp_target_port :: "ServerEgressPolicy \<Rightarrow> u16 \<Rightarrow> bool" where
  "blocks_underlay_udp_target_port policy target_port \<longleftrightarrow>
     se_block_underlay_udp443 policy \<and> target_port = 443"

text \<open>\<open>None\<close> is a panic of the link parser.\<close>

definition transport_policy ::
    "Libs \<Rightarrow> ServerEgressPolicy \<Rightarrow> (ProxyEgressPolicy, TransportError) result option" where
  "transport_policy libs policy =
     (case se_dialer_link policy of
        None \<Rightarrow> Some (Ok (with_send_through_fwmark_and_dialer_link (se_send_through policy) (se_fwmark policy) None))
      | Some link \<Rightarrow>
          map_option
            (map_ok (\<lambda>l. with_send_through_fwmark_and_dialer_link (se_send_through policy) (se_fwmark policy) (Some l)))
            (ProxyDialerLink_parse libs link))"

record BoundServerRuntime =
  bs_users :: "(Uuid \<times> string) list"
  bs_egress :: ProxyEgressPolicy
  bs_authenticated_policy :: AuthenticatedConnectionPolicy

text \<open>\<open>bind\<close> is the endpoint bind of the transport crate, which reads certificate and key.\<close>

definition bind_with_pem ::
    "Libs \<Rightarrow> (QuicRuntimePolicy \<Rightarrow> (unit, TransportError) result) \<Rightarrow> ServerRuntimeConfig
     \<Rightarrow> (BoundServerRuntime, ServerError) result option" where
  "bind_with_pem libs bind rt =
     (let quic = (rt_quic rt)\<lparr>streams := rt_streams rt\<rparr> in
      case bind quic of
        Err e \<Rightarrow> Some (Err (ServerTransport e))
      | Ok _ \<Rightarrow>
          map_option
            (\<lambda>policy. and_then (map_err ServerTransport policy) (\<lambda>egress.
               Ok \<lparr>bs_users = sc_users (rt_config rt), bs_egress = egress,
                   bs_authenticated_policy = from_runtime_policy quic\<rparr>))
            (transport_policy libs (ServerEgressPolicy_from_config (rt_config rt))))"

section \<open>Authentication tasks\<close>

definition AUTHENTICATION_TIMEOUT :: Duration where "AUTHENTICATION_TIMEOUT = from_secs 10"

text \<open>
  An incoming connection: where it comes from, and what its peer will do - the connection the
  handshake yields, its exporter, and how long handshake and authentication take.
\<close>

record Incoming =
  in_remote_ip :: IpAddr
  in_connection :: "(QuinnConnection, TransportError) result"
  in_exporter :: Exporter
  in_elapsed :: "Duration option"

definition authenticate_incoming_connection ::
    "BoundServerRuntime \<Rightarrow> Incoming \<Rightarrow> (AuthenticatedConnection, ServerError) result" where
  "authenticate_incoming_connection server incoming =
     map_err ServerTransport
       (authenticate_with_timeout AUTHENTICATION_TIMEOUT (in_elapsed incoming) (in_exporter incoming)
          (bs_authenticated_policy server)
          (map (\<lambda>(uuid, password). (uuid, as_bytes password)) (bs_users server))
          (in_connection incoming))"

text \<open>A task that has panicked or was cancelled has given its permit back.\<close>

datatype AuthTask = Authenticating Incoming | AuthLost JoinError

section \<open>The accept loop\<close>

text \<open>A connection task is running, which keeps the connection counted as active, or has ended.\<close>

datatype ('c, 'o) ConnTask = TaskRunning 'c | TaskEnded "('o, JoinError) result"

record ('c, 'o, 'r) ServerLoop =
  sl_accepting :: bool
  sl_admission :: PreAuthAdmission
  sl_auth_tasks :: "AuthTask list"
  sl_tasks :: "('c, 'o) ConnTask list"
  sl_report :: 'r
  sl_shared :: ServerShared
  sl_shutdown_sent :: bool

text \<open>
  \<open>ShutdownFired\<close>: the shutdown future resolves. \<open>AuthTaskLost\<close>, \<open>AuthJoined\<close>: an authentication
  task panics or is cancelled, or is joined. \<open>IncomingReady\<close>: the accept task ends. \<open>TaskEvent\<close>: a connection task makes a
  step. \<open>TaskPanics\<close>, \<open>TaskCancelled\<close>, \<open>TaskJoined\<close>: a connection task panics, is cancelled by
  the runtime, or is joined.
\<close>

datatype 'e server_event =
    ShutdownFired
  | AuthTaskLost nat JoinError
  | AuthJoined nat
  | IncomingReady "((Incoming, ServerError) result, JoinError) result"
  | TaskEvent nat 'e
  | TaskPanics nat string
  | TaskCancelled nat
  | TaskJoined nat

datatype ('c, 'o, 'r) loop_outcome =
    Looping "('c, 'o, 'r) ServerLoop"
  | LoopReturned "('r, ServerError) result" "('c, 'o, 'r) ServerLoop"

text \<open>What the three loops do differently.\<close>

record ('c, 'e, 'o, 'r) LoopOps =
  op_spawn :: "AuthenticatedConnection \<Rightarrow> 'c"
  op_step :: "'e \<Rightarrow> 'c \<Rightarrow> ServerShared \<Rightarrow> ('c, 'o) task_step \<times> ServerShared"
  op_count_accepted :: "'r \<Rightarrow> 'r"
  op_count_rejected :: "'r \<Rightarrow> 'r"
  op_join :: "'o \<Rightarrow> 'r \<Rightarrow> ServerShared \<Rightarrow> ('r, ServerError) result \<times> ServerShared"

definition remove_nth :: "nat \<Rightarrow> 'a list \<Rightarrow> 'a list" where
  "remove_nth i xs = take i xs @ drop (Suc i) xs"

fun task_permit :: "AuthTask \<Rightarrow> IpAddr list" where
  "task_permit (Authenticating incoming) = [in_remote_ip incoming]"
| "task_permit (AuthLost _) = []"

definition pending_ips :: "AuthTask list \<Rightarrow> IpAddr list" where
  "pending_ips tasks = concat (map task_permit tasks)"

definition is_running :: "('c, 'o) ConnTask \<Rightarrow> bool" where
  "is_running t = (case t of TaskRunning _ \<Rightarrow> True | TaskEnded _ \<Rightarrow> False)"

text \<open>Leaving the loop with an error drops both task sets, and with them permits and guards.\<close>

definition drop_guards :: "('c, 'o) ConnTask list \<Rightarrow> ServerShared \<Rightarrow> ServerShared" where
  "drop_guards tasks sh = fold (\<lambda>_. count_in connection_closed) (filter is_running tasks) sh"

definition fail_loop :: "ServerError \<Rightarrow> ('c, 'o, 'r) ServerLoop \<Rightarrow> ('c, 'o, 'r) loop_outcome" where
  "fail_loop error s =
     LoopReturned (Err error)
       (s\<lparr>sl_admission := foldl drop_permit (sl_admission s) (pending_ips (sl_auth_tasks s)),
          sl_auth_tasks := [], sl_tasks := [], sl_shared := drop_guards (sl_tasks s) (sl_shared s)\<rparr>)"

text \<open>The \<^verbatim>\<open>else\<close> branch: nothing is left to wait for.\<close>

definition settle_loop :: "('c, 'o, 'r) ServerLoop \<Rightarrow> ('c, 'o, 'r) loop_outcome" where
  "settle_loop s =
     (if \<not> sl_accepting s \<and> sl_tasks s = [] then LoopReturned (Ok (sl_report s)) s else Looping s)"

definition reject_connection ::
    "('c, 'e, 'o, 'r) LoopOps \<Rightarrow> ('c, 'o, 'r) ServerLoop \<Rightarrow> ('c, 'o, 'r) ServerLoop" where
  "reject_connection ops s =
     s\<lparr>sl_report := op_count_rejected ops (sl_report s),
       sl_shared := count_in connection_rejected (sl_shared s)\<rparr>"

definition reject_error ::
    "('c, 'e, 'o, 'r) LoopOps \<Rightarrow> (IoError \<Rightarrow> string) \<Rightarrow> ServerError \<Rightarrow> ('c, 'o, 'r) ServerLoop
     \<Rightarrow> ('c, 'o, 'r) ServerLoop" where
  "reject_error ops io_text error s =
     (if is_ignorable_pre_auth_error io_text error then s
      else reject_connection ops (s\<lparr>sl_shared := trace_authenticated_accept_error error (sl_shared s)\<rparr>))"

definition authenticated_step ::
    "('c, 'e, 'o, 'r) LoopOps \<Rightarrow> (IoError \<Rightarrow> string) \<Rightarrow> BoundServerRuntime \<Rightarrow> nat
     \<Rightarrow> ('c, 'o, 'r) ServerLoop \<Rightarrow> ('c, 'o, 'r) loop_outcome" where
  "authenticated_step ops io_text server i s =
     (if \<not> sl_accepting s \<or> length (sl_auth_tasks s) \<le> i then Looping s
      else
        (let task = sl_auth_tasks s ! i;
             s = s\<lparr>sl_auth_tasks := remove_nth i (sl_auth_tasks s)\<rparr>
         in case task of
              AuthLost JoinCancelled \<Rightarrow> Looping s
            | AuthLost error \<Rightarrow> fail_loop (ServerJoin error) s
            | Authenticating incoming \<Rightarrow>
                (let s = s\<lparr>sl_admission := drop_permit (sl_admission s) (in_remote_ip incoming)\<rparr> in
                 case authenticate_incoming_connection server incoming of
                   Ok connection \<Rightarrow>
                     Looping (s\<lparr>sl_report := op_count_accepted ops (sl_report s),
                       sl_shared := count_in connection_accepted (sl_shared s),
                       sl_tasks := sl_tasks s @ [TaskRunning (op_spawn ops connection)]\<rparr>)
                 | Err error \<Rightarrow> Looping (reject_error ops io_text error s))))"

definition incoming_step ::
    "('c, 'e, 'o, 'r) LoopOps \<Rightarrow> (IoError \<Rightarrow> string)
     \<Rightarrow> ((Incoming, ServerError) result, JoinError) result
     \<Rightarrow> ('c, 'o, 'r) ServerLoop \<Rightarrow> ('c, 'o, 'r) loop_outcome" where
  "incoming_step ops io_text accepted s =
     (if \<not> (sl_accepting s \<and> has_global_capacity (sl_admission s)) then Looping s
      else
        (case accepted of
           Ok (Ok incoming) \<Rightarrow>
             (case try_admit (sl_admission s) (in_remote_ip incoming) of
                Some admission \<Rightarrow>
                  Looping (s\<lparr>sl_admission := admission,
                    sl_auth_tasks := sl_auth_tasks s @ [Authenticating incoming]\<rparr>)
              | None \<Rightarrow>
                  Looping (reject_connection ops (s\<lparr>sl_shared := trace Debug ''handleAuth'' (sl_shared s)\<rparr>)))
         | Ok (Err error) \<Rightarrow>
             if is_fatal_accept_error error then fail_loop error s
             else Looping (reject_error ops io_text error s)
         | Err JoinCancelled \<Rightarrow> Looping s
         | Err error \<Rightarrow> fail_loop (ServerJoin error) s))"

text \<open>The end of a connection task drops its guard.\<close>

definition end_task ::
    "nat \<Rightarrow> ('o, JoinError) result \<Rightarrow> ServerShared \<Rightarrow> ('c, 'o, 'r) ServerLoop \<Rightarrow> ('c, 'o, 'r) ServerLoop" where
  "end_task i res sh s =
     s\<lparr>sl_tasks := (sl_tasks s)[i := TaskEnded res], sl_shared := count_in connection_closed sh\<rparr>"

definition task_event_step ::
    "('c, 'e, 'o, 'r) LoopOps \<Rightarrow> nat \<Rightarrow> 'e \<Rightarrow> ('c, 'o, 'r) ServerLoop \<Rightarrow> ('c, 'o, 'r) ServerLoop" where
  "task_event_step ops i event s =
     (if length (sl_tasks s) \<le> i then s
      else case sl_tasks s ! i of
          TaskEnded _ \<Rightarrow> s
        | TaskRunning c \<Rightarrow>
            (case op_step ops event c (sl_shared s) of
               (Continue c, sh) \<Rightarrow> s\<lparr>sl_tasks := (sl_tasks s)[i := TaskRunning c], sl_shared := sh\<rparr>
             | (Return res, sh) \<Rightarrow> end_task i (Ok res) sh s))"

definition task_lost_step ::
    "nat \<Rightarrow> JoinError \<Rightarrow> ('c, 'o, 'r) ServerLoop \<Rightarrow> ('c, 'o, 'r) ServerLoop" where
  "task_lost_step i error s =
     (if i < length (sl_tasks s) \<and> is_running (sl_tasks s ! i) then end_task i (Err error) (sl_shared s) s
      else s)"

definition joined_step ::
    "('c, 'e, 'o, 'r) LoopOps \<Rightarrow> nat \<Rightarrow> ('c, 'o, 'r) ServerLoop \<Rightarrow> ('c, 'o, 'r) loop_outcome" where
  "joined_step ops i s =
     (if length (sl_tasks s) \<le> i then Looping s
      else case sl_tasks s ! i of
          TaskRunning _ \<Rightarrow> Looping s
        | TaskEnded res \<Rightarrow>
            (let s = s\<lparr>sl_tasks := remove_nth i (sl_tasks s)\<rparr> in
             case res of
               Ok out \<Rightarrow>
                 (case op_join ops out (sl_report s) (sl_shared s) of
                    (Ok report, sh) \<Rightarrow> settle_loop (s\<lparr>sl_report := report, sl_shared := sh\<rparr>)
                  | (Err error, sh) \<Rightarrow> fail_loop error (s\<lparr>sl_shared := sh\<rparr>))
             | Err JoinCancelled \<Rightarrow> settle_loop s
             | Err error \<Rightarrow> fail_loop (ServerJoin error) s))"

definition shutdown_step :: "('c, 'o, 'r) ServerLoop \<Rightarrow> ('c, 'o, 'r) loop_outcome" where
  "shutdown_step s =
     (if sl_accepting s then
        settle_loop (s\<lparr>sl_accepting := False, sl_auth_tasks := [],
          sl_admission := foldl drop_permit (sl_admission s) (pending_ips (sl_auth_tasks s)),
          sl_shutdown_sent := True\<rparr>)
      else Looping s)"

definition auth_lost_step :: "nat \<Rightarrow> JoinError \<Rightarrow> ('c, 'o, 'r) ServerLoop \<Rightarrow> ('c, 'o, 'r) ServerLoop" where
  "auth_lost_step i p s =
     (if length (sl_auth_tasks s) \<le> i then s
      else case sl_auth_tasks s ! i of
          AuthLost _ \<Rightarrow> s
        | Authenticating incoming \<Rightarrow>
            s\<lparr>sl_auth_tasks := (sl_auth_tasks s)[i := AuthLost p],
              sl_admission := drop_permit (sl_admission s) (in_remote_ip incoming)\<rparr>)"

fun server_loop_step ::
    "('c, 'e, 'o, 'r) LoopOps \<Rightarrow> (IoError \<Rightarrow> string) \<Rightarrow> BoundServerRuntime \<Rightarrow> 'e server_event
     \<Rightarrow> ('c, 'o, 'r) ServerLoop \<Rightarrow> ('c, 'o, 'r) loop_outcome" where
  "server_loop_step ops io_text server ShutdownFired s = shutdown_step s"
| "server_loop_step ops io_text server (AuthTaskLost i p) s = Looping (auth_lost_step i p s)"
| "server_loop_step ops io_text server (AuthJoined i) s = authenticated_step ops io_text server i s"
| "server_loop_step ops io_text server (IncomingReady accepted) s = incoming_step ops io_text accepted s"
| "server_loop_step ops io_text server (TaskEvent i event) s = Looping (task_event_step ops i event s)"
| "server_loop_step ops io_text server (TaskPanics i p) s = Looping (task_lost_step i (JoinPanicked p) s)"
| "server_loop_step ops io_text server (TaskCancelled i) s = Looping (task_lost_step i JoinCancelled s)"
| "server_loop_step ops io_text server (TaskJoined i) s = joined_step ops i s"

fun run_loop ::
    "('c, 'e, 'o, 'r) LoopOps \<Rightarrow> (IoError \<Rightarrow> string) \<Rightarrow> BoundServerRuntime \<Rightarrow> 'e server_event list
     \<Rightarrow> ('c, 'o, 'r) loop_outcome \<Rightarrow> ('c, 'o, 'r) loop_outcome" where
  "run_loop ops io_text server (event # events) (Looping s) =
     run_loop ops io_text server events (server_loop_step ops io_text server event s)"
| "run_loop ops io_text server _ out = out"

definition loop_start :: "'r \<Rightarrow> ServerShared \<Rightarrow> ('c, 'o, 'r) ServerLoop" where
  "loop_start report sh =
     \<lparr>sl_accepting = True, sl_admission = PreAuthAdmission_new, sl_auth_tasks = [], sl_tasks = [],
      sl_report = report, sl_shared = sh, sl_shutdown_sent = False\<rparr>"

definition run_loop_until ::
    "('c, 'e, 'o, 'r) LoopOps \<Rightarrow> (IoError \<Rightarrow> string) \<Rightarrow> BoundServerRuntime \<Rightarrow> 'r \<Rightarrow> 'e server_event list
     \<Rightarrow> ServerShared \<Rightarrow> ('c, 'o, 'r) loop_outcome" where
  "run_loop_until ops io_text server report events sh =
     (if bs_users server = [] then LoopReturned (Err NoUsersConfigured) (loop_start report sh)
      else run_loop ops io_text server events (Looping (loop_start report sh)))"

section \<open>The three loops\<close>

record ServerTcpLoopReport =
  tl_accepted_connections :: u64
  tl_completed_tcp_relays :: u64
  tl_bytes_from_client :: u64
  tl_bytes_from_target :: u64

record ServerUdpLoopReport =
  ul_accepted_connections :: u64
  ul_completed_udp_relays :: u64
  ul_bytes_from_client :: u64
  ul_bytes_from_target :: u64

text \<open>The TCP loop: a connection task relays one stream; the event is how that relay ends.\<close>

type_synonym tcp_outcome = "(TcpProxyRelayReport, ServerError) result"
type_synonym tcp_event = "(TcpProxyRelayReport, TransportError) result"

definition tcp_task_step ::
    "tcp_event \<Rightarrow> AuthenticatedConnection \<Rightarrow> ServerShared
     \<Rightarrow> (AuthenticatedConnection, tcp_outcome) task_step \<times> ServerShared" where
  "tcp_task_step relay c sh =
     (case relay of
        Err e \<Rightarrow> (Return (Err (ServerTransport e)), sh)
      | Ok report \<Rightarrow>
          (Return (Ok report),
           count_in (\<lambda>m. tcp_relay_completed m (tr_bytes_from_client report) (tr_bytes_from_target report)) sh))"

definition tcp_join ::
    "(IoError \<Rightarrow> string) \<Rightarrow> tcp_outcome \<Rightarrow> ServerTcpLoopReport \<Rightarrow> ServerShared
     \<Rightarrow> (ServerTcpLoopReport, ServerError) result \<times> ServerShared" where
  "tcp_join io_text joined report sh =
     (case joined of
        Ok relay \<Rightarrow>
          (Ok (report\<lparr>tl_completed_tcp_relays := tl_completed_tcp_relays report + 1,
                 tl_bytes_from_client := tl_bytes_from_client report + tr_bytes_from_client relay,
                 tl_bytes_from_target := tl_bytes_from_target report + tr_bytes_from_target relay\<rparr>),
           trace_tcp_proxy_relay sh)
      | Err (ServerTransport error) \<Rightarrow>
          if proxy_connection_closed io_text error then (Ok report, sh) else (Err (ServerTransport error), sh)
      | Err error \<Rightarrow> (Err error, sh))"

definition tcp_loop_ops ::
    "(IoError \<Rightarrow> string) \<Rightarrow> (AuthenticatedConnection, tcp_event, tcp_outcome, ServerTcpLoopReport) LoopOps" where
  "tcp_loop_ops io_text =
     \<lparr>op_spawn = (\<lambda>connection. connection), op_step = tcp_task_step,
      op_count_accepted = (\<lambda>r. r\<lparr>tl_accepted_connections := tl_accepted_connections r + 1\<rparr>),
      op_count_rejected = (\<lambda>r. r), op_join = tcp_join io_text\<rparr>"

definition udp_join ::
    "(IoError \<Rightarrow> string) \<Rightarrow> udp_conn_result \<Rightarrow> ServerUdpLoopReport \<Rightarrow> ServerShared
     \<Rightarrow> (ServerUdpLoopReport, ServerError) result \<times> ServerShared" where
  "udp_join io_text joined report sh =
     (case joined of
        Ok r \<Rightarrow>
          (Ok (report\<lparr>ul_completed_udp_relays := ul_completed_udp_relays report + uc_completed_udp_relays r,
                 ul_bytes_from_client := ul_bytes_from_client report + uc_bytes_from_client r,
                 ul_bytes_from_target := ul_bytes_from_target report + uc_bytes_from_target r\<rparr>), sh)
      | Err (ServerTransport error) \<Rightarrow>
          if proxy_connection_closed io_text error then (Ok report, sh) else (Err (ServerTransport error), sh)
      | Err error \<Rightarrow> (Err error, sh))"

definition udp_loop_ops ::
    "(IoError \<Rightarrow> string) \<Rightarrow> (UdpConnection, udp_conn_event, udp_conn_result, ServerUdpLoopReport) LoopOps" where
  "udp_loop_ops io_text =
     \<lparr>op_spawn = UdpConnection_start, op_step = udp_connection_step io_text,
      op_count_accepted = (\<lambda>r. r\<lparr>ul_accepted_connections := ul_accepted_connections r + 1\<rparr>),
      op_count_rejected = (\<lambda>r. r), op_join = udp_join io_text\<rparr>"

definition proxy_task_step ::
    "(IoError \<Rightarrow> string) \<Rightarrow> conn_event \<Rightarrow> ProxyConnection \<Rightarrow> ServerShared
     \<Rightarrow> (ProxyConnection, conn_result) task_step \<times> ServerShared" where
  "proxy_task_step io_text event c sh =
     (case proxy_connection_step io_text event c sh of
        (Continue c, sh) \<Rightarrow> (Continue c, sh)
      | (Return (res, _), sh) \<Rightarrow> (Return res, sh))"

definition proxy_loop_ops ::
    "(IoError \<Rightarrow> string) \<Rightarrow> (ProxyConnection, conn_event, conn_result, ServerProxyLoopReport) LoopOps" where
  "proxy_loop_ops io_text =
     \<lparr>op_spawn = ProxyConnection_start, op_step = proxy_task_step io_text,
      op_count_accepted = (\<lambda>r. r\<lparr>pr_accepted_connections := pr_accepted_connections r + 1\<rparr>),
      op_count_rejected = (\<lambda>r. r\<lparr>pr_rejected_connections := pr_rejected_connections r + 1\<rparr>),
      op_join = (\<lambda>joined report sh. (map_ok (merge_report report) joined, sh))\<rparr>"

definition run_tcp_proxy_loop_until_with_hooks where
  "run_tcp_proxy_loop_until_with_hooks io_text server =
     run_loop_until (tcp_loop_ops io_text) io_text server
       \<lparr>tl_accepted_connections = 0, tl_completed_tcp_relays = 0, tl_bytes_from_client = 0, tl_bytes_from_target = 0\<rparr>"

definition run_udp_over_stream_loop_until_with_hooks where
  "run_udp_over_stream_loop_until_with_hooks io_text server =
     run_loop_until (udp_loop_ops io_text) io_text server
       \<lparr>ul_accepted_connections = 0, ul_completed_udp_relays = 0, ul_bytes_from_client = 0, ul_bytes_from_target = 0\<rparr>"

definition run_proxy_loop_until_with_hooks where
  "run_proxy_loop_until_with_hooks io_text server =
     run_loop_until (proxy_loop_ops io_text) io_text server ServerProxyLoopReport_default"

text \<open>One connection without a loop; \<open>incoming\<close> is what the endpoint yields. There is no timeout.\<close>

definition accept_authenticated_connection ::
    "BoundServerRuntime \<Rightarrow> (Incoming, TransportError) result \<Rightarrow> ServerShared
     \<Rightarrow> (AuthenticatedConnection, ServerError) result \<times> ServerShared" where
  "accept_authenticated_connection server incoming sh =
     (if bs_users server = [] then (Err NoUsersConfigured, sh)
      else
        (let accepted = map_err ServerTransport (and_then incoming (\<lambda>i.
               authenticate_with (in_exporter i) (bs_authenticated_policy server)
                 (map (\<lambda>(uuid, password). (uuid, as_bytes password)) (bs_users server)) (in_connection i)))
         in (accepted,
             case accepted of Err error \<Rightarrow> trace_authenticated_accept_error error sh | Ok _ \<Rightarrow> sh)))"

section \<open>Facts on runs\<close>

fun loop_state :: "('c, 'o, 'r) loop_outcome \<Rightarrow> ('c, 'o, 'r) ServerLoop" where
  "loop_state (Looping s) = s"
| "loop_state (LoopReturned r s) = s"

text \<open>An invariant of single steps holds throughout a run.\<close>

lemma run_loop_induct:
  assumes "I (Looping s)"
    and "\<And>event s. event \<in> set events \<Longrightarrow> I (Looping s) \<Longrightarrow> I (server_loop_step ops io_text server event s)"
  shows "I (run_loop ops io_text server events (Looping s))"
proof -
  have "I out \<Longrightarrow> set es \<subseteq> set events \<Longrightarrow> I (run_loop ops io_text server es out)" for es out
  proof (induction es arbitrary: out)
    case (Cons e es)
    with assms(2) show ?case by (cases out) auto
  qed (cases out; simp)
  with assms(1) show ?thesis by blast
qed

lemma pending_ips_simps [simp]:
  "pending_ips [] = []" "pending_ips (t # ts) = task_permit t @ pending_ips ts"
  "pending_ips (ts @ ts') = pending_ips ts @ pending_ips ts'"
  by (simp_all add: pending_ips_def)

lemma mset_pending_nth:
  assumes "i < length ts"
  shows "mset (pending_ips ts) = mset (task_permit (ts ! i)) + mset (pending_ips (remove_nth i ts))"
    and "mset (pending_ips (ts[i := t])) = mset (task_permit t) + mset (pending_ips (remove_nth i ts))"
proof -
  have "pending_ips ts = pending_ips (take i ts @ ts ! i # drop (Suc i) ts)"
    using assms by (simp add: id_take_nth_drop [symmetric])
  then show "mset (pending_ips ts) = mset (task_permit (ts ! i)) + mset (pending_ips (remove_nth i ts))"
    by (simp add: remove_nth_def)
  show "mset (pending_ips (ts[i := t])) = mset (task_permit t) + mset (pending_ips (remove_nth i ts))"
    using assms by (simp add: upd_conv_take_nth_drop remove_nth_def)
qed

section \<open>Pending authentications\<close>

text \<open>The permits that are out are those of the authentication tasks, and they respect the limits.\<close>

definition admission_ok :: "('c, 'o, 'r) loop_outcome \<Rightarrow> bool" where
  "admission_ok out \<longleftrightarrow>
     permits_out (sl_admission (loop_state out)) (mset (pending_ips (sl_auth_tasks (loop_state out))))
     \<and> admission.within (mset (pending_ips (sl_auth_tasks (loop_state out))))"

lemma admission_ok_fail [simp]: "admission_ok (Looping s) \<Longrightarrow> admission_ok (fail_loop e s)"
  using admission.release_all [of "sl_admission s" "pending_ips (sl_auth_tasks s)" "{#}"]
  by (auto simp: admission_ok_def fail_loop_def admission.within_def)

lemma loop_state_settle [simp]: "loop_state (settle_loop s) = s"
  by (simp add: settle_loop_def)

lemma admission_ok_settle [simp]: "admission_ok (settle_loop s) = admission_ok (Looping s)"
  by (simp add: admission_ok_def)

lemma admission_ok_cong:
  fixes s s' :: "('c, 'o, 'r) ServerLoop"
  shows "sl_admission s' = sl_admission s \<Longrightarrow> sl_auth_tasks s' = sl_auth_tasks s \<Longrightarrow>
     admission_ok (Looping s') = admission_ok (Looping s)"
  by (simp add: admission_ok_def)

lemma reject_same [simp]:
  "sl_admission (reject_connection ops s) = sl_admission s"
  "sl_auth_tasks (reject_connection ops s) = sl_auth_tasks s"
  "sl_admission (reject_error ops io_text e s) = sl_admission s"
  "sl_auth_tasks (reject_error ops io_text e s) = sl_auth_tasks s"
  by (simp_all add: reject_error_def reject_connection_def)

text \<open>A task whose permit is dropped when the task leaves the set.\<close>

lemma admission_ok_remove:
  fixes s s' :: "('c, 'o, 'r) ServerLoop"
  assumes "admission_ok (Looping s)" and "i < length (sl_auth_tasks s)"
    and "sl_auth_tasks s ! i = Authenticating incoming"
    and "mset (pending_ips ts) = mset (pending_ips (remove_nth i (sl_auth_tasks s)))"
    and "sl_auth_tasks s' = ts" and "sl_admission s' = drop_permit (sl_admission s) (in_remote_ip incoming)"
  shows "admission_ok (Looping s')"
proof -
  let ?P = "mset (pending_ips ts)"
  have eq: "mset (pending_ips (sl_auth_tasks s)) = add_mset (in_remote_ip incoming) ?P"
    using mset_pending_nth(1) [OF assms(2)] assms(3,4) by simp
  with assms(1) have "permits_out (sl_admission s) (add_mset (in_remote_ip incoming) ?P)"
    and "admission.within (add_mset (in_remote_ip incoming) ?P)" by (auto simp: admission_ok_def)
  then have "permits_out (sl_admission s') ?P" "admission.within ?P"
    using admission.rep_release admission.within_mono [of ?P "add_mset (in_remote_ip incoming) ?P"] assms(6)
    by auto
  with assms(5) show ?thesis by (simp add: admission_ok_def)
qed

lemma admission_ok_authenticated:
  assumes "admission_ok (Looping s)"
  shows "admission_ok (authenticated_step ops io_text server i s)"
proof (cases "\<not> sl_accepting s \<or> length (sl_auth_tasks s) \<le> i")
  case True
  with assms show ?thesis by (simp add: authenticated_step_def)
next
  case False
  then have i: "i < length (sl_auth_tasks s)" by simp
  show ?thesis
  proof (cases "sl_auth_tasks s ! i")
    case (Authenticating incoming)
    with False admission_ok_remove [OF assms i Authenticating refl] show ?thesis
      by (auto simp: authenticated_step_def Let_def split: result.split)
  next
    case (AuthLost p)
    with mset_pending_nth(1) [OF i] assms
    have "admission_ok (Looping (s\<lparr>sl_auth_tasks := remove_nth i (sl_auth_tasks s)\<rparr>))"
      by (simp add: admission_ok_def)
    with False AuthLost show ?thesis by (auto simp: authenticated_step_def Let_def split: JoinError.split)
  qed
qed

lemma admission_ok_incoming:
  assumes "admission_ok (Looping s)"
  shows "admission_ok (incoming_step ops io_text accepted s)"
proof -
  have admit: "admission_ok (Looping (s\<lparr>sl_admission := adm, sl_auth_tasks := sl_auth_tasks s @ [Authenticating inc]\<rparr>))"
    if "try_admit (sl_admission s) (in_remote_ip inc) = Some adm" for inc adm
    using that assms
      admission.admit_Some [of "sl_admission s" "mset (pending_ips (sl_auth_tasks s))" "in_remote_ip inc" adm]
      admission.within_admit [of "sl_admission s" "mset (pending_ips (sl_auth_tasks s))" "in_remote_ip inc" adm]
    by (simp add: admission_ok_def)
  have same: "admission_ok (Looping (reject_connection ops (s\<lparr>sl_shared := sh\<rparr>)))"
    "admission_ok (Looping (reject_error ops io_text e s))" for sh e
    using assms by (simp_all add: admission_ok_def)
  show ?thesis using assms admit same
    by (auto simp: incoming_step_def split: result.split option.split JoinError.split)
qed

lemma task_steps_same [simp]:
  "sl_admission (task_event_step ops i e s) = sl_admission s"
  "sl_auth_tasks (task_event_step ops i e s) = sl_auth_tasks s"
  "sl_admission (task_lost_step i je s) = sl_admission s"
  "sl_auth_tasks (task_lost_step i je s) = sl_auth_tasks s"
  by (simp_all add: task_event_step_def task_lost_step_def end_task_def
      split: ConnTask.split task_step.split prod.split)

lemma admission_ok_joined:
  fixes s :: "('c, 'o, 'r) ServerLoop"
  assumes "admission_ok (Looping s)"
  shows "admission_ok (joined_step ops i s)"
proof -
  have same: "admission_ok (Looping s')" if "sl_admission s' = sl_admission s" "sl_auth_tasks s' = sl_auth_tasks s"
    for s' :: "('c, 'o, 'r) ServerLoop" using assms that by (simp add: admission_ok_def)
  show ?thesis using assms same
    by (auto simp: joined_step_def Let_def split: ConnTask.split result.split prod.split JoinError.split)
qed

lemma admission_ok_step:
  assumes "admission_ok (Looping s)"
  shows "admission_ok (server_loop_step ops io_text server event s)"
proof (cases event)
  case ShutdownFired
  with assms admission.release_all [of "sl_admission s" "pending_ips (sl_auth_tasks s)" "{#}"] show ?thesis
    by (auto simp: shutdown_step_def admission_ok_def admission.within_def)
next
  case (AuthTaskLost i p)
  show ?thesis
  proof (cases "i < length (sl_auth_tasks s) \<and> (\<exists>inc. sl_auth_tasks s ! i = Authenticating inc)")
    case True
    then obtain inc where i: "i < length (sl_auth_tasks s)" "sl_auth_tasks s ! i = Authenticating inc" by blast
    with admission_ok_remove [OF assms i] mset_pending_nth(2) [OF i(1), of "AuthLost p"] AuthTaskLost
    show ?thesis by (simp add: auth_lost_step_def)
  next
    case False
    with AuthTaskLost assms show ?thesis by (auto simp: auth_lost_step_def split: AuthTask.split)
  qed
qed (use assms admission_ok_authenticated admission_ok_incoming admission_ok_joined in
    \<open>auto cong: admission_ok_cong\<close>)

lemma admission_ok_run: "admission_ok (run_loop_until ops io_text server report events sh)"
proof -
  have start: "admission_ok (Looping (loop_start report sh))"
    using admission.rep_empty by (simp add: admission_ok_def loop_start_def admission.within_def)
  then have "admission_ok (run_loop ops io_text server events (Looping (loop_start report sh)))"
    by (rule run_loop_induct) (rule admission_ok_step)
  with admission.rep_empty show ?thesis
    by (simp add: run_loop_until_def loop_start_def admission.within_def admission_ok_def)
qed

text \<open>
  C13: in every run of any of the three accept loops at most 128 connections are authenticating at a
  time and at most 64 of one address; the admission state counts exactly the tasks that are
  authenticating, so no permit is ever lost or given back twice; and a connection is refused exactly
  when one of the two limits is reached.
\<close>

theorem pending_authentications_bounded:
  "let s = loop_state (run_loop_until ops io_text server report events sh);
       pending = pending_ips (sl_auth_tasks s)
   in length pending \<le> 128 \<and> count_list pending ip \<le> 64
    \<and> pa_total (sl_admission s) = length pending \<and> pa_count (sl_admission s) ip = count_list pending ip
    \<and> (try_admit (sl_admission s) ip = None \<longleftrightarrow> length pending = 128 \<or> count_list pending ip = 64)"
proof -
  let ?s = "loop_state (run_loop_until ops io_text server report events sh)"
  let ?ips = "pending_ips (sl_auth_tasks ?s)"
  have rep: "permits_out (sl_admission ?s) (mset ?ips)" and within: "admission.within (mset ?ips)"
    using admission_ok_run [of ops io_text server report events sh] by (auto simp: admission_ok_def)
  have "length ?ips \<le> 128" "count_list ?ips ip \<le> 64"
    using within unfolding admission.within_def by (simp_all add: admission_limits count_mset)
  moreover have "try_admit (sl_admission ?s) ip = None \<longleftrightarrow> \<not> (length ?ips < 128 \<and> count_list ?ips ip < 64)"
    using admission.rep_refuse [OF rep, of ip] admission.rep_admit [OF rep, of ip]
    by (auto simp: admission_limits count_mset)
  ultimately show ?thesis using rep pa_count_permits [OF rep, of ip]
    by (auto simp: Let_def permits_out_def count_mset)
qed

section \<open>Only authenticated connections are served\<close>

lemma map_of_as_bytes:
  "map_of (map (\<lambda>(uuid, password). (uuid, as_bytes password)) users) u = map_option as_bytes (map_of users u)"
  by (induction users) auto

lemma authenticate_incoming_Ok:
  assumes "authenticate_incoming_connection server incoming = Ok connection"
  shows "\<exists>quinn elapsed skipped frame rest e later uuid password token.
      in_connection incoming = Ok quinn \<and> in_elapsed incoming = Some elapsed \<and> elapsed < 10000
    \<and> qc_uni_streams quinn = skipped @ (frame @ rest, e) # later
    \<and> (\<forall>s\<in>set skipped. \<not> is_auth_frame (fst s))
    \<and> frame = [version_byte (ac_protocol connection), 0] @ Uuid_as_bytes uuid @ token
    \<and> map_of (bs_users server) uuid = Some password
    \<and> export_connection_authentication_token (in_exporter incoming) uuid (as_bytes password) = Ok token"
proof -
  let ?cs = "map (\<lambda>(uuid, password). (uuid, as_bytes password)) (bs_users server)"
  from assms obtain t where t: "in_elapsed incoming = Some t" "t < 10000"
    and auth: "authenticate_with (in_exporter incoming) (bs_authenticated_policy server) ?cs (in_connection incoming)
      = Ok connection"
    by (auto simp: authenticate_incoming_connection_def authenticate_with_timeout_def result_simps
        AUTHENTICATION_TIMEOUT_def from_secs_def split: option.splits if_splits)
  from auth obtain quinn where q: "in_connection incoming = Ok quinn"
    by (auto simp: authenticate_with_def and_then_Ok_iff)
  obtain r quinn' where r: "verify_authentication_stream_with (in_exporter incoming) ?cs quinn = (r, quinn')"
    by fastforce
  with auth q obtain protocol where
    v: "verify_authentication_stream_with (in_exporter incoming) ?cs quinn = (Ok protocol, quinn')"
    and p: "ac_protocol connection = protocol"
    by (cases r) (auto simp: authenticate_with_def)
  from verify_authentication_stream_with_Ok [OF v] obtain skipped frame rest e later uuid pw token where
    "qc_uni_streams quinn = skipped @ (frame @ rest, e) # later"
    "\<forall>s\<in>set skipped. \<not> is_auth_frame (fst s)"
    "frame = [version_byte protocol, 0] @ Uuid_as_bytes uuid @ token"
    and pw: "map_of ?cs uuid = Some pw" "export_connection_authentication_token (in_exporter incoming) uuid pw = Ok token"
    by (elim exE conjE) (rule that; assumption)
  moreover from pw(1) obtain password where "map_of (bs_users server) uuid = Some password" "pw = as_bytes password"
    by (auto simp: map_of_as_bytes)
  ultimately show ?thesis using q t p pw(2) by blast
qed

lemma reject_tasks [simp]:
  "sl_tasks (reject_connection ops s) = sl_tasks s" "sl_tasks (reject_error ops io_text e s) = sl_tasks s"
  by (simp_all add: reject_error_def reject_connection_def)

lemma length_task_steps [simp]:
  "length (sl_tasks (task_event_step ops i e s)) = length (sl_tasks s)"
  "length (sl_tasks (task_lost_step i je s)) = length (sl_tasks s)"
  "sl_tasks (auth_lost_step i p s) = sl_tasks s"
  by (simp_all add: task_event_step_def task_lost_step_def end_task_def auth_lost_step_def
      split: ConnTask.split task_step.split prod.split AuthTask.split)

lemma joined_step_shorter:
  "length (sl_tasks (loop_state (joined_step ops i s))) \<le> length (sl_tasks s)"
  by (auto simp: joined_step_def Let_def fail_loop_def remove_nth_def
      split: ConnTask.split result.split prod.split JoinError.split)


text \<open>A server with one user and a peer that authenticates as that user, for concrete runs.\<close>

definition demo_server :: BoundServerRuntime where
  "demo_server = \<lparr>bs_users = [(7, ''abc'')], bs_egress = egress_direct,
     bs_authenticated_policy = from_runtime_policy upstream_server\<rparr>"

definition demo_incoming :: Incoming where
  "demo_incoming = \<lparr>in_remote_ip = V4 1,
     in_connection = Ok (connection_with [(auth_frame Tuic 7 (replicate 32 3), Fin)]),
     in_exporter = length_exporter, in_elapsed = Some 20\<rparr>"

lemma demo_authenticates: "\<exists>connection. authenticate_incoming_connection demo_server demo_incoming = Ok connection"
proof -
  let ?c = "connection_with [(auth_frame Tuic 7 (replicate 32 3), Fin)]"
  have "as_bytes ''abc'' = [0x61, 0x62, 0x63]" by (simp add: as_bytes_def byte_of_char_def)
  then have "verify_authentication_stream_with length_exporter [(7, as_bytes ''abc'')] ?c
      = (Ok Tuic, ?c\<lparr>qc_uni_streams := []\<rparr>)"
    by (subst verify_auth_frame [where pre = "[]" and p = Tuic and u = 7
          and t = "replicate 32 3" and r = "[]" and e = Fin and later = "[]"])
       (simp_all add: connection_with_def)
  then show ?thesis
    by (simp add: authenticate_incoming_connection_def demo_server_def demo_incoming_def
        authenticate_with_timeout_def AUTHENTICATION_TIMEOUT_def from_secs_def authenticate_with_def)
qed


section \<open>What can stop the loop\<close>

definition isolated :: "(ProxyConnection, conn_result, ServerProxyLoopReport) loop_outcome \<Rightarrow> bool" where
  "isolated out \<longleftrightarrow>
     (\<forall>e. TaskEnded (Ok (Err e)) \<in> set (sl_tasks (loop_state out)) \<longrightarrow> (\<exists>j. e = ServerJoin j))
     \<and> (\<forall>e s. out = LoopReturned (Err e) s \<longrightarrow> is_fatal_accept_error e \<or> (\<exists>j. e = ServerJoin j))"

lemma isolated_fail:
  "is_fatal_accept_error e \<or> (\<exists>j. e = ServerJoin j) \<Longrightarrow> isolated (fail_loop e s)"
  by (simp add: isolated_def fail_loop_def)

lemma isolated_settle: "isolated (Looping s) \<Longrightarrow> isolated (settle_loop s)"
  by (simp add: isolated_def settle_loop_def)

lemma isolated_tasks:
  "isolated (Looping s) \<Longrightarrow> set (sl_tasks s') \<subseteq> set (sl_tasks s) \<union> range TaskRunning \<Longrightarrow> isolated (Looping s')"
  by (auto simp: isolated_def)

lemma set_remove_nth: "set (remove_nth i xs) \<subseteq> set xs"
  by (auto simp: remove_nth_def dest: in_set_takeD in_set_dropD)

lemma isolated_task_event:
  assumes "isolated (Looping s)"
  shows "isolated (Looping (task_event_step (proxy_loop_ops io_text) i event s))"
proof (cases "i < length (sl_tasks s)")
  case True
  have upd: "isolated (Looping (s\<lparr>sl_tasks := (sl_tasks s)[i := t], sl_shared := sh\<rparr>))"
    if "\<And>e. t = TaskEnded (Ok (Err e)) \<Longrightarrow> \<exists>j. e = ServerJoin j" for t sh
    using assms that set_update_subset_insert [of "sl_tasks s" i t] by (fastforce simp: isolated_def)
  show ?thesis
  proof (cases "sl_tasks s ! i")
    case (TaskRunning c)
    obtain out sh' where out: "proxy_connection_step io_text event c (sl_shared s) = (out, sh')" by fastforce
    with True TaskRunning upd show ?thesis
      using proxy_connection_step_Return [of io_text event c "sl_shared s"]
      by (cases out) (fastforce simp: task_event_step_def proxy_loop_ops_def proxy_task_step_def end_task_def)+
  qed (use True assms in \<open>simp add: task_event_step_def\<close>)
qed (use assms in \<open>simp add: task_event_step_def\<close>)

lemma isolated_lost: "isolated (Looping s) \<Longrightarrow> isolated (Looping (task_lost_step i je s))"
  using set_update_subset_insert [of "sl_tasks s" i "TaskEnded (Err je)"]
  by (fastforce simp: isolated_def task_lost_step_def end_task_def)

lemma isolated_joined:
  assumes "isolated (Looping s)"
  shows "isolated (joined_step (proxy_loop_ops io_text) i s)"
proof (cases "i < length (sl_tasks s)")
  case True
  then have mem: "sl_tasks s ! i \<in> set (sl_tasks s)" by simp
  have rest: "isolated (Looping (s\<lparr>sl_tasks := remove_nth i (sl_tasks s), sl_report := r\<rparr>))"
    "isolated (Looping (s\<lparr>sl_tasks := remove_nth i (sl_tasks s)\<rparr>))" for r
    using assms set_remove_nth [of i "sl_tasks s"] by (auto simp: isolated_def subset_iff)
  show ?thesis
  proof (cases "sl_tasks s ! i")
    case (TaskEnded res)
    then show ?thesis
    proof (cases res)
      case (Ok out)
      with TaskEnded mem assms have "\<And>e. out = Err e \<Longrightarrow> \<exists>j. e = ServerJoin j" by (auto simp: isolated_def)
      with Ok TaskEnded True rest isolated_settle isolated_fail show ?thesis
        by (cases out) (auto simp: joined_step_def proxy_loop_ops_def)
    next
      case (Err je)
      with TaskEnded True rest isolated_settle isolated_fail show ?thesis
        by (cases je) (auto simp: joined_step_def)
    qed
  qed (use True assms in \<open>simp add: joined_step_def\<close>)
qed (use assms in \<open>simp add: joined_step_def\<close>)

lemma isolated_step:
  assumes "isolated (Looping s)"
  shows "isolated (server_loop_step (proxy_loop_ops io_text) io_text server event s)"
proof (cases event)
  case (AuthJoined i)
  with assms isolated_fail show ?thesis
    by (auto simp: authenticated_step_def Let_def split: AuthTask.split result.split JoinError.split
        intro!: isolated_tasks [OF assms])
next
  case (IncomingReady accepted)
  with assms isolated_fail show ?thesis
    by (auto simp: incoming_step_def split: result.split option.split JoinError.split
        intro!: isolated_tasks [OF assms])
qed (use assms isolated_task_event isolated_lost isolated_joined isolated_settle in
    \<open>auto simp: shutdown_step_def intro!: isolated_tasks [OF assms] isolated_settle\<close>)

text \<open>
  C8: no peer and no target can stop the proxy loop. Whatever connections come in, authenticate or
  not, send malformed streams or break off, and however their relays fail, the loop ends with an
  error only if the server has no users, its endpoint is closed, or a task of its own panics or is
  cancelled.
\<close>

theorem proxy_loop_isolates_peers:
  assumes "run_proxy_loop_until_with_hooks io_text server events sh = LoopReturned (Err error) s"
  shows "error = NoUsersConfigured \<or> error = ServerTransport EndpointClosed \<or> (\<exists>j. error = ServerJoin j)"
proof -
  have start: "isolated (Looping (loop_start ServerProxyLoopReport_default sh))"
    by (simp add: isolated_def loop_start_def)
  have "isolated (run_loop (proxy_loop_ops io_text) io_text server events
      (Looping (loop_start ServerProxyLoopReport_default sh)))"
    using start by (rule run_loop_induct) (rule isolated_step)
  with assms show ?thesis
    by (auto simp: run_proxy_loop_until_with_hooks_def run_loop_until_def isolated_def is_fatal_accept_error_def
        split: if_splits)
qed

theorem proxy_loop_isolates_peers_witness:
  "\<exists>error s. run_proxy_loop_until_with_hooks (\<lambda>_. []) demo_server
      [IncomingReady (Ok (Err (ServerTransport EndpointClosed)))] ServerShared_default = LoopReturned (Err error) s
    \<and> (error = NoUsersConfigured \<or> error = ServerTransport EndpointClosed \<or> (\<exists>j. error = ServerJoin j))"
proof -
  obtain error s where r: "run_proxy_loop_until_with_hooks (\<lambda>_. []) demo_server
      [IncomingReady (Ok (Err (ServerTransport EndpointClosed)))] ServerShared_default = LoopReturned (Err error) s"
    using admission.rep_capacity [OF admission.rep_empty]
    by (simp add: run_proxy_loop_until_with_hooks_def run_loop_until_def demo_server_def loop_start_def
        incoming_step_def is_fatal_accept_error_def fail_loop_def admission_limits)
  with proxy_loop_isolates_peers [OF r] show ?thesis by blast
qed

text \<open>
  The TCP-only and the UDP-only loop are not isolated like that. A single relay of an
  authenticated client that fails with anything but a closed connection - an unreachable target in
  the TCP loop, a malformed stream header in the UDP loop - ends the loop with that error as soon as
  the task is joined.
\<close>

theorem single_network_loops_stop_on_relay_error:
  assumes "\<not> proxy_connection_closed io_text error"
    and "i < length (sl_tasks s)" and "sl_tasks s ! i = TaskRunning c"
    and "k < length (sl_tasks u)" and "sl_tasks u ! k = TaskRunning d" and "\<not> ud_closed d"
    and "fst (accept_proxy_stream (ud_connection d)) = Err error"
  shows "\<exists>s' u'.
      run_loop (tcp_loop_ops io_text) io_text server [TaskEvent i (Err error), TaskJoined i] (Looping s)
        = LoopReturned (Err (ServerTransport error)) s'
    \<and> run_loop (udp_loop_ops io_text) io_text server [TaskEvent k UdpStreamReady, TaskJoined k] (Looping u)
        = LoopReturned (Err (ServerTransport error)) u'"
proof -
  obtain connection where "accept_proxy_stream (ud_connection d) = (Err error, connection)"
    using assms(7) by (cases "accept_proxy_stream (ud_connection d)") auto
  with assms show ?thesis
    by (simp add: task_event_step_def joined_step_def tcp_loop_ops_def tcp_task_step_def end_task_def
        tcp_join_def fail_loop_def udp_loop_ops_def udp_connection_step_def udp_join_def)
qed

theorem single_network_loops_stop_on_relay_error_witness:
  "\<exists>s' u'.
      run_loop (tcp_loop_ops (\<lambda>_. [])) (\<lambda>_. []) demo_server
        [TaskEvent 0 (Err (ReadExact (FinishedEarly 0))), TaskJoined 0]
        (Looping ((loop_start \<lparr>tl_accepted_connections = 1, tl_completed_tcp_relays = 0, tl_bytes_from_client = 0,
            tl_bytes_from_target = 0\<rparr> ServerShared_default)\<lparr>sl_tasks := [TaskRunning demo_connection]\<rparr>))
        = LoopReturned (Err (ServerTransport (ReadExact (FinishedEarly 0)))) s'
    \<and> run_loop (udp_loop_ops (\<lambda>_. [])) (\<lambda>_. []) demo_server [TaskEvent 0 UdpStreamReady, TaskJoined 0]
        (Looping ((loop_start \<lparr>ul_accepted_connections = 1, ul_completed_udp_relays = 0, ul_bytes_from_client = 0,
            ul_bytes_from_target = 0\<rparr> ServerShared_default)\<lparr>sl_tasks :=
              [TaskRunning (UdpConnection_start \<lparr>ac_connection = (connection_with [])\<lparr>qc_bi_streams := [([9], Fin)]\<rparr>,
                 ac_protocol = Juicity\<rparr>)]\<rparr>))
        = LoopReturned (Err (ServerTransport (ReadExact (FinishedEarly 0)))) u'"
proof -
  let ?ac = "\<lparr>ac_connection = (connection_with [])\<lparr>qc_bi_streams := [([9], Fin)]\<rparr>, ac_protocol = Juicity\<rparr>"
  have "read_proxy_header_prefix ([9], Fin) = Err (ReadExact (FinishedEarly 0))"
    by (simp add: read_proxy_header_prefix_def read_runtime_target_metadata_def recv_read_exact_def)
  then have "fst (accept_proxy_stream ?ac) = Err (ReadExact (FinishedEarly 0))"
    by (simp add: accept_proxy_stream_def connection_with_def)
  then have d: "\<not> ud_closed (UdpConnection_start ?ac)"
    "fst (accept_proxy_stream (ud_connection (UdpConnection_start ?ac))) = Err (ReadExact (FinishedEarly 0))"
    by (simp_all add: UdpConnection_start_def)
  show ?thesis
    by (rule single_network_loops_stop_on_relay_error [OF _ _ _ _ _ d])
      (simp_all add: proxy_connection_closed_def)
qed

end
