(* ===== verification/ServerReports.thy ===== *)
theory ServerReports
  imports Server
begin

text \<open>
  The report an accept loop returns and the metrics it keeps on the side: the contract between the
  generic loop and the connection tasks it runs, and what follows for a loop that ends cleanly. A
  report is a sum of amounts; the contract says that a task adds to the metrics exactly what it
  will hand to the report when it is joined.
\<close>

section \<open>The contract\<close>

locale reporting_loop =
  fixes ops :: "('c, 'e, 'o, 'r) LoopOps"
    and plus :: "'r \<Rightarrow> 'r \<Rightarrow> 'r"
    and zero :: 'r
    and view :: "ServerMetrics \<Rightarrow> 'r"
    and accept_unit :: 'r
    and reject_unit :: 'r
    and part :: "'c \<Rightarrow> 'r"
    and out_part :: "'o \<Rightarrow> 'r option" \<comment> \<open>\<open>None\<close>: the task failed and its part is lost\<close>
  assumes plus_assoc: "plus (plus x y) z = plus x (plus y z)"
    and plus_commute: "plus x y = plus y x"
    and plus_zero: "plus zero x = x"
    and view_accepted: "view (connection_accepted m) = plus (view m) accept_unit"
    and view_rejected: "view (connection_rejected m) = plus (view m) reject_unit"
    and view_closed: "view (connection_closed m) = view m"
    and count_accepted: "op_count_accepted ops x = plus x accept_unit"
    and count_rejected: "op_count_rejected ops x = plus x reject_unit"
    and spawn: "part (op_spawn ops connection) = zero"
    and step_continue: "op_step ops event c sh = (Continue c', sh') \<Longrightarrow>
          \<exists>d. part c' = plus (part c) d \<and> view (sh_metrics sh') = plus (view (sh_metrics sh)) d
            \<and> sm_active_connections (sh_metrics sh') = sm_active_connections (sh_metrics sh)"
    and step_return: "op_step ops event c sh = (Return out, sh') \<Longrightarrow>
          (out_part out = None \<or>
           (\<exists>d. out_part out = Some (plus (part c) d) \<and> view (sh_metrics sh') = plus (view (sh_metrics sh)) d))
          \<and> sm_active_connections (sh_metrics sh') = sm_active_connections (sh_metrics sh)"
    and join_part: "op_join ops out report sh = (Ok report', sh') \<Longrightarrow>
          \<exists>p. out_part out = Some p \<and> report' = plus report p \<and> sh_metrics sh' = sh_metrics sh"
begin

lemma plus_left_commute: "plus a (plus b c) = plus b (plus a c)"
  by (metis plus_assoc plus_commute)

lemma plus_zero_right: "plus a zero = a"
  by (metis plus_commute plus_zero)

lemmas plus_ac = plus_assoc plus_commute plus_left_commute plus_zero plus_zero_right

fun task_part :: "('c, 'o) ConnTask \<Rightarrow> 'r option" where
  "task_part (TaskRunning c) = Some (part c)"
| "task_part (TaskEnded (Ok out)) = out_part out"
| "task_part (TaskEnded (Err _)) = None"

fun total :: "('c, 'o) ConnTask list \<Rightarrow> 'r option" where
  "total [] = Some zero"
| "total (t # ts) =
     (case (task_part t, total ts) of (Some a, Some b) \<Rightarrow> Some (plus a b) | _ \<Rightarrow> None)"

lemma total_append:
  "total (ts @ us) = (case (total ts, total us) of (Some a, Some b) \<Rightarrow> Some (plus a b) | _ \<Rightarrow> None)"
  by (induction ts) (auto simp: plus_ac split: option.splits)

lemma total_nth:
  assumes "i < length ts"
  shows "total ts = (case (task_part (ts ! i), total (remove_nth i ts)) of
      (Some a, Some b) \<Rightarrow> Some (plus a b) | _ \<Rightarrow> None)"
    and "total (ts[i := t]) = (case (task_part t, total (remove_nth i ts)) of
      (Some a, Some b) \<Rightarrow> Some (plus a b) | _ \<Rightarrow> None)"
proof -
  have "total (take i ts @ u # drop (Suc i) ts) = (case (task_part u, total (remove_nth i ts)) of
      (Some a, Some b) \<Rightarrow> Some (plus a b) | _ \<Rightarrow> None)" for u
    by (auto simp: remove_nth_def total_append plus_ac split: option.splits)
  from this [of "ts ! i"] this [of t] show "total ts = (case (task_part (ts ! i), total (remove_nth i ts)) of
      (Some a, Some b) \<Rightarrow> Some (plus a b) | _ \<Rightarrow> None)"
    and "total (ts[i := t]) = (case (task_part t, total (remove_nth i ts)) of
      (Some a, Some b) \<Rightarrow> Some (plus a b) | _ \<Rightarrow> None)"
    using assms by (simp_all add: id_take_nth_drop [symmetric] upd_conv_take_nth_drop)
qed

definition running :: "('c, 'o) ConnTask list \<Rightarrow> nat" where
  "running ts = length (filter is_running ts)"

lemma running_nth:
  assumes "i < length ts"
  shows "running ts = (if is_running (ts ! i) then 1 else 0) + running (remove_nth i ts)"
    and "running (ts[i := t]) = (if is_running t then 1 else 0) + running (remove_nth i ts)"
proof -
  have "running (take i ts @ u # drop (Suc i) ts) = (if is_running u then 1 else 0) + running (remove_nth i ts)" for u
    by (simp add: running_def remove_nth_def)
  from this [of "ts ! i"] this [of t]
  show "running ts = (if is_running (ts ! i) then 1 else 0) + running (remove_nth i ts)"
    and "running (ts[i := t]) = (if is_running t then 1 else 0) + running (remove_nth i ts)"
    using assms by (simp_all add: id_take_nth_drop [symmetric] upd_conv_take_nth_drop)
qed

section \<open>The invariant\<close>

text \<open>
  Unless the part of a task is lost, the metrics are the report plus the parts of the tasks; the
  number of active connections is the number of running tasks, at most \<open>n\<close> of them.
\<close>

definition reported :: "nat \<Rightarrow> ('c, 'o, 'r) ServerLoop \<Rightarrow> bool" where
  "reported n s \<longleftrightarrow>
     (\<forall>t. total (sl_tasks s) = Some t \<longrightarrow> view (sh_metrics (sl_shared s)) = plus (sl_report s) t)
     \<and> sm_active_connections (sh_metrics (sl_shared s)) = of_nat (running (sl_tasks s))
     \<and> length (sl_tasks s) \<le> n \<and> TaskEnded (Err JoinCancelled) \<notin> set (sl_tasks s)"

definition outcome_reported :: "nat \<Rightarrow> ('c, 'o, 'r) loop_outcome \<Rightarrow> bool" where
  "outcome_reported n out =
     (case out of
        Looping s \<Rightarrow> reported n s
      | LoopReturned (Ok report) s \<Rightarrow> reported n s \<and> sl_tasks s = [] \<and> report = sl_report s
      | LoopReturned (Err _) _ \<Rightarrow> True)"

lemma outcome_reported_simps [simp]:
  "outcome_reported n (Looping s) = reported n s"
  "outcome_reported n (fail_loop e s)"
  "reported n s \<Longrightarrow> outcome_reported n (settle_loop s)"
  by (auto simp: outcome_reported_def fail_loop_def settle_loop_def)

lemma running_le: "running ts \<le> length ts"
  by (simp add: running_def)

lemma reported_cong:
  "reported n s \<Longrightarrow> n \<le> n' \<Longrightarrow> sl_tasks s' = sl_tasks s \<Longrightarrow> sl_report s' = sl_report s \<Longrightarrow>
     sh_metrics (sl_shared s') = sh_metrics (sl_shared s) \<Longrightarrow> reported n' s'"
  by (simp add: reported_def)

lemma reported_reject:
  "reported n s \<Longrightarrow> reported n (reject_connection ops s)"
  by (auto simp: reported_def reject_connection_def view_rejected count_rejected plus_ac)
    (simp add: connection_rejected_def)

lemma reported_reject_error:
  "reported n s \<Longrightarrow> reported n (reject_error ops io_text e s)"
  by (auto simp: reject_error_def intro!: reported_reject reported_cong [of n s n])

lemma reported_accept:
  assumes "reported n s"
  shows "reported (Suc n) (s\<lparr>sl_report := op_count_accepted ops (sl_report s),
    sl_shared := count_in connection_accepted (sl_shared s),
    sl_tasks := sl_tasks s @ [TaskRunning (op_spawn ops connection)]\<rparr>)"
proof -
  have "sm_active_connections (connection_accepted m) = sm_active_connections m + 1" for m
    by (simp add: connection_accepted_def)
  moreover have "running (sl_tasks s @ [TaskRunning c]) = Suc (running (sl_tasks s))" for c
    by (simp add: running_def is_running_def)
  ultimately show ?thesis using assms
    by (auto simp: reported_def view_accepted count_accepted total_append spawn plus_ac split: option.splits)
qed

text \<open>A running task ends: its part stays with the ended task, or is lost.\<close>

lemma reported_end_task:
  assumes s: "reported n s" and i: "i < length (sl_tasks s)" "sl_tasks s ! i = TaskRunning c" and n: "n < 2 ^ 64"
    and res: "task_part (TaskEnded res) = None \<or>
        (\<exists>d. task_part (TaskEnded res) = Some (plus (part c) d)
           \<and> view (sh_metrics sh) = plus (view (sh_metrics (sl_shared s))) d)"
    and act: "sm_active_connections (sh_metrics sh) = sm_active_connections (sh_metrics (sl_shared s))"
    and nc: "res \<noteq> Err JoinCancelled"
  shows "reported n (end_task i res sh s)"
proof -
  note t = total_nth [OF i(1)] and r = running_nth [OF i(1)]
  have run: "running (sl_tasks s) = Suc (running (remove_nth i (sl_tasks s)))"
    using r(1) i(2) by (simp add: is_running_def)
  moreover have "running (sl_tasks s) < 2 ^ 64"
    using running_le [of "sl_tasks s"] s n by (simp add: reported_def)
  ultimately have "counter_dec (of_nat (running (sl_tasks s))) = of_nat (running (remove_nth i (sl_tasks s)))"
    using counter_dec_of_nat [of "running (sl_tasks s)"] by simp
  then have active: "sm_active_connections (connection_closed (sh_metrics sh))
      = of_nat (running ((sl_tasks s)[i := TaskEnded res]))"
    using s act r(2) [of "TaskEnded res"] by (simp add: connection_closed_def reported_def is_running_def)
  have "view (sh_metrics sh) = plus (sl_report s) p" if "total ((sl_tasks s)[i := TaskEnded res]) = Some p" for p
    using that s t(1) t(2) [of "TaskEnded res"] i(2) res
    by (auto simp: reported_def plus_ac split: option.splits)
  moreover have "TaskEnded (Err JoinCancelled) \<notin> set ((sl_tasks s)[i := TaskEnded res])"
    using s nc set_update_subset_insert [of "sl_tasks s" i "TaskEnded res"] by (auto simp: reported_def)
  ultimately show ?thesis using s active by (simp add: reported_def end_task_def view_closed)
qed

lemma reported_task_event:
  assumes s: "reported n s" and n: "n < 2 ^ 64"
  shows "reported n (task_event_step ops i event s)"
proof (cases "i < length (sl_tasks s) \<and> (\<exists>c. sl_tasks s ! i = TaskRunning c)")
  case True
  then obtain c where i: "i < length (sl_tasks s)" "sl_tasks s ! i = TaskRunning c" by blast
  obtain out sh where out: "op_step ops event c (sl_shared s) = (out, sh)" by fastforce
  show ?thesis
  proof (cases out)
    case (Continue c')
    from step_continue [OF out [unfolded Continue]] obtain d where d: "part c' = plus (part c) d"
      "view (sh_metrics sh) = plus (view (sh_metrics (sl_shared s))) d"
      "sm_active_connections (sh_metrics sh) = sm_active_connections (sh_metrics (sl_shared s))" by blast
    note t = total_nth [OF i(1)] and r = running_nth [OF i(1)]
    have "view (sh_metrics sh) = plus (sl_report s) p" if "total ((sl_tasks s)[i := TaskRunning c']) = Some p" for p
      using that s t(1) t(2) [of "TaskRunning c'"] i(2) d by (auto simp: reported_def plus_ac split: option.splits)
    moreover have "running ((sl_tasks s)[i := TaskRunning c']) = running (sl_tasks s)"
      using r(1) r(2) [of "TaskRunning c'"] i(2) by (simp add: is_running_def)
    moreover have "TaskEnded (Err JoinCancelled) \<notin> set ((sl_tasks s)[i := TaskRunning c'])"
      using s set_update_subset_insert [of "sl_tasks s" i "TaskRunning c'"] by (auto simp: reported_def)
    ultimately show ?thesis using s i out Continue d(3) by (simp add: task_event_step_def reported_def)
  next
    case (Return res)
    from step_return [OF out [unfolded Return]] reported_end_task [OF s i n, of "Ok res" sh] i out Return
    show ?thesis by (auto simp: task_event_step_def)
  qed
next
  case False
  with s show ?thesis by (auto simp: task_event_step_def split: ConnTask.split)
qed

lemma reported_panic:
  assumes "reported n s" and "n < 2 ^ 64"
  shows "reported n (task_lost_step i (JoinPanicked p) s)"
proof (cases "i < length (sl_tasks s) \<and> is_running (sl_tasks s ! i)")
  case True
  then obtain c where "i < length (sl_tasks s)" "sl_tasks s ! i = TaskRunning c"
    by (auto simp: is_running_def split: ConnTask.splits)
  with reported_end_task [OF assms(1) this assms(2), of "Err (JoinPanicked p)" "sl_shared s"] True show ?thesis
    by (simp add: task_lost_step_def)
qed (use assms in \<open>auto simp: task_lost_step_def\<close>)

lemma reported_joined:
  assumes s: "reported n s"
  shows "outcome_reported n (joined_step ops i s)"
proof (cases "i < length (sl_tasks s) \<and> (\<exists>out. sl_tasks s ! i = TaskEnded (Ok out))")
  case True
  then obtain out where i: "i < length (sl_tasks s)" "sl_tasks s ! i = TaskEnded (Ok out)" by blast
  obtain r sh where j: "op_join ops out (sl_report s) (sl_shared s) = (r, sh)" by fastforce
  show ?thesis
  proof (cases r)
    case (Ok report')
    from join_part [OF j [unfolded Ok]] obtain p where p: "out_part out = Some p"
      "report' = plus (sl_report s) p" "sh_metrics sh = sh_metrics (sl_shared s)" by blast
    have "running (remove_nth i (sl_tasks s)) = running (sl_tasks s)"
      using running_nth(1) [OF i(1)] i(2) by (simp add: is_running_def)
    with s p total_nth(1) [OF i(1)] i(2) set_remove_nth [of i "sl_tasks s"]
    have "reported n (s\<lparr>sl_tasks := remove_nth i (sl_tasks s), sl_report := report', sl_shared := sh\<rparr>)"
      by (auto simp: reported_def plus_ac remove_nth_def split: option.splits)
    with i j Ok show ?thesis by (simp add: joined_step_def)
  next
    case (Err e)
    with i j show ?thesis by (simp add: joined_step_def)
  qed
next
  case False
  moreover have "sl_tasks s ! i \<noteq> TaskEnded (Err JoinCancelled)" if "i < length (sl_tasks s)"
    using s nth_mem [OF that] by (fastforce simp: reported_def)
  ultimately show ?thesis using s
    by (auto simp: joined_step_def Let_def split: ConnTask.split result.split JoinError.split)
qed

lemma reported_step:
  assumes "reported n s" and "n < 2 ^ 64" and "\<forall>i. event \<noteq> TaskCancelled i"
  shows "outcome_reported (Suc n) (server_loop_step ops io_text server event s)"
proof -
  have mono: "reported n s' \<Longrightarrow> reported (Suc n) s'" for s' by (simp add: reported_def)
  then have omono: "outcome_reported n out \<Longrightarrow> outcome_reported (Suc n) out" for out
    by (auto simp: outcome_reported_def split: loop_outcome.splits result.splits)
  note cong = reported_cong [OF assms(1), of "Suc n"]
  show ?thesis
  proof (cases event)
    case (AuthJoined i)
    have "reported (Suc n) (s'\<lparr>sl_report := op_count_accepted ops (sl_report s),
        sl_shared := count_in connection_accepted (sl_shared s),
        sl_tasks := sl_tasks s @ [TaskRunning (op_spawn ops connection)]\<rparr>)"
      if "sl_tasks s' = sl_tasks s" "sl_report s' = sl_report s" "sl_shared s' = sl_shared s" for s' connection
      using reported_accept [of n s' connection] reported_cong [OF assms(1), of n s'] that by simp
    with AuthJoined cong show ?thesis
      by (auto simp: authenticated_step_def Let_def split: AuthTask.split result.split JoinError.split
          intro!: reported_reject_error)
  next
    case (IncomingReady accepted)
    with cong show ?thesis
      by (auto simp: incoming_step_def split: result.split option.split JoinError.split
          intro!: reported_reject_error reported_reject)
  next
    case ShutdownFired
    with cong show ?thesis by (auto simp: shutdown_step_def)
  next
    case (AuthTaskLost i p)
    with cong show ?thesis by (auto simp: auth_lost_step_def split: AuthTask.split)
  qed (use assms reported_task_event reported_panic reported_joined mono omono in auto)
qed

lemma reported_run:
  "outcome_reported n out \<Longrightarrow> n + length events < 2 ^ 64 \<Longrightarrow> list_all (\<lambda>e. \<forall>i. e \<noteq> TaskCancelled i) events \<Longrightarrow>
     outcome_reported (n + length events) (run_loop ops io_text server events out)"
proof (induction events arbitrary: n out)
  case (Cons e es)
  show ?case
  proof (cases out)
    case (Looping s)
    with Cons.prems have "outcome_reported (Suc n) (server_loop_step ops io_text server e s)"
      by (intro reported_step) auto
    from Cons.IH [OF this] Cons.prems Looping show ?thesis by simp
  next
    case (LoopReturned r s)
    with Cons.prems show ?thesis
      by (auto simp: outcome_reported_def reported_def split: result.splits)
  qed
qed (cases out; simp)

text \<open>A loop that returns has reported exactly what its metrics counted, and left no connection active.\<close>

lemma clean_return:
  assumes "run_loop_until ops io_text server zero events sh = LoopReturned (Ok report) s"
    and "length events < 2 ^ 64" and "list_all (\<lambda>e. \<forall>i. e \<noteq> TaskCancelled i) events"
    and "view (sh_metrics sh) = zero" and "sm_active_connections (sh_metrics sh) = 0"
  shows "view (sh_metrics (sl_shared s)) = report \<and> sm_active_connections (sh_metrics (sl_shared s)) = 0"
proof -
  have "outcome_reported 0 (Looping (loop_start zero sh))"
    using assms(4,5) by (simp add: reported_def loop_start_def running_def plus_zero)
  from reported_run [OF this, of events io_text server] assms(1,2,3)
  have "outcome_reported (length events) (LoopReturned (Ok report) s)"
    by (auto simp: run_loop_until_def split: if_splits)
  then show ?thesis by (auto simp: outcome_reported_def reported_def running_def plus_zero_right)
qed

end

section \<open>The three loops keep the contract\<close>

definition proxy_out_part :: "conn_result \<Rightarrow> ServerProxyLoopReport option" where
  "proxy_out_part out = (case out of Ok report \<Rightarrow> Some report | Err _ \<Rightarrow> None)"

interpretation proxy_reports: reporting_loop "proxy_loop_ops io_text" merge_report
    ServerProxyLoopReport_default metrics_report
    "ServerProxyLoopReport_default\<lparr>pr_accepted_connections := 1\<rparr>"
    "ServerProxyLoopReport_default\<lparr>pr_rejected_connections := 1\<rparr>" pc_report proxy_out_part for io_text
proof (unfold_locales, goal_cases)
  case (10 event c sh c' sh')
  then have "proxy_connection_step io_text event c sh = (Continue c', sh')"
    by (auto simp: proxy_loop_ops_def proxy_task_step_def split: prod.splits task_step.splits)
  from same_delta_step [OF this] show ?case by (auto simp: same_delta_def)
next
  case (11 event c sh out sh')
  then obtain c' where st: "proxy_connection_step io_text event c sh = (Return (out, c'), sh')"
    by (auto simp: proxy_loop_ops_def proxy_task_step_def split: prod.splits task_step.splits)
  from same_delta_step [OF st] proxy_connection_step_Return [OF st] show ?case
    by (auto simp: same_delta_def proxy_out_part_def)
qed (auto simp: merge_report_commute metrics_report_def merge_report_def metrics_defs proxy_loop_ops_def
    ServerProxyLoopReport_default_def ProxyConnection_start_def proxy_out_part_def
    split: result.splits)

definition tcp_add :: "ServerTcpLoopReport \<Rightarrow> ServerTcpLoopReport \<Rightarrow> ServerTcpLoopReport" where
  "tcp_add a b =
     \<lparr>tl_accepted_connections = tl_accepted_connections a + tl_accepted_connections b,
      tl_completed_tcp_relays = tl_completed_tcp_relays a + tl_completed_tcp_relays b,
      tl_bytes_from_client = tl_bytes_from_client a + tl_bytes_from_client b,
      tl_bytes_from_target = tl_bytes_from_target a + tl_bytes_from_target b\<rparr>"

definition tcp_zero :: ServerTcpLoopReport where
  "tcp_zero = \<lparr>tl_accepted_connections = 0, tl_completed_tcp_relays = 0, tl_bytes_from_client = 0,
     tl_bytes_from_target = 0\<rparr>"

definition tcp_view :: "ServerMetrics \<Rightarrow> ServerTcpLoopReport" where
  "tcp_view m = \<lparr>tl_accepted_connections = sm_accepted_connections m,
     tl_completed_tcp_relays = sm_completed_tcp_relays m, tl_bytes_from_client = sm_bytes_from_client m,
     tl_bytes_from_target = sm_bytes_from_target m\<rparr>"

definition tcp_out_part :: "(IoError \<Rightarrow> string) \<Rightarrow> tcp_outcome \<Rightarrow> ServerTcpLoopReport option" where
  "tcp_out_part io_text out =
     (case out of
        Ok r \<Rightarrow> Some \<lparr>tl_accepted_connections = 0, tl_completed_tcp_relays = 1,
          tl_bytes_from_client = tr_bytes_from_client r, tl_bytes_from_target = tr_bytes_from_target r\<rparr>
      | Err (ServerTransport e) \<Rightarrow> if proxy_connection_closed io_text e then Some tcp_zero else None
      | Err _ \<Rightarrow> None)"

interpretation tcp_reports: reporting_loop "tcp_loop_ops io_text" tcp_add tcp_zero tcp_view
    "tcp_zero\<lparr>tl_accepted_connections := 1\<rparr>" tcp_zero "\<lambda>_. tcp_zero" "tcp_out_part io_text" for io_text
proof (unfold_locales, goal_cases)
  case (11 event c sh out sh')
  have "tcp_view (sh_metrics (count_in (\<lambda>m. tcp_relay_completed m a b) sh)) = tcp_add (tcp_view (sh_metrics sh))
      \<lparr>tl_accepted_connections = 0, tl_completed_tcp_relays = 1, tl_bytes_from_client = a, tl_bytes_from_target = b\<rparr>"
    for a b by (simp add: tcp_view_def tcp_add_def metrics_defs)
  moreover have "tcp_add tcp_zero r = r" "tcp_add r tcp_zero = r" for r
    by (simp_all add: tcp_add_def tcp_zero_def)
  ultimately show ?case using 11
    by (auto simp: tcp_loop_ops_def tcp_task_step_def tcp_out_part_def metrics_defs
        split: result.splits if_splits intro!: exI [of _ tcp_zero])
qed (auto simp: tcp_add_def tcp_zero_def tcp_view_def metrics_defs tcp_loop_ops_def tcp_task_step_def tcp_join_def
    tcp_out_part_def add.assoc add.commute split: result.splits ServerError.splits if_splits)

definition udp_add :: "ServerUdpLoopReport \<Rightarrow> ServerUdpLoopReport \<Rightarrow> ServerUdpLoopReport" where
  "udp_add a b =
     \<lparr>ul_accepted_connections = ul_accepted_connections a + ul_accepted_connections b,
      ul_completed_udp_relays = ul_completed_udp_relays a + ul_completed_udp_relays b,
      ul_bytes_from_client = ul_bytes_from_client a + ul_bytes_from_client b,
      ul_bytes_from_target = ul_bytes_from_target a + ul_bytes_from_target b\<rparr>"

definition udp_zero :: ServerUdpLoopReport where
  "udp_zero = \<lparr>ul_accepted_connections = 0, ul_completed_udp_relays = 0, ul_bytes_from_client = 0,
     ul_bytes_from_target = 0\<rparr>"

definition udp_view :: "ServerMetrics \<Rightarrow> ServerUdpLoopReport" where
  "udp_view m = \<lparr>ul_accepted_connections = sm_accepted_connections m,
     ul_completed_udp_relays = sm_completed_udp_relays m, ul_bytes_from_client = sm_bytes_from_client m,
     ul_bytes_from_target = sm_bytes_from_target m\<rparr>"

definition udp_part :: "UdpConnectionReport \<Rightarrow> ServerUdpLoopReport" where
  "udp_part r = \<lparr>ul_accepted_connections = 0, ul_completed_udp_relays = uc_completed_udp_relays r,
     ul_bytes_from_client = uc_bytes_from_client r, ul_bytes_from_target = uc_bytes_from_target r\<rparr>"

definition udp_out_part :: "(IoError \<Rightarrow> string) \<Rightarrow> udp_conn_result \<Rightarrow> ServerUdpLoopReport option" where
  "udp_out_part io_text out =
     (case out of
        Ok r \<Rightarrow> Some (udp_part r)
      | Err (ServerTransport e) \<Rightarrow> if proxy_connection_closed io_text e then Some udp_zero else None
      | Err _ \<Rightarrow> None)"

lemma udp_add_zero: "udp_add udp_zero r = r" "udp_add r udp_zero = r"
  by (simp_all add: udp_add_def udp_zero_def)

lemma udp_accumulate_delta:
  assumes "accumulate_udp_relay io_text relay report sh = (report', sh')"
  shows "\<exists>d. udp_part report' = udp_add (udp_part report) d
    \<and> udp_view (sh_metrics sh') = udp_add (udp_view (sh_metrics sh)) d
    \<and> sm_active_connections (sh_metrics sh') = sm_active_connections (sh_metrics sh)"
proof (cases "\<exists>r. relay = Ok (UdpReport r)")
  case True
  then obtain r where "relay = Ok (UdpReport r)" by blast
  with assms show ?thesis
    by (auto simp: accumulate_udp_relay_def udp_part_def udp_add_def udp_view_def metrics_defs
        intro!: exI [of _ "\<lparr>ul_accepted_connections = 0, ul_completed_udp_relays = 1,
          ul_bytes_from_client = ur_bytes_from_client r, ul_bytes_from_target = ur_bytes_from_target r\<rparr>"])
next
  case False
  with assms have "report' = report" "sh_metrics sh' = sh_metrics sh"
    by (auto simp: accumulate_udp_relay_def split: result.splits ProxyRelayReport.splits if_splits)
  then show ?thesis by (auto simp: udp_add_zero intro!: exI [of _ udp_zero])
qed

text \<open>A step changes the report of its connection and the metrics by the same amounts, and what it
  returns is that report or an error that is not ignored.\<close>

lemma udp_step_delta:
  assumes "udp_connection_step io_text event c sh = (out, sh')"
  shows "\<exists>report d.
      (case out of
         Continue c' \<Rightarrow> ud_report c' = report
       | Return res \<Rightarrow> res = Ok report \<or> udp_out_part io_text res = None)
    \<and> udp_part report = udp_add (udp_part (ud_report c)) d
    \<and> udp_view (sh_metrics sh') = udp_add (udp_view (sh_metrics sh)) d
    \<and> sm_active_connections (sh_metrics sh') = sm_active_connections (sh_metrics sh)"
proof (cases "\<exists>i relay. event = UdpRelayJoined i (Ok relay) \<and> i \<in> fst ` set (ud_relays c)")
  case True
  then obtain i relay where e: "event = UdpRelayJoined i (Ok relay)" "i \<in> fst ` set (ud_relays c)" by blast
  obtain report sh1 where acc: "accumulate_udp_relay io_text relay (ud_report c) sh = (report, sh1)" by fastforce
  with assms e have out: "out = settle_udp_connection (c\<lparr>ud_relays := remove_relay i (ud_relays c), ud_report := report\<rparr>)"
    "sh' = sh1" by (auto simp: udp_connection_step_def)
  from udp_accumulate_delta [OF acc] obtain d where "udp_part report = udp_add (udp_part (ud_report c)) d"
    "udp_view (sh_metrics sh1) = udp_add (udp_view (sh_metrics sh)) d"
    "sm_active_connections (sh_metrics sh1) = sm_active_connections (sh_metrics sh)" by blast
  then show ?thesis unfolding out
    by (intro exI [of _ report] exI [of _ d]) (simp add: settle_udp_connection_def)
next
  case False
  with assms have "sh' = sh" by (auto simp: udp_connection_step_def split: udp_conn_event.splits if_splits
        result.splits prod.splits)
  moreover from False assms have "case out of Continue c' \<Rightarrow> ud_report c' = ud_report c
      | Return res \<Rightarrow> res = Ok (ud_report c) \<or> udp_out_part io_text res = None"
    by (auto simp: udp_connection_step_def udp_out_part_def settle_udp_connection_def
        split: udp_conn_event.splits if_splits result.splits prod.splits)
  ultimately show ?thesis by (intro exI [of _ "ud_report c"] exI [of _ udp_zero]) (simp add: udp_add_zero)
qed

interpretation udp_reports: reporting_loop "udp_loop_ops io_text" udp_add udp_zero udp_view
    "udp_zero\<lparr>ul_accepted_connections := 1\<rparr>" udp_zero "\<lambda>c. udp_part (ud_report c)" "udp_out_part io_text" for io_text
proof (unfold_locales, goal_cases)
  case (10 event c sh c' sh')
  then have "udp_connection_step io_text event c sh = (Continue c', sh')" by (simp add: udp_loop_ops_def)
  from udp_step_delta [OF this] show ?case by auto
next
  case (11 event c sh out sh')
  then have "udp_connection_step io_text event c sh = (Return out, sh')" by (simp add: udp_loop_ops_def)
  from udp_step_delta [OF this] show ?case by (auto simp: udp_out_part_def)
next
  case (12 out report sh report' sh')
  then show ?case
    by (auto simp: udp_loop_ops_def udp_join_def udp_out_part_def udp_add_def udp_part_def udp_zero_def
        split: result.splits ServerError.splits if_splits)
qed (auto simp: udp_add_def udp_zero_def udp_view_def metrics_defs udp_loop_ops_def udp_part_def
    UdpConnection_start_def UdpConnectionReport_default_def add.assoc add.commute)

section \<open>Properties\<close>

lemma fresh_views:
  "metrics_report ServerMetrics_default = ServerProxyLoopReport_default" "tcp_view ServerMetrics_default = tcp_zero"
  "udp_view ServerMetrics_default = udp_zero" "sm_active_connections ServerMetrics_default = 0"
  by (simp_all add: metrics_report_def ServerMetrics_default_def ServerProxyLoopReport_default_def
      tcp_view_def tcp_zero_def udp_view_def udp_zero_def counter_new_def)

lemma tcp_loop_report_matches_metrics:
  assumes "run_tcp_proxy_loop_until_with_hooks io_text server events sh = LoopReturned (Ok report) s"
    and "length events < 2 ^ 64" and "list_all (\<lambda>e. \<forall>i. e \<noteq> TaskCancelled i) events"
    and "sh_metrics sh = ServerMetrics_default"
  shows "report = tcp_view (sh_metrics (sl_shared s)) \<and> sm_active_connections (sh_metrics (sl_shared s)) = 0"
  using tcp_reports.clean_return
      [OF assms(1) [unfolded run_tcp_proxy_loop_until_with_hooks_def tcp_zero_def [symmetric]] assms(2,3)]
  by (simp add: assms(4) fresh_views)

lemma udp_loop_report_matches_metrics:
  assumes "run_udp_over_stream_loop_until_with_hooks io_text server events sh = LoopReturned (Ok report) s"
    and "length events < 2 ^ 64" and "list_all (\<lambda>e. \<forall>i. e \<noteq> TaskCancelled i) events"
    and "sh_metrics sh = ServerMetrics_default"
  shows "report = udp_view (sh_metrics (sl_shared s)) \<and> sm_active_connections (sh_metrics (sl_shared s)) = 0"
  using udp_reports.clean_return
      [OF assms(1) [unfolded run_udp_over_stream_loop_until_with_hooks_def udp_zero_def [symmetric]] assms(2,3)]
  by (simp add: assms(4) fresh_views)

text \<open>
  C12: the proxy loop, started on fresh metrics and not cancelled by the runtime, reports when it
  returns exactly what its metrics have counted - accepted and rejected connections, completed
  relays, failed streams and bytes, for every interleaving of its tasks - and no connection is
  counted as active any more.
\<close>

theorem proxy_loop_report_matches_metrics:
  assumes "run_proxy_loop_until_with_hooks io_text server events sh = LoopReturned (Ok report) s"
    and "length events < 2 ^ 64" and "list_all (\<lambda>e. \<forall>i. e \<noteq> TaskCancelled i) events"
    and "sh_metrics sh = ServerMetrics_default"
  shows "let m = snapshot (sh_metrics (sl_shared s)) in
      report = \<lparr>pr_accepted_connections = accepted_connections m, pr_rejected_connections = rejected_connections m,
        pr_completed_tcp_relays = completed_tcp_relays m, pr_completed_udp_relays = completed_udp_relays m,
        pr_failed_proxy_streams = failed_proxy_streams m, pr_bytes_from_client = snapshot_bytes_from_client m,
        pr_bytes_from_target = snapshot_bytes_from_target m\<rparr>
    \<and> active_connections m = 0"
proof -
  have "metrics_report (sh_metrics (sl_shared s)) = report \<and> sm_active_connections (sh_metrics (sl_shared s)) = 0"
    using proxy_reports.clean_return [OF assms(1) [unfolded run_proxy_loop_until_with_hooks_def] assms(2,3)]
    by (simp add: assms(4) fresh_views)
  then show ?thesis by (auto simp: metrics_report_def snapshot_def counter_load_def Let_def)
qed

text \<open>A run for the witness: one connection, whose only relay fails, and a refused one.\<close>

definition demo_events :: "conn_event server_event list" where
  "demo_events =
     [IncomingReady (Ok (Ok demo_incoming)), AuthJoined 0,
      IncomingReady (Ok (Err (ServerTransport AuthenticationRejected))),
      ShutdownFired, TaskEvent 0 (ShutdownChanged (Some True)), TaskJoined 0]"

theorem proxy_loop_report_matches_metrics_witness:
  "\<exists>report s. run_proxy_loop_until_with_hooks (\<lambda>_. []) demo_server demo_events ServerShared_default
      = LoopReturned (Ok report) s
    \<and> pr_accepted_connections report = 1 \<and> pr_rejected_connections report = 1
    \<and> accepted_connections (snapshot (sh_metrics (sl_shared s))) = 1
    \<and> active_connections (snapshot (sh_metrics (sl_shared s))) = 0"
proof -
  obtain connection where auth: "authenticate_incoming_connection demo_server demo_incoming = Ok connection"
    using demo_authenticates by blast
  have users: "bs_users demo_server \<noteq> []" by (simp add: demo_server_def)
  obtain report s where run: "run_proxy_loop_until_with_hooks (\<lambda>_. []) demo_server demo_events ServerShared_default
      = LoopReturned (Ok report) s" and counts: "pr_accepted_connections report = 1" "pr_rejected_connections report = 1"
    using auth
    by (simp add: run_proxy_loop_until_with_hooks_def run_loop_until_def demo_events_def users loop_start_def
        incoming_step_def has_global_capacity_def PreAuthAdmission_new_def try_admit_def pa_count_def admission_limits
        authenticated_step_def remove_nth_def drop_permit_def proxy_loop_ops_def is_fatal_accept_error_def
        reject_error_def is_ignorable_pre_auth_error_def proxy_connection_closed_def reject_connection_def
        shutdown_step_def settle_loop_def task_event_step_def proxy_task_step_def proxy_connection_step_def
        ProxyConnection_start_def settle_connection_def end_task_def joined_step_def merge_report_def
        ServerProxyLoopReport_default_def)
  have "list_all (\<lambda>e. \<forall>i. e \<noteq> TaskCancelled i) demo_events" "length demo_events < 2 ^ 64"
    by (simp_all add: demo_events_def)
  from proxy_loop_report_matches_metrics [OF run this(2,1)] run counts show ?thesis
    by (auto simp: ServerShared_default_def Let_def)
qed

end
