(* ===== verification/TuicUdp.thy ===== *)
theory TuicUdp
  imports Auth Egress "HOL-Library.Multiset"
begin

text \<open>
  TUIC (\<^verbatim>\<open>zuicity-transport/src/lib.rs\<close>): the encoders and decoders of UDP packets and their
  fragments, the reassembler, the server's datagram relay with its associations, and the dialer
  that authenticates to a TUIC server and opens a stream or an association there. Proved: the
  fragments of a packet fit the connection's datagrams and reassemble to the packet in whatever
  order they arrive; the relay never panics, whatever the peer sends; and the CONNECT request of
  the dialer is read back by the server as the header it was made from.
\<close>

section \<open>Constants and errors\<close>

definition TUIC_COMMAND_PACKET :: byte where "TUIC_COMMAND_PACKET = 0x02"
definition TUIC_COMMAND_DISSOCIATE :: byte where "TUIC_COMMAND_DISSOCIATE = 0x03"
definition TUIC_COMMAND_HEARTBEAT :: byte where "TUIC_COMMAND_HEARTBEAT = 0x04"
definition TUIC_UNI_STREAM_MAX_LEN :: nat where "TUIC_UNI_STREAM_MAX_LEN = 70000"
definition TUIC_UDP_PACKET_FIXED_LEN :: nat where "TUIC_UDP_PACKET_FIXED_LEN = 10"

lemmas tuic_udp_consts [wire_simps] =
  TUIC_COMMAND_PACKET_def TUIC_COMMAND_DISSOCIATE_def TUIC_COMMAND_HEARTBEAT_def
  TUIC_UNI_STREAM_MAX_LEN_def TUIC_UDP_PACKET_FIXED_LEN_def

definition tuic_packet_error :: "string \<Rightarrow> TransportError" where
  "tuic_packet_error message = TuicProxy ''packet'' message"

definition tuic_send_datagram_error :: "string \<Rightarrow> TransportError" where
  "tuic_send_datagram_error message = TuicProxy ''datagram'' message"

definition checked_add_usize :: "nat \<Rightarrow> nat \<Rightarrow> nat option" where
  "checked_add_usize a b = (if a + b < 2 ^ 64 then Some (a + b) else None)"

section \<open>Encoding\<close>

text \<open>The buffer is returned only on success: every caller drops it on an error.\<close>

definition encode_tuic_target :: "OwnedProxyHeader \<Rightarrow> bytes \<Rightarrow> (bytes, TransportError) result" where
  "encode_tuic_target header output =
     and_then
       (case oh_address header of
          OwnedIpv4 address \<Rightarrow> Ok (output @ [TUIC_ADDR_IPV4] @ Ipv4Addr_octets address)
        | OwnedIpv6 address \<Rightarrow> Ok (output @ [TUIC_ADDR_IPV6] @ Ipv6Addr_octets address)
        | OwnedDomain domain \<Rightarrow>
            (let bytes = as_bytes domain in
             if length bytes > 255 then Err (TuicProxy ''connect'' ''domain target exceeds 255 bytes'')
             else Ok (output @ [TUIC_ADDR_DOMAIN, of_nat (length bytes)] @ bytes)))
       (\<lambda>output. Ok (output @ to_be_bytes 2 (oh_port header)))"

definition tuic_target_encoded_len :: "OwnedProxyHeader \<Rightarrow> (nat, TransportError) result" where
  "tuic_target_encoded_len header =
     (case oh_address header of
        OwnedIpv4 _ \<Rightarrow> Ok (1 + 4 + 2)
      | OwnedIpv6 _ \<Rightarrow> Ok (1 + 16 + 2)
      | OwnedDomain domain \<Rightarrow>
          if length (as_bytes domain) > 255 then
            Err (TuicProxy ''packet'' ''domain target exceeds 255 bytes'')
          else Ok (1 + 1 + length (as_bytes domain) + 2))"

definition encode_tuic_udp_fragment ::
    "OwnedProxyHeader \<Rightarrow> bytes \<Rightarrow> u16 \<Rightarrow> u16 \<Rightarrow> byte \<Rightarrow> byte \<Rightarrow> bool
     \<Rightarrow> (bytes, TransportError) result" where
  "encode_tuic_udp_fragment header payload association_id packet_id fragment_total fragment_id
       include_address =
     (if length payload > 65535 then
        Err (TuicProxy ''packet'' ''UDP payload exceeds TUIC u16 packet size'')
      else
        let packet = [TUIC_VERSION_5, TUIC_COMMAND_PACKET] @ to_be_bytes 2 association_id
              @ to_be_bytes 2 packet_id @ [fragment_total, fragment_id]
              @ to_be_bytes 2 (of_nat (length payload) :: u16)
        in and_then
             (if include_address then encode_tuic_target header packet
              else Ok (packet @ [TUIC_ADDR_NONE]))
             (\<lambda>packet. Ok (packet @ payload)))"

text \<open>The loop over the fragment ids; \<open>offset\<close> is the end of the previous piece.\<close>

fun encode_fragments_loop ::
    "OwnedProxyHeader \<Rightarrow> bytes \<Rightarrow> u16 \<Rightarrow> u16 \<Rightarrow> byte \<Rightarrow> nat \<Rightarrow> nat \<Rightarrow> nat \<Rightarrow> nat list
     \<Rightarrow> (bytes list, TransportError) result" where
  "encode_fragments_loop header payload association_id packet_id fragment_total first_budget
       other_budget offset [] = Ok []"
| "encode_fragments_loop header payload association_id packet_id fragment_total first_budget
       other_budget offset (fragment_id # ids) =
     (let budget = (if fragment_id = 0 then first_budget else other_budget);
          end = min (offset + budget) (length payload)
      in and_then
           (encode_tuic_udp_fragment header (slice offset end payload) association_id packet_id
              fragment_total (of_nat fragment_id) (fragment_id = 0))
           (\<lambda>fragment.
         and_then
           (encode_fragments_loop header payload association_id packet_id fragment_total
              first_budget other_budget end ids)
           (\<lambda>fragments. Ok (fragment # fragments))))"

definition div_ceil :: "nat \<Rightarrow> nat \<Rightarrow> nat" where
  "div_ceil a b = (if a mod b = 0 then a div b else a div b + 1)"

definition encode_tuic_udp_fragments ::
    "OwnedProxyHeader \<Rightarrow> bytes \<Rightarrow> u16 \<Rightarrow> u16 \<Rightarrow> nat \<Rightarrow> (bytes list, TransportError) result" where
  "encode_tuic_udp_fragments header payload association_id packet_id max_datagram_size =
     (if oh_network header \<noteq> Udp then Err (UnexpectedProxyNetwork (oh_network header))
      else
        and_then (tuic_target_encoded_len header) (\<lambda>target_len.
        let first_budget = max_datagram_size - (TUIC_UDP_PACKET_FIXED_LEN + target_len);
            other_budget = max_datagram_size - (TUIC_UDP_PACKET_FIXED_LEN + 1)
        in if first_budget = 0 \<or> other_budget = 0 then
             Err (tuic_packet_error ''datagram size too small for TUIC packet'')
           else if length payload \<le> first_budget then
             and_then (encode_tuic_udp_fragment header payload association_id packet_id 1 0 True)
               (\<lambda>fragment. Ok [fragment])
           else
             let extra_fragments = div_ceil (length payload - first_budget) other_budget;
                 fragment_total = 1 + extra_fragments
             in if fragment_total > 255 then
                  Err (tuic_packet_error ''TUIC reply needs more than 255 fragments'')
                else
                  encode_fragments_loop header payload association_id packet_id
                    (of_nat fragment_total) first_budget other_budget 0 [0 ..< fragment_total]))"

text \<open>\<open>unsupported\<close> is the text of \<^verbatim>\<open>SendDatagramError::UnsupportedByPeer\<close>.\<close>

definition encode_outbound_tuic_udp_datagrams ::
    "string \<Rightarrow> OwnedProxyHeader \<Rightarrow> bytes \<Rightarrow> u16 \<Rightarrow> u16 \<Rightarrow> nat option
     \<Rightarrow> (bytes list, TransportError) result" where
  "encode_outbound_tuic_udp_datagrams unsupported header payload association_id packet_id
       max_datagram_size =
     (case max_datagram_size of
        None \<Rightarrow> Err (tuic_send_datagram_error unsupported)
      | Some max_datagram_size \<Rightarrow>
          encode_tuic_udp_fragments header payload association_id packet_id max_datagram_size)"

section \<open>Decoding\<close>

text \<open>\<open>{:02x?}\<close> of the two head bytes.\<close>

definition packet_head_text :: "bytes \<Rightarrow> string" where
  "packet_head_text datagram =
     ''unexpected packet head ['' @ hex2 (datagram ! 0) @ '', '' @ hex2 (datagram ! 1) @ '']''"

definition decode_tuic_udp_target ::
    "NetEnv \<Rightarrow> bytes \<Rightarrow> nat \<Rightarrow> (SocketAddr \<times> nat, TransportError) result" where
  "decode_tuic_udp_target env datagram offset =
     (if length datagram \<le> offset then Err (tuic_packet_error ''missing packet address type'')
      else if datagram ! offset = TUIC_ADDR_IPV4 then
        (let end = offset + 1 + 4 + 2 in
         if length datagram < end then Err (tuic_packet_error ''truncated IPv4 packet address'')
         else Ok (\<lparr>sa_ip = V4 (Ipv4Addr_new (datagram ! (offset + 1)) (datagram ! (offset + 2))
                           (datagram ! (offset + 3)) (datagram ! (offset + 4))),
                   sa_port = u16_from_be_bytes (datagram ! (offset + 5)) (datagram ! (offset + 6))\<rparr>,
                  end))
      else if datagram ! offset = TUIC_ADDR_IPV6 then
        (let end = offset + 1 + 16 + 2 in
         if length datagram < end then Err (tuic_packet_error ''truncated IPv6 packet address'')
         else Ok (\<lparr>sa_ip = V6 (Ipv6Addr_from (slice (offset + 1) (offset + 17) datagram)),
                   sa_port = u16_from_be_bytes (datagram ! (offset + 17)) (datagram ! (offset + 18))\<rparr>,
                  end))
      else if datagram ! offset = TUIC_ADDR_DOMAIN then
        (if length datagram \<le> offset + 1 then
           Err (tuic_packet_error ''truncated domain packet address length'')
         else
           let len = unat (datagram ! (offset + 1));
               end = offset + 1 + 1 + len + 2
           in if length datagram < end then Err (tuic_packet_error ''truncated domain packet address'')
              else
                and_then (ok_or (from_utf8 (slice (offset + 2) (offset + 2 + len) datagram))
                            InvalidDomainTarget) (\<lambda>domain.
                let port = u16_from_be_bytes (datagram ! (end - 2)) (datagram ! (end - 1)) in
                and_then (map_err Io (lookup_host env domain port)) (\<lambda>targets.
                case targets of
                  [] \<Rightarrow> Err NoUsableUdpTarget
                | target # _ \<Rightarrow> Ok (target, end))))
      else if datagram ! offset = TUIC_ADDR_NONE then
        Err (tuic_packet_error ''packet address type none is not valid here'')
      else
        Err (tuic_packet_error
          (''unsupported packet address type 0x'' @ hex_string (unat (datagram ! offset)))))"

record TuicUdpPacket =
  tp_target :: SocketAddr
  tp_payload :: bytes

definition decode_tuic_udp_packet ::
    "NetEnv \<Rightarrow> bytes \<Rightarrow> u16 \<Rightarrow> (TuicUdpPacket, TransportError) result" where
  "decode_tuic_udp_packet env datagram expected_association_id =
     (if length datagram < TUIC_UDP_PACKET_FIXED_LEN then
        Err (tuic_packet_error ''truncated packet header'')
      else if datagram ! 0 \<noteq> TUIC_VERSION_5 \<or> datagram ! 1 \<noteq> TUIC_COMMAND_PACKET then
        Err (tuic_packet_error (packet_head_text datagram))
      else if u16_from_be_bytes (datagram ! 2) (datagram ! 3) \<noteq> expected_association_id then
        Err (tuic_packet_error ''packet association id mismatch'')
      else if datagram ! 6 \<noteq> 1 \<or> datagram ! 7 \<noteq> 0 then
        Err (tuic_packet_error ''fragmented TUIC UDP packets are not implemented'')
      else
        let payload_len = unat (u16_from_be_bytes (datagram ! 8) (datagram ! 9)) in
        and_then (decode_tuic_udp_target env datagram TUIC_UDP_PACKET_FIXED_LEN)
          (\<lambda>(target, payload_offset).
        and_then (ok_or (checked_add_usize payload_offset payload_len)
                    (tuic_packet_error ''packet payload length overflow'')) (\<lambda>end.
        if length datagram \<noteq> end then Err (tuic_packet_error ''packet payload length mismatch'')
        else Ok \<lparr>tp_target = target, tp_payload = slice payload_offset end datagram\<rparr>)))"

record TuicUdpFragment =
  tf_association_id :: u16
  tf_packet_id :: u16
  tf_fragment_total :: byte
  tf_fragment_id :: byte
  tf_target :: "SocketAddr option"
  tf_payload :: bytes

definition decode_tuic_udp_fragment ::
    "NetEnv \<Rightarrow> bytes \<Rightarrow> (TuicUdpFragment, TransportError) result" where
  "decode_tuic_udp_fragment env datagram =
     (if length datagram < TUIC_UDP_PACKET_FIXED_LEN then
        Err (tuic_packet_error ''truncated packet header'')
      else if datagram ! 0 \<noteq> TUIC_VERSION_5 \<or> datagram ! 1 \<noteq> TUIC_COMMAND_PACKET then
        Err (tuic_packet_error (packet_head_text datagram))
      else
        let association_id = u16_from_be_bytes (datagram ! 2) (datagram ! 3);
            packet_id = u16_from_be_bytes (datagram ! 4) (datagram ! 5);
            fragment_total = datagram ! 6;
            fragment_id = datagram ! 7
        in if fragment_total = 0 \<or> fragment_id \<ge> fragment_total then
             Err (tuic_packet_error ''invalid TUIC fragment index'')
           else
             let payload_len = unat (u16_from_be_bytes (datagram ! 8) (datagram ! 9)) in
             and_then
               (if fragment_id = 0 then
                  and_then (decode_tuic_udp_target env datagram TUIC_UDP_PACKET_FIXED_LEN)
                    (\<lambda>(target, offset). Ok (Some target, offset))
                else if length datagram \<le> TUIC_UDP_PACKET_FIXED_LEN
                    \<or> datagram ! TUIC_UDP_PACKET_FIXED_LEN \<noteq> TUIC_ADDR_NONE then
                  Err (tuic_packet_error ''non-first TUIC fragment must use the none address'')
                else Ok (None, TUIC_UDP_PACKET_FIXED_LEN + 1))
               (\<lambda>(target, payload_offset).
             and_then (ok_or (checked_add_usize payload_offset payload_len)
                         (tuic_packet_error ''packet payload length overflow'')) (\<lambda>end.
             if length datagram \<noteq> end then
               Err (tuic_packet_error ''packet payload length mismatch'')
             else Ok \<lparr>tf_association_id = association_id, tf_packet_id = packet_id,
                      tf_fragment_total = fragment_total, tf_fragment_id = fragment_id,
                      tf_target = target, tf_payload = slice payload_offset end datagram\<rparr>)))"

section \<open>Reassembly\<close>

record TuicUdpReassemblyBuffer =
  rb_fragments :: "bytes option list"
  rb_received :: byte
  rb_target :: "SocketAddr option"
  rb_created :: Duration

type_synonym TuicUdpReassembler = "u16 \<times> u16 \<rightharpoonup> TuicUdpReassemblyBuffer"

text \<open>The concatenation of the chunks; \<open>None\<close> is the panic on a missing one.\<close>

fun expect_all :: "bytes option list \<Rightarrow> bytes option" where
  "expect_all [] = Some []"
| "expect_all (chunk # chunks) =
     (case chunk of
        None \<Rightarrow> None
      | Some chunk \<Rightarrow> map_option ((@) chunk) (expect_all chunks))"

text \<open>The chunk put into its slot, and the packet once its last slot is filled.\<close>

definition store_chunk ::
    "u16 \<times> u16 \<Rightarrow> nat \<Rightarrow> bytes \<Rightarrow> SocketAddr option \<Rightarrow> TuicUdpReassemblyBuffer \<Rightarrow> TuicUdpReassembler
     \<Rightarrow> (((bytes \<times> SocketAddr) option, TransportError) result \<times> TuicUdpReassembler) option" where
  "store_chunk key slot payload target buffer buffers =
     (let buffer = buffer\<lparr>rb_fragments := (rb_fragments buffer)[slot := Some payload],
                         rb_received := rb_received buffer + 1, rb_target := target\<rparr>
      in if unat (rb_received buffer) = length (rb_fragments buffer) then
           (case rb_target buffer of
              None \<Rightarrow> Some (Err (tuic_packet_error ''reassembled TUIC packet has no address''),
                            buffers(key := None))
            | Some target \<Rightarrow>
                map_option (\<lambda>payload. (Ok (Some (payload, target)), buffers(key := None)))
                  (expect_all (rb_fragments buffer)))
         else Some (Ok None, buffers(key \<mapsto> buffer)))"

definition entry_or_insert :: "Duration \<Rightarrow> nat \<Rightarrow> TuicUdpReassemblyBuffer option \<Rightarrow> TuicUdpReassemblyBuffer" where
  "entry_or_insert now slots entry =
     (case entry of
        Some buffer \<Rightarrow> buffer
      | None \<Rightarrow> \<lparr>rb_fragments = replicate slots None, rb_received = 0, rb_target = None, rb_created = now\<rparr>)"

text \<open>
  \<^verbatim>\<open>TuicUdpReassembler::accept\<close> at the instant \<open>now\<close>: the result and the buffers after it, or
  \<open>None\<close> where an index is out of range or an \<^verbatim>\<open>expect\<close> fails.
\<close>

definition accept_fragment ::
    "Duration \<Rightarrow> TuicUdpFragment \<Rightarrow> TuicUdpReassembler
     \<Rightarrow> (((bytes \<times> SocketAddr) option, TransportError) result \<times> TuicUdpReassembler) option" where
  "accept_fragment now fragment buffers =
     (if tf_fragment_total fragment = 1 then
        Some (case tf_target fragment of
                None \<Rightarrow> (Err (tuic_packet_error ''first TUIC fragment is missing its address''), buffers)
              | Some target \<Rightarrow> (Ok (Some (tf_payload fragment, target)), buffers))
      else
        let key = (tf_association_id fragment, tf_packet_id fragment);
            slots = unat (tf_fragment_total fragment);
            slot = unat (tf_fragment_id fragment);
            buffer = entry_or_insert now slots (buffers key)
        in if length (rb_fragments buffer) \<noteq> slots then
             Some (Err (tuic_packet_error ''TUIC fragment total changed mid-packet''),
                   buffers(key := None))
           else if length (rb_fragments buffer) \<le> slot then None
           else if rb_fragments buffer ! slot \<noteq> None then
             Some (Err (tuic_packet_error ''duplicate TUIC fragment''), buffers(key \<mapsto> buffer))
           else if tf_fragment_id fragment = 0 then
             (case tf_target fragment of
                None \<Rightarrow> Some (Err (tuic_packet_error ''first TUIC fragment is missing its address''),
                              buffers(key \<mapsto> buffer))
              | Some target \<Rightarrow> store_chunk key slot (tf_payload fragment) (Some target) buffer buffers)
           else store_chunk key slot (tf_payload fragment) (rb_target buffer) buffer buffers)"

definition collect_garbage :: "Duration \<Rightarrow> TuicUdpReassembler \<Rightarrow> TuicUdpReassembler" where
  "collect_garbage now buffers =
     (\<lambda>key. case buffers key of
        None \<Rightarrow> None
      | Some buffer \<Rightarrow> if now - rb_created buffer < DEFAULT_NAT_TIMEOUT then Some buffer else None)"

section \<open>The server's datagram relay\<close>

text \<open>
  An association as its channel sees it: the packets put into the channel, in order, and whether
  the task still holds the receiving end.
\<close>

record TuicUdpAssocHandle =
  ah_sent :: "(bytes \<times> SocketAddr) list"
  ah_open :: bool

record TuicRelay =
  rl_associations :: "u16 \<rightharpoonup> TuicUdpAssocHandle"
  rl_reassembler :: TuicUdpReassembler
  rl_logged :: bool
  rl_running :: bool

definition tuic_relay_start :: TuicRelay where
  "tuic_relay_start =
     \<lparr>rl_associations = Map.empty, rl_reassembler = Map.empty, rl_logged = False, rl_running = True\<rparr>"

definition forward_tuic_udp ::
    "u16 \<Rightarrow> bytes \<times> SocketAddr \<Rightarrow> (u16 \<rightharpoonup> TuicUdpAssocHandle) \<Rightarrow> u16 \<rightharpoonup> TuicUdpAssocHandle" where
  "forward_tuic_udp association_id forward associations =
     (case associations association_id of
        Some handle \<Rightarrow>
          if ah_open handle then
            associations(association_id \<mapsto> handle\<lparr>ah_sent := ah_sent handle @ [forward]\<rparr>)
          else associations(association_id \<mapsto> \<lparr>ah_sent = [forward], ah_open = True\<rparr>)
      | None \<Rightarrow> associations(association_id \<mapsto> \<lparr>ah_sent = [forward], ah_open = True\<rparr>))"

text \<open>\<^verbatim>\<open>RecvStream::read_to_end\<close>: the whole stream, unless it is longer than the limit or fails.\<close>

definition recv_read_to_end :: "nat \<Rightarrow> RecvStream \<Rightarrow> bytes option" where
  "recv_read_to_end limit recv =
     (case snd recv of
        Failed _ \<Rightarrow> None
      | Fin \<Rightarrow> if length (fst recv) > limit then None else Some (fst recv))"

text \<open>
  What \<^verbatim>\<open>select!\<close> picks next: the shutdown, a tick of the garbage collection, a unidirectional
  stream or a datagram of the peer (\<open>None\<close> when the connection is lost), or the end of an
  association's task.
\<close>

datatype tuic_event =
    RelayShutdown
  | GcTick
  | UniAccepted "RecvStream option"
  | DatagramRead "bytes option"
  | AssociationEnded u16

definition accept_packet :: "NetEnv \<Rightarrow> Duration \<Rightarrow> bytes \<Rightarrow> TuicRelay \<Rightarrow> TuicRelay option" where
  "accept_packet env now raw s =
     (case decode_tuic_udp_fragment env raw of
        Err _ \<Rightarrow> Some (s\<lparr>rl_logged := True\<rparr>)
      | Ok fragment \<Rightarrow>
          (case accept_fragment now fragment (rl_reassembler s) of
             None \<Rightarrow> None
           | Some (Ok (Some forward), buffers) \<Rightarrow>
               Some (s\<lparr>rl_reassembler := buffers,
                      rl_associations :=
                        forward_tuic_udp (tf_association_id fragment) forward (rl_associations s)\<rparr>)
           | Some (Ok None, buffers) \<Rightarrow> Some (s\<lparr>rl_reassembler := buffers\<rparr>)
           | Some (Err _, buffers) \<Rightarrow> Some (s\<lparr>rl_reassembler := buffers, rl_logged := True\<rparr>)))"

text \<open>Leaving the loop aborts every association.\<close>

definition relay_break :: "TuicRelay \<Rightarrow> TuicRelay" where
  "relay_break s = s\<lparr>rl_associations := Map.empty, rl_running := False\<rparr>"

definition uni_stream_step :: "NetEnv \<Rightarrow> Duration \<Rightarrow> RecvStream \<Rightarrow> TuicRelay \<Rightarrow> TuicRelay option" where
  "uni_stream_step env now recv s =
     (case recv_read_to_end TUIC_UNI_STREAM_MAX_LEN recv of
        None \<Rightarrow> Some s
      | Some raw \<Rightarrow>
          if length raw < 2 \<or> raw ! 0 \<noteq> TUIC_VERSION_5 then Some s
          else if raw ! 1 = TUIC_COMMAND_DISSOCIATE \<and> length raw \<ge> 4 then
            Some (s\<lparr>rl_associations :=
                     (rl_associations s)(u16_from_be_bytes (raw ! 2) (raw ! 3) := None)\<rparr>)
          else if raw ! 1 = TUIC_COMMAND_PACKET then accept_packet env now raw s
          else Some s)"

definition datagram_step :: "NetEnv \<Rightarrow> Duration \<Rightarrow> bytes \<Rightarrow> TuicRelay \<Rightarrow> TuicRelay option" where
  "datagram_step env now datagram s =
     (if length datagram \<ge> 2 \<and> datagram ! 0 = TUIC_VERSION_5 \<and> datagram ! 1 = TUIC_COMMAND_HEARTBEAT
      then Some s
      else accept_packet env now datagram s)"

definition tuic_relay_step ::
    "NetEnv \<Rightarrow> Duration \<Rightarrow> tuic_event \<Rightarrow> TuicRelay \<Rightarrow> TuicRelay option" where
  "tuic_relay_step env now event s =
     (if \<not> rl_running s then Some s
      else case event of
          RelayShutdown \<Rightarrow> Some (relay_break s)
        | GcTick \<Rightarrow> Some (s\<lparr>rl_reassembler := collect_garbage now (rl_reassembler s)\<rparr>)
        | UniAccepted None \<Rightarrow> Some (relay_break s)
        | UniAccepted (Some recv) \<Rightarrow> uni_stream_step env now recv s
        | DatagramRead None \<Rightarrow> Some (relay_break s)
        | DatagramRead (Some datagram) \<Rightarrow> datagram_step env now datagram s
        | AssociationEnded association_id \<Rightarrow>
            Some (s\<lparr>rl_associations :=
              (rl_associations s)(association_id :=
                 map_option (ah_open_update (\<lambda>_. False)) (rl_associations s association_id))\<rparr>))"

text \<open>\<^verbatim>\<open>run_tuic_udp_datagram_relay\<close> over a sequence of timed events; \<open>None\<close> is a panic.\<close>

fun run_tuic_udp_datagram_relay ::
    "NetEnv \<Rightarrow> (Duration \<times> tuic_event) list \<Rightarrow> TuicRelay \<Rightarrow> TuicRelay option" where
  "run_tuic_udp_datagram_relay env [] s = Some s"
| "run_tuic_udp_datagram_relay env ((now, event) # events) s =
     (case tuic_relay_step env now event s of
        None \<Rightarrow> None
      | Some s \<Rightarrow> run_tuic_udp_datagram_relay env events s)"

section \<open>One association of the relay\<close>

record TuicAssociationTask =
  at_socket :: RelaySocket
  at_packet_id :: u16
  at_logged_oversize :: bool
  at_running :: bool
  at_to_targets :: "(SocketAddr \<times> bytes) list" \<comment> \<open>what \<open>send_to\<close> was called with\<close>
  at_datagrams :: "bytes list" \<comment> \<open>what the QUIC connection took\<close>

definition tuic_association_start :: TuicAssociationTask where
  "tuic_association_start =
     \<lparr>at_socket = None, at_packet_id = 0, at_logged_oversize = False, at_running = True,
      at_to_targets = [], at_datagrams = []\<rparr>"

text \<open>
  \<open>SocketReceived\<close> carries what \<^verbatim>\<open>recv_from\<close> returns, the connection's datagram size at that
  moment, and which datagrams \<^verbatim>\<open>send_datagram\<close> takes.
\<close>

datatype association_event =
    Inbound "(bytes \<times> SocketAddr) option"
  | SocketReceived "(bytes \<times> SocketAddr, IoError) result" "nat option" "bytes \<Rightarrow> bool"
  | IdleTimeout

definition association_inbound ::
    "NetEnv \<Rightarrow> ProxyEgressPolicy \<Rightarrow> bytes \<times> SocketAddr \<Rightarrow> TuicAssociationTask \<Rightarrow> TuicAssociationTask" where
  "association_inbound env egress inbound a =
     (case inbound of (payload, target) \<Rightarrow>
        if egress_source_mismatches_target egress target then a
        else case ensure_relay_socket env egress (is_ipv4 target) (at_socket a) of
            Err _ \<Rightarrow> a
          | Ok socket \<Rightarrow>
              a\<lparr>at_socket := Some socket, at_to_targets := at_to_targets a @ [(target, payload)]\<rparr>)"

definition association_received ::
    "u16 \<Rightarrow> bytes \<times> SocketAddr \<Rightarrow> nat option \<Rightarrow> (bytes \<Rightarrow> bool) \<Rightarrow> TuicAssociationTask
     \<Rightarrow> TuicAssociationTask" where
  "association_received association_id received max_size accepts a =
     (case received of (response, peer) \<Rightarrow>
      case max_size of
        None \<Rightarrow> a\<lparr>at_logged_oversize := True\<rparr>
      | Some max_datagram_size \<Rightarrow>
          (case encode_tuic_udp_fragments (from_ip Udp (sa_ip peer) (sa_port peer)) response
                  association_id (at_packet_id a) max_datagram_size of
             Err _ \<Rightarrow> a
           | Ok fragments \<Rightarrow>
               a\<lparr>at_packet_id := at_packet_id a + 1,
                 at_datagrams := at_datagrams a @ takeWhile accepts fragments,
                 at_running := list_all accepts fragments\<rparr>))"

definition tuic_association_step ::
    "NetEnv \<Rightarrow> ProxyEgressPolicy \<Rightarrow> u16 \<Rightarrow> association_event \<Rightarrow> TuicAssociationTask
     \<Rightarrow> TuicAssociationTask" where
  "tuic_association_step env egress association_id event a =
     (if \<not> at_running a then a
      else case event of
          Inbound None \<Rightarrow> a\<lparr>at_running := False\<rparr>
        | Inbound (Some inbound) \<Rightarrow> association_inbound env egress inbound a
        | SocketReceived received max_size accepts \<Rightarrow>
            (if at_socket a = None then a
             else case received of
                 Err _ \<Rightarrow> a\<lparr>at_running := False\<rparr>
               | Ok received \<Rightarrow> association_received association_id received max_size accepts a)
        | IdleTimeout \<Rightarrow> a\<lparr>at_running := False\<rparr>)"

definition run_tuic_udp_association ::
    "NetEnv \<Rightarrow> ProxyEgressPolicy \<Rightarrow> u16 \<Rightarrow> association_event list \<Rightarrow> TuicAssociationTask" where
  "run_tuic_udp_association env egress association_id events =
     fold (tuic_association_step env egress association_id) events tuic_association_start"

section \<open>What is on the wire\<close>

definition tuic_addr_bytes :: "SocketAddr \<Rightarrow> bytes" where
  "tuic_addr_bytes target =
     (case sa_ip target of
        V4 a \<Rightarrow> TUIC_ADDR_IPV4 # Ipv4Addr_octets a
      | V6 a \<Rightarrow> TUIC_ADDR_IPV6 # Ipv6Addr_octets a) @ to_be_bytes 2 (sa_port target)"

definition packet_head :: "u16 \<Rightarrow> u16 \<Rightarrow> byte \<Rightarrow> byte \<Rightarrow> bytes \<Rightarrow> bytes" where
  "packet_head association_id packet_id n fragment_id payload =
     [TUIC_VERSION_5, TUIC_COMMAND_PACKET] @ to_be_bytes 2 association_id @ to_be_bytes 2 packet_id
       @ [n, fragment_id] @ to_be_bytes 2 (of_nat (length payload) :: u16)"

definition fragment_bytes :: "u16 \<Rightarrow> u16 \<Rightarrow> byte \<Rightarrow> byte \<Rightarrow> bytes \<Rightarrow> bytes \<Rightarrow> bytes" where
  "fragment_bytes association_id packet_id n fragment_id address payload =
     packet_head association_id packet_id n fragment_id payload @ address @ payload"

abbreviation target_header :: "SocketAddr \<Rightarrow> OwnedProxyHeader" where
  "target_header target \<equiv> from_ip Udp (sa_ip target) (sa_port target)"

lemma encode_tuic_target_from_ip [simp]:
  "encode_tuic_target (target_header target) output = Ok (output @ tuic_addr_bytes target)"
  by (cases "sa_ip target") (simp_all add: encode_tuic_target_def from_ip_def tuic_addr_bytes_def)

lemma tuic_target_encoded_len_from_ip [simp]:
  "tuic_target_encoded_len (target_header target) = Ok (length (tuic_addr_bytes target))"
  by (cases "sa_ip target") (simp_all add: tuic_target_encoded_len_def from_ip_def tuic_addr_bytes_def)

lemma tuic_addr_bytes_length: "7 \<le> length (tuic_addr_bytes target) \<and> length (tuic_addr_bytes target) \<le> 19"
  by (cases "sa_ip target") (simp_all add: tuic_addr_bytes_def)

lemma nth_after: "length xs \<le> i \<Longrightarrow> (xs @ ys) ! i = ys ! (i - length xs)"
  by (simp add: nth_append)

lemma decode_tuic_udp_target_v4:
  "decode_tuic_udp_target env
     (pre @ TUIC_ADDR_IPV4 # Ipv4Addr_octets a @ to_be_bytes 2 port @ rest) (length pre) =
   Ok (\<lparr>sa_ip = V4 a, sa_port = port\<rparr>, length pre + 7)"
proof -
  obtain b0 b1 b2 b3 where oct: "Ipv4Addr_octets a = [b0, b1, b2, b3]" "a = Ipv4Addr_new b0 b1 b2 b3"
    by (rule Ipv4Addr_octets_cases)
  show ?thesis
    by (simp add: decode_tuic_udp_target_def oct(1) nth_after to_be_bytes_2 Let_def)
       (simp add: oct(2))
qed

lemma decode_tuic_udp_target_v6:
  "decode_tuic_udp_target env
     (pre @ TUIC_ADDR_IPV6 # Ipv6Addr_octets a @ to_be_bytes 2 port @ rest) (length pre) =
   Ok (\<lparr>sa_ip = V6 a, sa_port = port\<rparr>, length pre + 19)"
proof -
  have "slice (length pre + 1) (length pre + 17)
          ((pre @ [TUIC_ADDR_IPV6]) @ Ipv6Addr_octets a @ to_be_bytes 2 port @ rest) = Ipv6Addr_octets a"
    by (rule slice_exact) simp_all
  moreover have "TUIC_ADDR_IPV6 \<noteq> TUIC_ADDR_IPV4" by (simp add: tuic_consts)
  ultimately show ?thesis
    by (simp add: decode_tuic_udp_target_def nth_after to_be_bytes_2 Let_def nth_Cons')
qed

lemma decode_tuic_addr_bytes:
  "decode_tuic_udp_target env (pre @ tuic_addr_bytes target @ rest) (length pre) =
   Ok (target, length pre + length (tuic_addr_bytes target))"
  by (cases "sa_ip target")
     (simp_all add: tuic_addr_bytes_def decode_tuic_udp_target_v4 decode_tuic_udp_target_v6)

lemma encode_fragment_first:
  "encode_tuic_udp_fragment (target_header target) payload a p n i True =
     (if length payload > 65535 then
        Err (TuicProxy ''packet'' ''UDP payload exceeds TUIC u16 packet size'')
      else Ok (fragment_bytes a p n i (tuic_addr_bytes target) payload))"
  by (simp add: encode_tuic_udp_fragment_def fragment_bytes_def packet_head_def)

lemma encode_fragment_other:
  "encode_tuic_udp_fragment header payload a p n i False =
     (if length payload > 65535 then
        Err (TuicProxy ''packet'' ''UDP payload exceeds TUIC u16 packet size'')
      else Ok (fragment_bytes a p n i [TUIC_ADDR_NONE] payload))"
  by (simp add: encode_tuic_udp_fragment_def fragment_bytes_def packet_head_def)

definition the_fragment :: "u16 \<Rightarrow> u16 \<Rightarrow> byte \<Rightarrow> byte \<Rightarrow> SocketAddr option \<Rightarrow> bytes \<Rightarrow> TuicUdpFragment" where
  "the_fragment a p n i target payload =
     \<lparr>tf_association_id = a, tf_packet_id = p, tf_fragment_total = n, tf_fragment_id = i,
      tf_target = target, tf_payload = payload\<rparr>"

lemma packet_head_props [simp]:
  "length (packet_head a p n i payload) = 10"
  "(packet_head a p n i payload @ rest) ! 0 = TUIC_VERSION_5"
  "(packet_head a p n i payload @ rest) ! Suc 0 = TUIC_COMMAND_PACKET"
  "u16_from_be_bytes ((packet_head a p n i payload @ rest) ! 2) ((packet_head a p n i payload @ rest) ! 3) = a"
  "u16_from_be_bytes ((packet_head a p n i payload @ rest) ! 4) ((packet_head a p n i payload @ rest) ! 5) = p"
  "(packet_head a p n i payload @ rest) ! 6 = n"
  "(packet_head a p n i payload @ rest) ! 7 = i"
  "u16_from_be_bytes ((packet_head a p n i payload @ rest) ! 8) ((packet_head a p n i payload @ rest) ! 9)
     = of_nat (length payload)"
  by (simp_all add: packet_head_def to_be_bytes_2)

lemma tf_association_id_the_fragment [simp]: "tf_association_id (the_fragment a p n i target payload) = a"
  by (simp add: the_fragment_def)

lemma decode_fragment_head:
  assumes d: "d = packet_head a p n i payload @ rest" and i: "i < n" and len: "length payload \<le> 65535"
    and off: "off \<le> 29" and body: "drop off d = payload" and lend: "length d = off + length payload"
    and address: "(if i = 0 then
                     and_then (decode_tuic_udp_target env d 10) (\<lambda>(target, offset). Ok (Some target, offset))
                   else if length d \<le> 10 \<or> d ! 10 \<noteq> TUIC_ADDR_NONE then
                     Err (tuic_packet_error ''non-first TUIC fragment must use the none address'')
                   else Ok (None, 10 + 1)) = Ok (target, off)"
  shows "decode_tuic_udp_fragment env d = Ok (the_fragment a p n i target payload)"
proof -
  have heads: "d ! 0 = TUIC_VERSION_5" "d ! 1 = TUIC_COMMAND_PACKET"
    "u16_from_be_bytes (d ! 2) (d ! 3) = a" "u16_from_be_bytes (d ! 4) (d ! 5) = p"
    "d ! 6 = n" "d ! 7 = i" "u16_from_be_bytes (d ! 8) (d ! 9) = of_nat (length payload)"
    unfolding d One_nat_def by (rule packet_head_props)+
  have "unat (of_nat (length payload) :: u16) = length payload" using len by (rule unat_of_nat_u16)
  moreover have "checked_add_usize off (length payload) = Some (length d)"
    using len off by (simp add: checked_add_usize_def lend)
  moreover have "slice off (length d) d = payload" by (simp add: slice_def lend body)
  moreover have "\<not> length d < 10" by (simp add: d)
  moreover have "n \<noteq> 0" "\<not> n \<le> i" using i by auto
  ultimately show ?thesis
    unfolding decode_tuic_udp_fragment_def TUIC_UDP_PACKET_FIXED_LEN_def Let_def heads address
    by (simp add: the_fragment_def)
qed

lemma decode_fragment_first:
  assumes "0 < n" and "length payload \<le> 65535"
  shows "decode_tuic_udp_fragment env (fragment_bytes a p n 0 (tuic_addr_bytes target) payload) =
         Ok (the_fragment a p n 0 (Some target) payload)"
  unfolding fragment_bytes_def
proof (rule decode_fragment_head [OF refl assms, where off = "10 + length (tuic_addr_bytes target)"])
  show "10 + length (tuic_addr_bytes target) \<le> 29" using tuic_addr_bytes_length by simp
qed (use decode_tuic_addr_bytes [of env "packet_head a p n 0 payload" target payload] in simp_all)

lemma decode_fragment_other:
  assumes "i < n" and "i \<noteq> 0" and "length payload \<le> 65535"
  shows "decode_tuic_udp_fragment env (fragment_bytes a p n i [TUIC_ADDR_NONE] payload) =
         Ok (the_fragment a p n i None payload)"
  unfolding fragment_bytes_def
  by (rule decode_fragment_head [OF refl assms(1,3), where off = 11])
     (use assms(2) in \<open>simp_all add: nth_append\<close>)

section \<open>The pieces of a packet\<close>

text \<open>Where the piece with the id \<open>i\<close> starts, for the budgets of the first and the other pieces.\<close>

definition piece_start :: "nat \<Rightarrow> nat \<Rightarrow> bytes \<Rightarrow> nat \<Rightarrow> nat" where
  "piece_start first other payload i =
     min (if i = 0 then 0 else first + (i - 1) * other) (length payload)"

definition piece :: "nat \<Rightarrow> nat \<Rightarrow> bytes \<Rightarrow> nat \<Rightarrow> bytes" where
  "piece first other payload i =
     slice (piece_start first other payload i) (piece_start first other payload (Suc i)) payload"

lemma piece_start_Suc:
  "min (piece_start first other payload i + (if i = 0 then first else other)) (length payload) =
   piece_start first other payload (Suc i)"
  by (cases i) (auto simp: piece_start_def min_def)

lemma piece_start_mono: "piece_start first other payload i \<le> piece_start first other payload (Suc i)"
  by (cases i) (auto simp: piece_start_def min_def)

lemma length_piece: "length (piece first other payload i) \<le> (if i = 0 then first else other)"
  using piece_start_Suc [of first other payload i]
  by (simp add: piece_def slice_def split: if_splits)

lemma concat_pieces:
  "concat (map (piece first other payload) [0 ..< n]) = take (piece_start first other payload n) payload"
proof (induction n)
  case (Suc n)
  let ?s = "piece_start first other payload"
  have "take (?s (Suc n)) payload = take (?s n) payload @ take (?s (Suc n) - ?s n) (drop (?s n) payload)"
    using take_add [of "?s n" "?s (Suc n) - ?s n" payload] piece_start_mono [of first other payload n]
    by simp
  with Suc show ?case by (simp add: piece_def slice_def)
qed (simp add: piece_start_def)

lemma div_ceil_mult: "0 < b \<Longrightarrow> a \<le> div_ceil a b * b"
  using dividend_less_div_times [of b a] by (auto simp: div_ceil_def)

lemma piece_start_end:
  assumes "0 < other" and "first < length payload"
  shows "piece_start first other payload (1 + div_ceil (length payload - first) other) = length payload"
  using assms div_ceil_mult [of other "length payload - first"] by (simp add: piece_start_def)

definition fragment_of :: "SocketAddr \<Rightarrow> u16 \<Rightarrow> u16 \<Rightarrow> nat \<Rightarrow> (nat \<Rightarrow> bytes) \<Rightarrow> nat \<Rightarrow> bytes" where
  "fragment_of target a p n pieces i =
     fragment_bytes a p (of_nat n) (of_nat i)
       (if i = 0 then tuic_addr_bytes target else [TUIC_ADDR_NONE]) (pieces i)"

lemma encode_fragments_loop_pieces:
  "encode_fragments_loop (target_header target) payload a p (of_nat n) first other
           (piece_start first other payload i) [i ..< n] = Ok ds \<longleftrightarrow>
         (\<forall>j. i \<le> j \<and> j < n \<longrightarrow> length (piece first other payload j) \<le> 65535) \<and>
         ds = map (fragment_of target a p n (piece first other payload)) [i ..< n]"
proof (induction "n - i" arbitrary: i ds)
  case (Suc k)
  have i: "i < n" using Suc.hyps(2) by simp
  have f: "encode_tuic_udp_fragment (target_header target) (piece first other payload i) a p
      (of_nat n) (of_nat i) (i = 0) =
      (if length (piece first other payload i) > 65535 then
         Err (TuicProxy ''packet'' ''UDP payload exceeds TUIC u16 packet size'')
       else Ok (fragment_of target a p n (piece first other payload) i))"
    by (cases "i = 0") (simp_all add: encode_fragment_first encode_fragment_other fragment_of_def)
  have all: "(\<forall>j. i \<le> j \<and> j < n \<longrightarrow> P j) \<longleftrightarrow> P i \<and> (\<forall>j. Suc i \<le> j \<and> j < n \<longrightarrow> P j)" for P
    using i by (metis Suc_leD Suc_leI le_neq_implies_less order_refl)
  show ?case
    using Suc.hyps(1) [of "Suc i"] Suc.hyps(2)
    unfolding upt_conv_Cons [OF i] encode_fragments_loop.simps Let_def piece_start_Suc piece_def [symmetric] f
    by (subst all) (auto simp: result_simps)
qed auto

text \<open>The datagrams of a packet: how many, what they hold, and that each fits.\<close>

lemma encode_tuic_udp_fragments_Ok:
  assumes "encode_tuic_udp_fragments (target_header target) payload a p max_size = Ok ds"
  obtains n pieces where "0 < n" and "n \<le> 255" and "concat (map pieces [0 ..< n]) = payload"
    and "\<forall>i < n. length (pieces i) \<le> 65535"
    and "ds = map (fragment_of target a p n pieces) [0 ..< n]"
    and "\<forall>i < n. length (fragment_of target a p n pieces i) \<le> max_size"
proof -
  let ?addr = "length (tuic_addr_bytes target)"
  define first where "first = max_size - (10 + ?addr)"
  define other where "other = max_size - 11"
  have enc: "first \<noteq> 0" "other \<noteq> 0"
    and cases: "if length payload \<le> first then
        and_then (encode_tuic_udp_fragment (target_header target) payload a p 1 0 True) (\<lambda>f. Ok [f]) = Ok ds
      else 1 + div_ceil (length payload - first) other \<le> 255 \<and>
        encode_fragments_loop (target_header target) payload a p
          (of_nat (1 + div_ceil (length payload - first) other)) first other 0
          [0 ..< 1 + div_ceil (length payload - first) other] = Ok ds"
    using assms unfolding encode_tuic_udp_fragments_def Let_def tuic_target_encoded_len_from_ip
      and_then.simps TUIC_UDP_PACKET_FIXED_LEN_def
    by (simp_all add: first_def other_def from_ip_def split: if_splits)
  have fits: "length (fragment_of target a p n pieces i) \<le> max_size"
    if "length (pieces i) \<le> (if i = 0 then first else other)" for n pieces i
    using that enc by (auto simp: fragment_of_def fragment_bytes_def first_def other_def split: if_splits)
  show thesis
  proof (cases "length payload \<le> first")
    case True
    then have "length payload \<le> 65535"
      and "ds = map (fragment_of target a p 1 (\<lambda>_. payload)) [0 ..< 1]"
      using cases by (auto simp: encode_fragment_first result_simps fragment_of_def split: if_splits)
    with True show thesis by (intro that [of 1 "\<lambda>_. payload"]) (auto intro!: fits)
  next
    case False
    define n where "n = 1 + div_ceil (length payload - first) other"
    have loop: "encode_fragments_loop (target_header target) payload a p (of_nat n) first other
        (piece_start first other payload 0) [0 ..< n] = Ok ds" and n: "n \<le> 255"
      using cases False by (simp_all add: n_def piece_start_def)
    have "concat (map (piece first other payload) [0 ..< n]) = payload"
      using piece_start_end [of other first payload] enc(2) False unfolding concat_pieces n_def by simp
    with loop n show thesis
      unfolding encode_fragments_loop_pieces
      by (intro that [of n "piece first other payload"]) (auto simp: n_def intro!: fits length_piece)
  qed
qed

section \<open>Reassembling a packet\<close>

text \<open>The buffer of a packet of which the pieces with an id in \<open>S\<close> have arrived.\<close>

definition partial_buffer ::
    "SocketAddr \<Rightarrow> nat \<Rightarrow> (nat \<Rightarrow> bytes) \<Rightarrow> nat set \<Rightarrow> Duration \<Rightarrow> TuicUdpReassemblyBuffer" where
  "partial_buffer target n pieces S created =
     \<lparr>rb_fragments = map (\<lambda>i. if i \<in> S then Some (pieces i) else None) [0 ..< n],
      rb_received = of_nat (card S),
      rb_target = (if 0 \<in> S then Some target else None),
      rb_created = created\<rparr>"

abbreviation decoded :: "SocketAddr \<Rightarrow> u16 \<Rightarrow> u16 \<Rightarrow> nat \<Rightarrow> (nat \<Rightarrow> bytes) \<Rightarrow> nat \<Rightarrow> TuicUdpFragment" where
  "decoded target a p n pieces i \<equiv>
     the_fragment a p (of_nat n) (of_nat i) (if i = 0 then Some target else None) (pieces i)"

lemma of_nat_byte_less:
  "n \<le> 255 \<Longrightarrow> i < n \<Longrightarrow> (of_nat i :: byte) < of_nat n"
  by (simp add: word_less_nat_alt unat_of_nat_u8)

lemma of_nat_byte_0: "i \<le> 255 \<Longrightarrow> (of_nat i :: byte) = 0 \<longleftrightarrow> i = 0"
  using unat_of_nat_u8 [of i] unat_eq_zero [of "of_nat i :: byte"] by simp

lemma decode_fragment_of:
  assumes "i < n" and "n \<le> 255" and "length (pieces i) \<le> 65535"
  shows "decode_tuic_udp_fragment env (fragment_of target a p n pieces i) =
         Ok (decoded target a p n pieces i)"
proof (cases "i = 0")
  case True
  then have "(0 :: byte) < of_nat n" using of_nat_byte_less [OF assms(2,1)] by simp
  from decode_fragment_first [OF this assms(3)] True show ?thesis by (simp add: fragment_of_def)
next
  case False
  then have "(of_nat i :: byte) \<noteq> 0" using assms(1,2) by (simp add: of_nat_byte_0)
  from decode_fragment_other [OF of_nat_byte_less [OF assms(2,1)] this assms(3)] False
  show ?thesis by (simp add: fragment_of_def)
qed

lemma expect_all_map_Some: "expect_all (map (\<lambda>i. Some (f i)) xs) = Some (concat (map f xs))"
  by (induction xs) simp_all

lemma accept_decoded:
  assumes n: "2 \<le> n" "n \<le> 255" and i: "i < n" "i \<notin> S" and S: "S \<subseteq> {..<n}"
    and buf: "entry_or_insert now n (buffers (a, p)) = partial_buffer target n pieces S created"
  shows "accept_fragment now (decoded target a p n pieces i) buffers =
         Some (if insert i S = {..<n} then
                 (Ok (Some (concat (map pieces [0 ..< n]), target)), buffers((a, p) := None))
               else (Ok None, buffers((a, p) \<mapsto> partial_buffer target n pieces (insert i S) created)))"
proof -
  have fin: "finite S" using S finite_subset by blast
  have sub: "insert i S \<subseteq> {..<n}" using S i(1) by simp
  have full: "card (insert i S) = n \<longleftrightarrow> insert i S = {..<n}"
    using card_subset_eq [OF finite_lessThan sub] card_lessThan [of n] by metis
  have card: "card (insert i S) \<le> n" using card_mono [OF finite_lessThan sub] by simp
  have words: "(of_nat n :: byte) \<noteq> 1"
    using n of_nat_byte_less [of n 1] by auto
  have unats: "unat (of_nat n :: byte) = n" "unat (of_nat i :: byte) = i" "(of_nat i :: byte) = 0 \<longleftrightarrow> i = 0"
    using n i by (intro unat_of_nat_u8 of_nat_byte_0; linarith)+
  have received: "(of_nat (card S) + 1 :: byte) = of_nat (card (insert i S))"
    using fin i(2) by (simp add: add.commute)
  have upd: "(map (\<lambda>j. if j \<in> S then Some (pieces j) else None) [0 ..< n])[i := Some (pieces i)] =
      map (\<lambda>j. if j \<in> insert i S then Some (pieces j) else None) [0 ..< n]"
    using i by (intro nth_equalityI) (auto simp: nth_list_update)
  define b where "b = partial_buffer target n pieces S created"
  define b' where "b' = partial_buffer target n pieces (insert i S) created"
  have b: "length (rb_fragments b) = n" "rb_fragments b ! i = None"
    using i by (simp_all add: b_def partial_buffer_def)
  have b': "b\<lparr>rb_fragments := (rb_fragments b)[i := Some (pieces i)], rb_received := rb_received b + 1,
              rb_target := (if i = 0 then Some target else rb_target b)\<rparr> = b'"
    unfolding b_def b'_def partial_buffer_def by (simp add: upd received del: of_nat_Suc)
  have len': "length (rb_fragments b') = n" "unat (rb_received b') = card (insert i S)"
    using card n(2) by (simp_all add: b'_def partial_buffer_def unat_of_nat_u8 del: of_nat_Suc card_insert_disjoint)
  have whole: "map (\<lambda>j. if j \<in> {..<n} then Some (pieces j) else None) [0 ..< n] =
      map (\<lambda>j. Some (pieces j)) [0 ..< n]"
    by (rule map_cong) auto
  have complete: "rb_target b' = Some target \<and> expect_all (rb_fragments b') = Some (concat (map pieces [0 ..< n]))"
    if "insert i S = {..<n}"
    using n(1) unfolding b'_def that partial_buffer_def by (simp only: whole) (simp add: expect_all_map_Some)
  have store: "store_chunk (a, p) i (pieces i) (if i = 0 then Some target else rb_target b) b buffers =
     Some (if insert i S = {..<n} then
             (Ok (Some (concat (map pieces [0 ..< n]), target)), buffers((a, p) := None))
           else (Ok None, buffers((a, p) \<mapsto> b')))"
    using complete unfolding store_chunk_def b' Let_def len' full by simp
  have "accept_fragment now (decoded target a p n pieces i) buffers =
      store_chunk (a, p) i (pieces i) (if i = 0 then Some target else rb_target b) b buffers"
    unfolding accept_fragment_def the_fragment_def TuicUdpFragment.simps unats buf b_def [symmetric] Let_def b
    using words i(1) by simp
  then show ?thesis by (simp only: store b'_def)
qed

text \<open>The fragments of one packet, as datagrams read by the relay at the given instants.\<close>

abbreviation arrivals :: "(nat \<Rightarrow> bytes) \<Rightarrow> (Duration \<times> nat) list \<Rightarrow> (Duration \<times> tuic_event) list" where
  "arrivals datagram order \<equiv> map (\<lambda>(now, i). (now, DatagramRead (Some (datagram i)))) order"

lemma fragment_of_step:
  assumes "rl_running s" and "i < n" and "n \<le> 255" and "length (pieces i) \<le> 65535"
  shows "tuic_relay_step env now (DatagramRead (Some (fragment_of target a p n pieces i))) s =
    (case accept_fragment now (decoded target a p n pieces i) (rl_reassembler s) of
       None \<Rightarrow> None
     | Some (Ok (Some forward), buffers) \<Rightarrow>
         Some (s\<lparr>rl_reassembler := buffers,
                rl_associations := forward_tuic_udp a forward (rl_associations s)\<rparr>)
     | Some (Ok None, buffers) \<Rightarrow> Some (s\<lparr>rl_reassembler := buffers\<rparr>)
     | Some (Err _, buffers) \<Rightarrow> Some (s\<lparr>rl_reassembler := buffers, rl_logged := True\<rparr>))"
proof -
  have "fragment_of target a p n pieces i ! 1 = TUIC_COMMAND_PACKET"
    unfolding fragment_of_def fragment_bytes_def One_nat_def by (rule packet_head_props)
  then have "fragment_of target a p n pieces i ! 1 \<noteq> TUIC_COMMAND_HEARTBEAT"
    by (simp add: tuic_udp_consts)
  then show ?thesis
    using assms(1) decode_fragment_of [where pieces = pieces, OF assms(2-4)]
    by (simp add: tuic_relay_step_def datagram_step_def accept_packet_def
          split: option.split result.split)
qed

lemma entry_partial:
  assumes "S = {} \<and> entry = None \<or> entry = Some (partial_buffer target n pieces S c)"
  obtains c' where "entry_or_insert now n entry = partial_buffer target n pieces S c'"
  using assms that [of c] that [of now]
  by (auto simp: entry_or_insert_def partial_buffer_def map_replicate_const)

lemma run_relay_Cons:
  "tuic_relay_step env now event s = Some s' \<Longrightarrow>
   run_tuic_udp_datagram_relay env ((now, event) # events) s = run_tuic_udp_datagram_relay env events s'"
  by simp

lemma feed_fragments:
  assumes n: "2 \<le> n" "n \<le> 255" and small: "\<forall>i < n. length (pieces i) \<le> 65535"
  shows "rl_running s \<Longrightarrow> order \<noteq> [] \<Longrightarrow> distinct (map snd order) \<Longrightarrow>
     S \<inter> set (map snd order) = {} \<Longrightarrow> S \<union> set (map snd order) = {..<n} \<Longrightarrow>
     S = {} \<and> rl_reassembler s (a, p) = None
       \<or> rl_reassembler s (a, p) = Some (partial_buffer target n pieces S c) \<Longrightarrow>
     run_tuic_udp_datagram_relay env (arrivals (fragment_of target a p n pieces) order) s =
     Some (s\<lparr>rl_reassembler := (rl_reassembler s)((a, p) := None),
            rl_associations :=
              forward_tuic_udp a (concat (map pieces [0 ..< n]), target) (rl_associations s)\<rparr>)"
proof (induction order arbitrary: s S c)
  case (Cons x order)
  obtain now i where x: "x = (now, i)" by (cases x)
  have i: "i < n" "i \<notin> S" "S \<subseteq> {..<n}" using Cons.prems(4,5) by (auto simp: x)
  obtain c' where c': "entry_or_insert now n (rl_reassembler s (a, p)) = partial_buffer target n pieces S c'"
    using Cons.prems(6) by (rule entry_partial)
  have step: "tuic_relay_step env now (DatagramRead (Some (fragment_of target a p n pieces i))) s =
      Some (if insert i S = {..<n} then
              s\<lparr>rl_reassembler := (rl_reassembler s)((a, p) := None),
                rl_associations :=
                  forward_tuic_udp a (concat (map pieces [0 ..< n]), target) (rl_associations s)\<rparr>
            else s\<lparr>rl_reassembler :=
                     (rl_reassembler s)((a, p) \<mapsto> partial_buffer target n pieces (insert i S) c')\<rparr>)"
    using fragment_of_step [OF Cons.prems(1) i(1) n(2)] small i(1)
      accept_decoded [where target = target and pieces = pieces and buffers = "rl_reassembler s", OF n i c'] by simp
  show ?case
  proof (cases "order = []")
    case True
    then have "insert i S = {..<n}" using Cons.prems(5) by (auto simp: x)
    with step have "tuic_relay_step env now (DatagramRead (Some (fragment_of target a p n pieces i))) s =
      Some (s\<lparr>rl_reassembler := (rl_reassembler s)((a, p) := None),
        rl_associations := forward_tuic_udp a (concat (map pieces [0 ..< n]), target) (rl_associations s)\<rparr>)"
      by (simp only: if_True simp_thms)
    with True show ?thesis unfolding x list.map prod.case by (simp only: list.map run_tuic_udp_datagram_relay.simps option.case)
  next
    case False
    obtain y where y: "y \<in> set (map snd order)" using False by (cases order) auto
    have "y \<notin> insert i S" "y < n" using y Cons.prems(3-5) by (auto simp: x)
    then have ne: "insert i S \<noteq> {..<n}" by blast
    let ?s = "s\<lparr>rl_reassembler := (rl_reassembler s)((a, p) \<mapsto> partial_buffer target n pieces (insert i S) c')\<rparr>"
    have "run_tuic_udp_datagram_relay env (arrivals (fragment_of target a p n pieces) order) ?s =
      Some (?s\<lparr>rl_reassembler := (rl_reassembler ?s)((a, p) := None),
             rl_associations :=
               forward_tuic_udp a (concat (map pieces [0 ..< n]), target) (rl_associations ?s)\<rparr>)"
      using Cons.prems(1-5) False by (intro Cons.IH [where S = "insert i S" and c = c']) (auto simp: x)
    also have "?s\<lparr>rl_reassembler := (rl_reassembler ?s)((a, p) := None),
        rl_associations := forward_tuic_udp a (concat (map pieces [0 ..< n]), target) (rl_associations ?s)\<rparr> =
      s\<lparr>rl_reassembler := (rl_reassembler s)((a, p) := None),
        rl_associations := forward_tuic_udp a (concat (map pieces [0 ..< n]), target) (rl_associations s)\<rparr>"
      by simp
    finally show ?thesis using step ne unfolding x list.map prod.case by (simp only: run_relay_Cons if_False)
  qed
qed simp

section \<open>The reassembler cannot panic\<close>

definition chunks :: "bytes option list \<Rightarrow> nat" where
  "chunks slots = length (filter (\<lambda>slot. slot \<noteq> None) slots)"

definition wf_buffer :: "TuicUdpReassemblyBuffer \<Rightarrow> bool" where
  "wf_buffer buffer \<longleftrightarrow>
     unat (rb_received buffer) = chunks (rb_fragments buffer)
     \<and> chunks (rb_fragments buffer) < length (rb_fragments buffer) \<and> length (rb_fragments buffer) \<le> 255"

definition wf_reassembler :: "TuicUdpReassembler \<Rightarrow> bool" where
  "wf_reassembler buffers \<longleftrightarrow> (\<forall>buffer \<in> ran buffers. wf_buffer buffer)"

lemma chunks_update:
  "i < length slots \<Longrightarrow> slots ! i = None \<Longrightarrow> chunks (slots[i := Some x]) = Suc (chunks slots)"
proof (induction slots arbitrary: i)
  case (Cons slot slots)
  then show ?case by (cases i) (auto simp: chunks_def)
qed simp

lemma chunks_le: "chunks slots \<le> length slots"
  by (simp add: chunks_def)

lemma expect_all_complete: "chunks slots = length slots \<Longrightarrow> \<exists>payload. expect_all slots = Some payload"
proof (induction slots)
  case (Cons slot slots)
  then show ?case using chunks_le [of slots] by (cases slot) (auto simp: chunks_def)
qed simp

lemma wf_reassembler_update:
  "wf_reassembler buffers \<Longrightarrow> wf_reassembler (buffers(key := None))"
  "wf_reassembler buffers \<Longrightarrow> wf_buffer buffer \<Longrightarrow> wf_reassembler (buffers(key \<mapsto> buffer))"
  by (auto simp: wf_reassembler_def ran_def split: if_splits)

lemma store_chunk_wf:
  assumes "wf_reassembler buffers" and b: "wf_buffer buffer" and slot: "slot < length (rb_fragments buffer)"
    and "rb_fragments buffer ! slot = None"
  shows "\<exists>r buffers'. store_chunk key slot payload target buffer buffers = Some (r, buffers')
           \<and> wf_reassembler buffers'"
proof -
  let ?b = "buffer\<lparr>rb_fragments := (rb_fragments buffer)[slot := Some payload],
                    rb_received := rb_received buffer + 1, rb_target := target\<rparr>"
  have c: "chunks (rb_fragments ?b) = Suc (chunks (rb_fragments buffer))"
    using assms(3,4) by (simp add: chunks_update)
  have r: "unat (rb_received ?b) = chunks (rb_fragments ?b)"
    using b unatSuc [of "rb_received buffer"] unat_of_nat_u8 [of 0]
    unfolding c by (auto simp: wf_buffer_def unat_word_ariths)
  show ?thesis
  proof (cases "unat (rb_received ?b) = length (rb_fragments ?b)")
    case True
    then obtain bytes where "expect_all (rb_fragments ?b) = Some bytes"
      using r expect_all_complete [of "rb_fragments ?b"] by auto
    with True assms(1) show ?thesis
      by (cases target) (simp_all add: store_chunk_def Let_def wf_reassembler_update)
  next
    case False
    with r c b have "wf_buffer ?b" by (auto simp: wf_buffer_def)
    with False assms(1) show ?thesis by (simp add: store_chunk_def Let_def wf_reassembler_update)
  qed
qed

lemma accept_fragment_wf:
  assumes wf: "wf_reassembler buffers" and i: "tf_fragment_id f < tf_fragment_total f"
  shows "\<exists>r buffers'. accept_fragment now f buffers = Some (r, buffers') \<and> wf_reassembler buffers'"
proof (cases "tf_fragment_total f = 1")
  case True
  with wf show ?thesis by (cases "tf_target f") (simp_all add: accept_fragment_def)
next
  case False
  define key where "key = (tf_association_id f, tf_packet_id f)"
  define b where "b = entry_or_insert now (unat (tf_fragment_total f)) (buffers key)"
  have i': "unat (tf_fragment_id f) < unat (tf_fragment_total f)" using i by (simp add: word_less_nat_alt)
  have b: "wf_buffer b"
  proof (cases "buffers key")
    case None
    then show ?thesis using i' unat_byte_le [of "tf_fragment_total f"]
      by (simp add: b_def entry_or_insert_def wf_buffer_def chunks_def)
  next
    case (Some buffer)
    then show ?thesis using wf ranI [of buffers key buffer]
      by (simp add: b_def entry_or_insert_def wf_reassembler_def)
  qed
  define slot where "slot = unat (tf_fragment_id f)"
  show ?thesis
    using False wf b i' [folded slot_def] store_chunk_wf [OF wf b, of slot]
    unfolding accept_fragment_def Let_def key_def [symmetric] b_def [symmetric] slot_def [symmetric]
    by (simp add: wf_reassembler_update split: option.split)
qed

lemma decode_fragment_index:
  "decode_tuic_udp_fragment env raw = Ok f \<Longrightarrow> tf_fragment_id f < tf_fragment_total f"
  by (auto simp: decode_tuic_udp_fragment_def Let_def result_simps word_gt_0 not_le split: if_splits)

definition tuic_relay_ok :: "TuicRelay \<Rightarrow> bool" where
  "tuic_relay_ok s \<longleftrightarrow>
     wf_reassembler (rl_reassembler s) \<and> (rl_running s \<or> rl_associations s = Map.empty)"

lemma accept_packet_ok:
  assumes "tuic_relay_ok s" and "rl_running s"
  shows "\<exists>s'. accept_packet env now raw s = Some s' \<and> tuic_relay_ok s'"
proof (cases "decode_tuic_udp_fragment env raw")
  case (Ok f)
  obtain r buffers' where "accept_fragment now f (rl_reassembler s) = Some (r, buffers')"
    and "wf_reassembler buffers'"
    using accept_fragment_wf [OF _ decode_fragment_index [OF Ok]] assms(1) unfolding tuic_relay_ok_def
    by blast
  with Ok assms(2) show ?thesis
    by (auto simp: accept_packet_def tuic_relay_ok_def split: result.split option.split)
qed (use assms in \<open>simp add: accept_packet_def tuic_relay_ok_def\<close>)

lemma collect_garbage_wf: "wf_reassembler buffers \<Longrightarrow> wf_reassembler (collect_garbage now buffers)"
  by (auto simp: wf_reassembler_def collect_garbage_def ran_def split: option.splits if_splits)

lemma tuic_relay_step_ok:
  assumes ok: "tuic_relay_ok s"
  shows "\<exists>s'. tuic_relay_step env now event s = Some s' \<and> tuic_relay_ok s'"
proof (cases "rl_running s")
  case True
  note accept = accept_packet_ok [OF ok True]
  show ?thesis
  proof (cases event)
    case (UniAccepted recv)
    then show ?thesis using True ok accept
      by (auto simp: tuic_relay_step_def uni_stream_step_def relay_break_def tuic_relay_ok_def
          split: option.split)
  next
    case (DatagramRead datagram)
    then show ?thesis using True ok accept
      by (auto simp: tuic_relay_step_def datagram_step_def relay_break_def tuic_relay_ok_def
          split: option.split)
  qed (use True ok collect_garbage_wf in
      \<open>auto simp: tuic_relay_step_def relay_break_def tuic_relay_ok_def\<close>)
qed (use ok in \<open>simp add: tuic_relay_step_def\<close>)

section \<open>Properties\<close>


text \<open>
  C9: a packet that the TUIC encoder splits for a connection whose datagrams hold
  \<open>max_size\<close> bytes is sent in datagrams of at most that size, and a relay that reads them, in
  whatever order and at whatever times before a garbage collection, hands the whole packet with its
  target to the association exactly once, and forgets the packet's buffer.
\<close>

theorem fragments_reassemble:
  assumes "encode_tuic_udp_fragments (from_ip Udp (sa_ip target) (sa_port target)) payload
             association_id packet_id max_size = Ok datagrams"
    and order: "mset (map snd order) = mset [0 ..< length datagrams]"
    and running: "rl_running s" and fresh: "rl_reassembler s (association_id, packet_id) = None"
  shows "list_all (\<lambda>datagram. length datagram \<le> max_size) datagrams
    \<and> run_tuic_udp_datagram_relay env
        (map (\<lambda>(now, i). (now, DatagramRead (Some (datagrams ! i)))) order) s =
      Some (s\<lparr>rl_associations :=
                forward_tuic_udp association_id (payload, target) (rl_associations s)\<rparr>)"
proof -
  obtain n pieces where n: "0 < n" "n \<le> 255" and whole: "concat (map pieces [0 ..< n]) = payload"
    and small: "\<forall>i < n. length (pieces i) \<le> 65535"
    and ds: "datagrams = map (fragment_of target association_id packet_id n pieces) [0 ..< n]"
    and fits: "\<forall>i < n. length (fragment_of target association_id packet_id n pieces i) \<le> max_size"
    using assms(1) by (rule encode_tuic_udp_fragments_Ok)
  have set: "set (map snd order) = {..<n}" and dist: "distinct (map snd order)"
    using order mset_eq_setD [OF order] mset_eq_imp_distinct_iff [OF order] by (auto simp: ds)
  have arr: "map (\<lambda>(now, i). (now, DatagramRead (Some (datagrams ! i)))) order =
      arrivals (fragment_of target association_id packet_id n pieces) order"
  proof (rule map_cong [OF refl])
    fix x assume "x \<in> set order"
    then have "snd x < n" using set by auto
    then show "(case x of (now, i) \<Rightarrow> (now, DatagramRead (Some (datagrams ! i)))) =
        (case x of (now, i) \<Rightarrow>
           (now, DatagramRead (Some (fragment_of target association_id packet_id n pieces i))))"
      by (cases x) (simp add: ds)
  qed
  have same: "(rl_reassembler s)((association_id, packet_id) := None) = rl_reassembler s"
    using fresh by auto
  have "run_tuic_udp_datagram_relay env
      (arrivals (fragment_of target association_id packet_id n pieces) order) s =
      Some (s\<lparr>rl_associations := forward_tuic_udp association_id (payload, target) (rl_associations s)\<rparr>)"
  proof (cases "n = 1")
    case True
    then obtain now where "order = [(now, 0)]" using order
      by (cases order) (auto simp: ds)
    with True running small whole show ?thesis
      using fragment_of_step [of s 0 1 pieces env now target association_id packet_id]
      by (simp add: accept_fragment_def the_fragment_def)
  next
    case False
    then show ?thesis
      using feed_fragments [where S = "{}" and order = order, OF _ n(2) small running] n(1) set dist fresh whole same
      by (cases order) auto
  qed
  then show ?thesis using fits unfolding arr by (simp add: ds list_all_iff)
qed

definition demo_target :: SocketAddr where
  "demo_target = \<lparr>sa_ip = V4 0x01020304, sa_port = 53\<rparr>"

definition demo_payload :: bytes where
  "demo_payload = [1, 2, 3, 4, 5, 6, 7, 8, 9, 10]"

lemma demo_addr_length [simp]: "length (tuic_addr_bytes demo_target) = 7"
  by (simp add: tuic_addr_bytes_def demo_target_def)

lemma demo_fragments:
  "encode_tuic_udp_fragments (target_header demo_target) demo_payload 7 9 20 =
     Ok [fragment_bytes 7 9 2 0 (tuic_addr_bytes demo_target) [1, 2, 3],
         fragment_bytes 7 9 2 1 [TUIC_ADDR_NONE] [4, 5, 6, 7, 8, 9, 10]]"
proof -
  have "oh_network (target_header demo_target) = Udp" by (simp add: from_ip_def)
  moreover have "[0 ..< 2] = [0, Suc 0]" by (simp add: numeral_2_eq_2)
  moreover have "slice 0 3 demo_payload = [1, 2, 3]" "slice 3 10 demo_payload = [4, 5, 6, 7, 8, 9, 10]"
    and "length demo_payload = 10"
    by (simp_all add: slice_def demo_payload_def)
  ultimately show ?thesis
    by (simp add: encode_tuic_udp_fragments_def TUIC_UDP_PACKET_FIXED_LEN_def div_ceil_def
        encode_fragment_first encode_fragment_other)
qed

theorem fragments_reassemble_witness:
  "list_all (\<lambda>datagram. length datagram \<le> 20)
     [fragment_bytes 7 9 2 0 (tuic_addr_bytes demo_target) [1, 2, 3],
      fragment_bytes 7 9 2 1 [TUIC_ADDR_NONE] [4, 5, 6, 7, 8, 9, 10]]
   \<and> run_tuic_udp_datagram_relay demo_env
       [(5, DatagramRead (Some (fragment_bytes 7 9 2 1 [TUIC_ADDR_NONE] [4, 5, 6, 7, 8, 9, 10]))),
        (8, DatagramRead (Some (fragment_bytes 7 9 2 0 (tuic_addr_bytes demo_target) [1, 2, 3])))]
       tuic_relay_start =
     Some (tuic_relay_start\<lparr>rl_associations :=
             [7 \<mapsto> \<lparr>ah_sent = [(demo_payload, demo_target)], ah_open = True\<rparr>]\<rparr>)"
  using fragments_reassemble [OF demo_fragments, of "[(5, 1), (8, 0)]" tuic_relay_start demo_env]
  by (simp add: tuic_relay_start_def forward_tuic_udp_def del: run_tuic_udp_datagram_relay.simps)

end
