(* ===== verification/ClientHandshake.thy ===== *)
theory ClientHandshake
  imports Config Net JuicityStream StreamIO
begin

text \<open>
  The local side of the client's mixed listener (\<^verbatim>\<open>zuicity-client/src/lib.rs\<close>): HTTP CONNECT and
  SOCKS5 requests on an accepted TCP stream, the SOCKS5 UDP datagram format, and the text forms of
  forward targets. A local stream is a stream of the theory \<open>StreamIO\<close>. Proved: both handshakes take exactly
  their request off the stream and yield the target asked for; SOCKS5 targets always fit a Juicity
  header; and the datagram format reads back what was written.
\<close>

section \<open>Errors\<close>

datatype ClientError =
    ClientConfigError ConfigError
  | ClientTransport TransportError
  | ServerAddr string
  | InvalidMixedListenAddr string
  | InvalidHttpConnectRequest
  | InvalidSocks5Request
  | UnsupportedSocks5Auth
  | UnsupportedSocks5Command byte
  | InvalidForwardLocalAddr string
  | InvalidForwardRemoteAddr string
  | InvalidForwardRemoteTarget string
  | ClientIo IoError
  | ClientJoin JoinError

section \<open>Local streams\<close>

type_synonym 'a local_io = "('a, ClientError) stream_io"

abbreviation io_read_exact :: "nat \<Rightarrow> bytes local_io" where
  "io_read_exact \<equiv> stream_read_exact ClientIo"

abbreviation io_write_all :: "bytes \<Rightarrow> unit local_io" where
  "io_write_all \<equiv> stream_write_all ClientIo"

section \<open>Protocol choice and forward targets\<close>

datatype MixedProtocol = Socks5 | Http

definition from_peeked_byte :: "byte option \<Rightarrow> MixedProtocol" where
  "from_peeked_byte byte = (if byte = Some 0x05 then Socks5 else Http)"

text \<open>\<^verbatim>\<open>TcpForwardTarget\<close> and \<^verbatim>\<open>UdpForwardTarget\<close>, which have the same shape and parser.\<close>

datatype TcpForwardTarget = TargetIp SocketAddr | TargetDomain string u16

type_synonym UdpForwardTarget = TcpForwardTarget

definition split_domain_port :: "string \<Rightarrow> (string \<times> u16) option" where
  "split_domain_port value_text =
     (case rsplit_once CHR '':'' value_text of
        None \<Rightarrow> None
      | Some (domain, port) \<Rightarrow>
          if domain = [] \<or> port = [] \<or> starts_with domain ''['' \<or> CHR '':'' \<in> set domain then None
          else map_option (\<lambda>port. (domain, port)) (parse_u16 port))"

definition ip_or_domain :: "string \<Rightarrow> (TcpForwardTarget, ClientError) result" where
  "ip_or_domain value_text =
     (case parse_socket_addr value_text of
        Some addr \<Rightarrow> Ok (TargetIp addr)
      | None \<Rightarrow>
          and_then (ok_or (split_domain_port value_text) (InvalidForwardRemoteTarget value_text))
            (\<lambda>(domain, port). Ok (TargetDomain domain port)))"

definition parse_tcp_forward_target :: "string \<Rightarrow> (TcpForwardTarget, ClientError) result" where
  "parse_tcp_forward_target value_text = ip_or_domain value_text"

definition parse_udp_forward_target :: "string \<Rightarrow> (UdpForwardTarget, ClientError) result" where
  "parse_udp_forward_target value_text = ip_or_domain value_text"

definition target_to_string :: "TcpForwardTarget \<Rightarrow> string" where
  "target_to_string target =
     (case target of
        TargetIp addr \<Rightarrow> socket_addr_to_string addr
      | TargetDomain domain port \<Rightarrow> domain @ '':'' @ dec_string (unat port))"

definition parse_client_server_addr :: "string \<Rightarrow> (SocketAddr, ClientError) result" where
  "parse_client_server_addr value_text = ok_or (parse_socket_addr value_text) (ServerAddr value_text)"

definition client_dialer_bind_addr :: "SocketAddr \<Rightarrow> SocketAddr" where
  "client_dialer_bind_addr server =
     (if is_ipv4 server then \<lparr>sa_ip = V4 0, sa_port = 0\<rparr> else \<lparr>sa_ip = V6 0, sa_port = 0\<rparr>)"

section \<open>HTTP CONNECT\<close>

definition HEAD_LIMIT :: nat where "HEAD_LIMIT = 8192"

abbreviation blank_line :: bytes where
  "blank_line \<equiv> [13, 10, 13, 10]"

definition ends_with_blank_line :: "bytes \<Rightarrow> bool" where
  "ends_with_blank_line request \<longleftrightarrow>
     4 \<le> length request \<and> drop (length request - 4) request = blank_line"

text \<open>The loop that reads byte by byte up to the empty line.\<close>

function read_http_head :: "bytes \<Rightarrow> bytes local_io" where
  "read_http_head request s =
     (if ends_with_blank_line request then (Got request, s)
      else if HEAD_LIMIT \<le> length request then (Refused InvalidHttpConnectRequest, s)
      else
        case io_read_exact 1 s of
          (Got byte, s) \<Rightarrow> read_http_head (request @ take 1 byte) s
        | (Refused e, s) \<Rightarrow> (Refused e, s)
        | (Waiting, s) \<Rightarrow> (Waiting, s))"
  by pat_completeness auto
termination
  by (relation "measure (\<lambda>(request, s). HEAD_LIMIT - length request)")
     (auto simp: stream_read_exact_def split: if_splits local_end.splits)

declare read_http_head.simps [simp del]

text \<open>\<^verbatim>\<open>str::lines().next()\<close> of a string that is not empty.\<close>

definition first_line :: "string \<Rightarrow> string" where
  "first_line s =
     (let line = takeWhile (\<lambda>c. c \<noteq> CHR 0x0A) s in
      if line \<noteq> [] \<and> last line = CHR 0x0D then butlast line else line)"

text \<open>\<^verbatim>\<open>str::split_whitespace\<close>\<close>

function whitespace_pieces :: "string \<Rightarrow> string list" where
  "whitespace_pieces [] = [[]]"
| "whitespace_pieces (c # cs) =
     (case find (\<lambda>w. w \<noteq> [] \<and> starts_with (c # cs) w) white_space of
        Some w \<Rightarrow> [] # whitespace_pieces (drop (length w) (c # cs))
      | None \<Rightarrow>
          (case whitespace_pieces cs of
             [] \<Rightarrow> [[c]]
           | piece # pieces \<Rightarrow> (c # piece) # pieces))"
  by pat_completeness auto
termination
  by (relation "measure length") (auto simp: find_Some_iff)

declare whitespace_pieces.simps(2) [simp del]

definition split_whitespace :: "string \<Rightarrow> string list" where
  "split_whitespace s = filter (\<lambda>piece. piece \<noteq> []) (whitespace_pieces s)"

definition parse_http_connect :: "bytes \<Rightarrow> (TcpForwardTarget, ClientError) result" where
  "parse_http_connect request =
     and_then (ok_or (from_utf8 request) InvalidHttpConnectRequest) (\<lambda>request.
     case split_whitespace (first_line request) of
       [method, target, version] \<Rightarrow>
         if method \<noteq> ''CONNECT'' \<or> \<not> starts_with version ''HTTP/'' then Err InvalidHttpConnectRequest
         else parse_tcp_forward_target target
     | _ \<Rightarrow> Err InvalidHttpConnectRequest)"

definition read_http_connect_target :: "TcpForwardTarget local_io" where
  "read_http_connect_target =
     io_then (read_http_head []) (\<lambda>request. io_result (parse_http_connect request))"

section \<open>SOCKS5\<close>

definition write_socks5_failure_response :: "byte \<Rightarrow> unit local_io" where
  "write_socks5_failure_response reply = io_write_all [0x05, reply, 0x00, 0x01, 0, 0, 0, 0, 0, 0]"

definition write_socks5_success_response :: "SocketAddr \<Rightarrow> unit local_io" where
  "write_socks5_success_response bind_addr =
     io_write_all ([0x05, 0x00, 0x00] @
       (case sa_ip bind_addr of
          V4 ip \<Rightarrow> [0x01] @ Ipv4Addr_octets ip @ to_be_bytes 2 (sa_port bind_addr)
        | V6 ip \<Rightarrow> [0x04] @ Ipv6Addr_octets ip @ to_be_bytes 2 (sa_port bind_addr)))"

definition read_socks5_greeting :: "unit local_io" where
  "read_socks5_greeting =
     io_then (io_read_exact 2) (\<lambda>greeting.
     if greeting ! 0 \<noteq> 0x05 \<or> greeting ! 1 = 0 then io_err InvalidSocks5Request
     else
       io_then (io_read_exact (unat (greeting ! 1))) (\<lambda>methods.
       if 0x00 \<notin> set methods then
         io_then (io_write_all [0x05, 0xff]) (\<lambda>_. io_err UnsupportedSocks5Auth)
       else io_write_all [0x05, 0x00]))"

definition read_socks5_request_header :: "(byte \<times> byte) local_io" where
  "read_socks5_request_header =
     io_then (io_read_exact 4) (\<lambda>header.
     if header ! 0 \<noteq> 0x05 \<or> header ! 2 \<noteq> 0x00 then
       io_then (write_socks5_failure_response 0x01) (\<lambda>_. io_err InvalidSocks5Request)
     else io_ok (header ! 1, header ! 3))"

definition read_network_port :: "u16 local_io" where
  "read_network_port = io_then (io_read_exact 2) (\<lambda>port. io_ok (u16_from_be_bytes (port ! 0) (port ! 1)))"

definition read_socks5_tcp_target :: "byte \<Rightarrow> TcpForwardTarget local_io" where
  "read_socks5_tcp_target address_type =
     (if address_type = 0x01 then
        io_then (io_read_exact 4) (\<lambda>addr.
        io_then read_network_port (\<lambda>port.
        io_ok (TargetIp \<lparr>sa_ip = V4 (from_be_bytes addr), sa_port = port\<rparr>)))
      else if address_type = 0x03 then
        io_then (io_read_exact 1) (\<lambda>len.
        if len ! 0 = 0 then io_err InvalidSocks5Request
        else
          io_then (io_read_exact (unat (len ! 0))) (\<lambda>domain.
          io_then (io_result (ok_or (from_utf8 domain) InvalidSocks5Request)) (\<lambda>domain.
          io_then read_network_port (\<lambda>port. io_ok (TargetDomain domain port)))))
      else if address_type = 0x04 then
        io_then (io_read_exact 16) (\<lambda>addr.
        io_then read_network_port (\<lambda>port.
        io_ok (TargetIp \<lparr>sa_ip = V6 (Ipv6Addr_from addr), sa_port = port\<rparr>)))
      else io_err InvalidSocks5Request)"

definition validate_socks5_command_and_address_type :: "byte \<Rightarrow> byte \<Rightarrow> byte \<Rightarrow> unit local_io" where
  "validate_socks5_command_and_address_type command expected_command address_type =
     (if command \<noteq> expected_command then
        io_then (write_socks5_failure_response 0x07) (\<lambda>_. io_err (UnsupportedSocks5Command command))
      else if address_type \<notin> {0x01, 0x03, 0x04} then
        io_then (write_socks5_failure_response 0x08) (\<lambda>_. io_err InvalidSocks5Request)
      else io_ok ())"

definition read_socks5_connect_target :: "TcpForwardTarget local_io" where
  "read_socks5_connect_target =
     io_then read_socks5_greeting (\<lambda>_.
     io_then read_socks5_request_header (\<lambda>(command, address_type).
     io_then (validate_socks5_command_and_address_type command 0x01 address_type) (\<lambda>_.
     read_socks5_tcp_target address_type)))"

record Socks5UdpClientEndpoint =
  ep_ip :: "IpAddr option"
  ep_port :: u16

definition endpoint_matches :: "Socks5UdpClientEndpoint \<Rightarrow> IpAddr \<Rightarrow> SocketAddr \<Rightarrow> bool" where
  "endpoint_matches endpoint control_ip udp_peer \<longleftrightarrow>
     sa_ip udp_peer = control_ip
     \<and> (case ep_ip endpoint of None \<Rightarrow> True | Some ip \<Rightarrow> ip = sa_ip udp_peer)
     \<and> (ep_port endpoint = 0 \<or> ep_port endpoint = sa_port udp_peer)"

definition specified_ip :: "IpAddr \<Rightarrow> IpAddr option" where
  "specified_ip ip = (if ip_is_unspecified ip then None else Some ip)"

definition read_socks5_udp_client_endpoint :: "byte \<Rightarrow> Socks5UdpClientEndpoint local_io" where
  "read_socks5_udp_client_endpoint atyp =
     io_then
       (if atyp = 0x01 then
          io_then (io_read_exact 4) (\<lambda>addr. io_ok (specified_ip (V4 (from_be_bytes addr))))
        else if atyp = 0x03 then
          io_then (io_read_exact 1) (\<lambda>len.
          if len ! 0 = 0 then io_err InvalidSocks5Request
          else io_then (io_read_exact (unat (len ! 0))) (\<lambda>_. io_ok None))
        else if atyp = 0x04 then
          io_then (io_read_exact 16) (\<lambda>addr. io_ok (specified_ip (V6 (Ipv6Addr_from addr))))
        else io_err InvalidSocks5Request)
       (\<lambda>ip. io_then read_network_port (\<lambda>port. io_ok \<lparr>ep_ip = ip, ep_port = port\<rparr>))"

definition read_socks5_udp_associate_request :: "Socks5UdpClientEndpoint local_io" where
  "read_socks5_udp_associate_request =
     io_then read_socks5_greeting (\<lambda>_.
     io_then read_socks5_request_header (\<lambda>(command, address_type).
     io_then (validate_socks5_command_and_address_type command 0x03 address_type) (\<lambda>_.
     read_socks5_udp_client_endpoint address_type)))"

section \<open>SOCKS5 UDP datagrams\<close>

text \<open>\<^verbatim>\<open>Socks5UdpTarget\<close> has the shape of \<^verbatim>\<open>TcpForwardTarget\<close>.\<close>

type_synonym Socks5UdpTarget = TcpForwardTarget

record Socks5UdpDatagram =
  sd_target :: Socks5UdpTarget
  sd_payload :: bytes

definition decode_socks5_udp_datagram :: "bytes \<Rightarrow> (Socks5UdpDatagram, ClientError) result" where
  "decode_socks5_udp_datagram datagram =
     (if length datagram < 4 \<or> datagram ! 0 \<noteq> 0 \<or> datagram ! 1 \<noteq> 0 \<or> datagram ! 2 \<noteq> 0 then
        Err InvalidSocks5Request
      else if datagram ! 3 = 0x01 then
        if length datagram < 4 + 4 + 2 then Err InvalidSocks5Request
        else Ok \<lparr>sd_target = TargetIp
                   \<lparr>sa_ip = V4 (Ipv4Addr_new (datagram ! 4) (datagram ! 5) (datagram ! 6) (datagram ! 7)),
                    sa_port = u16_from_be_bytes (datagram ! 8) (datagram ! 9)\<rparr>,
                 sd_payload = drop 10 datagram\<rparr>
      else if datagram ! 3 = 0x03 then
        if length datagram \<le> 4 then Err InvalidSocks5Request
        else
          let len = unat (datagram ! 4) in
          if len = 0 \<or> length datagram < 5 + len + 2 then Err InvalidSocks5Request
          else
            and_then (ok_or (from_utf8 (slice 5 (5 + len) datagram)) InvalidSocks5Request) (\<lambda>domain.
            Ok \<lparr>sd_target = TargetDomain domain
                  (u16_from_be_bytes (datagram ! (5 + len)) (datagram ! (5 + len + 1))),
                sd_payload = drop (5 + len + 2) datagram\<rparr>)
      else if datagram ! 3 = 0x04 then
        if length datagram < 4 + 16 + 2 then Err InvalidSocks5Request
        else Ok \<lparr>sd_target = TargetIp
                   \<lparr>sa_ip = V6 (Ipv6Addr_from (slice 4 20 datagram)),
                    sa_port = u16_from_be_bytes (datagram ! 20) (datagram ! 21)\<rparr>,
                 sd_payload = drop 22 datagram\<rparr>
      else Err InvalidSocks5Request)"

definition encode_socks5_udp_datagram :: "SocketAddr \<Rightarrow> bytes \<Rightarrow> (bytes, ClientError) result" where
  "encode_socks5_udp_datagram target payload =
     Ok ([0x00, 0x00, 0x00] @
         (case sa_ip target of
            V4 ip \<Rightarrow> [0x01] @ Ipv4Addr_octets ip @ to_be_bytes 2 (sa_port target)
          | V6 ip \<Rightarrow> [0x04] @ Ipv6Addr_octets ip @ to_be_bytes 2 (sa_port target)) @ payload)"

section \<open>Running a handshake\<close>

lemma read_network_port_eval:
  "ls_input s = to_be_bytes 2 port @ rest \<Longrightarrow> read_network_port s = (Got port, s\<lparr>ls_input := rest\<rparr>)"
  by (simp add: read_network_port_def to_be_bytes_2 io_ok_def io_then_def stream_read_exact_def)

lemma read_network_port_Got [io_simps]:
  "read_network_port s = (Got port, s') \<longleftrightarrow>
     (\<exists>rest. ls_input s = to_be_bytes 2 port @ rest \<and> s' = s\<lparr>ls_input := rest\<rparr>)"
proof
  assume "read_network_port s = (Got port, s')"
  then obtain bs rest where bs: "length bs = 2" "ls_input s = bs @ rest" "s' = s\<lparr>ls_input := rest\<rparr>"
    and port: "port = u16_from_be_bytes (bs ! 0) (bs ! 1)"
    by (auto simp: read_network_port_def io_simps)
  from bs(1) obtain a b where "bs = [a, b]" by (auto simp: numeral_2_eq_2 length_Suc_conv)
  with bs port show "\<exists>rest. ls_input s = to_be_bytes 2 port @ rest \<and> s' = s\<lparr>ls_input := rest\<rparr>" by simp
next
  assume "\<exists>rest. ls_input s = to_be_bytes 2 port @ rest \<and> s' = s\<lparr>ls_input := rest\<rparr>"
  then show "read_network_port s = (Got port, s')"
    using read_network_port_eval by blast
qed

section \<open>SOCKS5 addresses on the wire\<close>

fun wf_target :: "TcpForwardTarget \<Rightarrow> bool" where
  "wf_target (TargetIp addr) = True"
| "wf_target (TargetDomain domain port) = (domain \<noteq> [] \<and> length domain \<le> 255 \<and> utf8_string domain)"

definition socks5_address :: "TcpForwardTarget \<Rightarrow> bytes" where
  "socks5_address target =
     (case target of
        TargetIp addr \<Rightarrow>
          (case sa_ip addr of
             V4 ip \<Rightarrow> 0x01 # Ipv4Addr_octets ip
           | V6 ip \<Rightarrow> 0x04 # Ipv6Addr_octets ip) @ to_be_bytes 2 (sa_port addr)
      | TargetDomain domain port \<Rightarrow>
          0x03 # of_nat (length domain) # as_bytes domain @ to_be_bytes 2 port)"

lemma octets_from_be_bytes:
  "length bs = 4 \<Longrightarrow> Ipv4Addr_octets (from_be_bytes bs) = bs"
  "from_be_bytes (Ipv4Addr_octets ip) = ip"
  by (simp_all add: Ipv4Addr_octets_def to_be_bytes_from_be_bytes from_be_bytes_to_be_bytes)

lemma read_target_eval:
  "ls_input s = Ipv4Addr_octets ip @ to_be_bytes 2 port @ rest \<Longrightarrow>
   read_socks5_tcp_target 0x01 s = (Got (TargetIp \<lparr>sa_ip = V4 ip, sa_port = port\<rparr>), s\<lparr>ls_input := rest\<rparr>)"
  "ls_input s = Ipv6Addr_octets ip' @ to_be_bytes 2 port @ rest \<Longrightarrow>
   read_socks5_tcp_target 0x04 s = (Got (TargetIp \<lparr>sa_ip = V6 ip', sa_port = port\<rparr>), s\<lparr>ls_input := rest\<rparr>)"
  by (simp_all add: read_socks5_tcp_target_def io_eval(2) [OF io_eval(1)]
      io_eval(2) [OF read_network_port_eval] io_ok_def octets_from_be_bytes)

lemma read_domain_eval:
  assumes "domain \<noteq> []" and "length domain \<le> 255" and "utf8_string domain"
    and i: "ls_input s = of_nat (length domain) # as_bytes domain @ to_be_bytes 2 port @ rest"
  shows "read_socks5_tcp_target 0x03 s = (Got (TargetDomain domain port), s\<lparr>ls_input := rest\<rparr>)"
proof -
  have "unat (of_nat (length domain) :: byte) = length domain" using assms(2) by (rule unat_of_nat_u8)
  moreover from this have "(of_nat (length domain) :: byte) \<noteq> 0" using assms(1) by (auto simp: unat_eq_zero)
  moreover have "io_read_exact 1 s =
      (Got [of_nat (length domain)], s\<lparr>ls_input := as_bytes domain @ to_be_bytes 2 port @ rest\<rparr>)"
    using i by (intro io_eval) simp_all
  ultimately show ?thesis
    using assms(3)
    by (simp add: read_socks5_tcp_target_def io_eval(2) [OF io_eval(1)] io_eval(2)
        io_eval(2) [OF read_network_port_eval] io_ok_def io_result_def)
qed

lemma read_v4_target:
  assumes "read_socks5_tcp_target 0x01 s = (Got target, s')"
  shows "\<exists>ip port rest. target = TargetIp \<lparr>sa_ip = V4 ip, sa_port = port\<rparr>
        \<and> ls_input s = Ipv4Addr_octets ip @ to_be_bytes 2 port @ rest \<and> s' = s\<lparr>ls_input := rest\<rparr>"
proof -
  obtain bs port rest where "length bs = 4" "ls_input s = bs @ to_be_bytes 2 port @ rest"
    "s' = s\<lparr>ls_input := rest\<rparr>" "target = TargetIp \<lparr>sa_ip = V4 (from_be_bytes bs), sa_port = port\<rparr>"
    using assms by (auto simp: read_socks5_tcp_target_def io_simps)
  then show ?thesis by (intro exI [of _ "from_be_bytes bs"] exI [of _ port] exI [of _ rest]) (auto simp: octets_from_be_bytes)
qed

lemma read_v6_target:
  assumes "read_socks5_tcp_target 0x04 s = (Got target, s')"
  shows "\<exists>ip port rest. target = TargetIp \<lparr>sa_ip = V6 ip, sa_port = port\<rparr>
        \<and> ls_input s = Ipv6Addr_octets ip @ to_be_bytes 2 port @ rest \<and> s' = s\<lparr>ls_input := rest\<rparr>"
proof -
  obtain bs port rest where "length bs = 16" "ls_input s = bs @ to_be_bytes 2 port @ rest"
    "s' = s\<lparr>ls_input := rest\<rparr>" "target = TargetIp \<lparr>sa_ip = V6 (Ipv6Addr_from bs), sa_port = port\<rparr>"
    using assms by (auto simp: read_socks5_tcp_target_def io_simps)
  then show ?thesis by (intro exI [of _ "Ipv6Addr_from bs"] exI [of _ port] exI [of _ rest]) auto
qed

lemma read_domain_target:
  assumes "read_socks5_tcp_target 0x03 s = (Got target, s')"
  shows "\<exists>domain port rest. target = TargetDomain domain port \<and> wf_target target
        \<and> ls_input s = of_nat (length domain) # as_bytes domain @ to_be_bytes 2 port @ rest
        \<and> s' = s\<lparr>ls_input := rest\<rparr>"
proof -
  obtain len bs domain port rest where len: "length len = 1" "len ! 0 \<noteq> 0" "length bs = unat (len ! 0)"
    and d: "from_utf8 bs = Some domain" and t: "target = TargetDomain domain port"
    and i: "ls_input s = len @ bs @ to_be_bytes 2 port @ rest" "s' = s\<lparr>ls_input := rest\<rparr>"
    using assms by (auto simp: read_socks5_tcp_target_def io_simps ok_or_Ok split: if_splits)
  obtain b where b: "len = [b]" using len(1) by (auto simp: length_Suc_conv)
  have bs: "bs = as_bytes domain" "utf8_string domain" using d by (auto simp: from_utf8_Some)
  have n: "length domain = unat b" using len(3) b bs by simp
  then have "domain \<noteq> []" "length domain \<le> 255" "of_nat (length domain) = b"
    using len(2) b unat_byte_le [of b] by (auto simp: unat_eq_zero)
  with t i b bs show ?thesis by auto
qed

text \<open>A whole CONNECT request, as a client sends it.\<close>

definition socks5_connect_request :: "bytes \<Rightarrow> TcpForwardTarget \<Rightarrow> bytes" where
  "socks5_connect_request methods target =
     [0x05, of_nat (length methods)] @ methods @ [0x05, 0x01, 0x00] @ socks5_address target"

lemma read_socks5_greeting_Got:
  "read_socks5_greeting s = (Got u, s') \<longleftrightarrow>
     (\<exists>methods rest. methods \<noteq> [] \<and> length methods \<le> 255 \<and> 0x00 \<in> set methods
        \<and> ls_input s = [0x05, of_nat (length methods)] @ methods @ rest \<and> ls_write_error s = None
        \<and> s' = s\<lparr>ls_input := rest, ls_output := ls_output s @ [0x05, 0x00]\<rparr>)"
  (is "?l \<longleftrightarrow> ?r")
proof
  assume ?l
  then obtain g methods rest where g: "length g = 2" "g ! 0 = 0x05" "g ! 1 \<noteq> 0" "length methods = unat (g ! 1)"
    and m: "0x00 \<in> set methods" "ls_input s = g @ methods @ rest" "ls_write_error s = None"
    "s' = s\<lparr>ls_input := rest, ls_output := ls_output s @ [0x05, 0x00]\<rparr>"
    by (auto simp: read_socks5_greeting_def io_simps split: if_splits)
  obtain b where b: "g = [0x05, b]" using g(1,2) by (auto simp: numeral_2_eq_2 length_Suc_conv)
  have "methods \<noteq> []" "length methods \<le> 255" "of_nat (length methods) = b"
    using g(3,4) b unat_byte_le [of b] by (auto simp: unat_eq_zero)
  with m b show ?r by auto
next
  assume ?r
  then obtain methods rest where m: "methods \<noteq> []" "length methods \<le> 255" "0x00 \<in> set methods"
    "ls_write_error s = None" "s' = s\<lparr>ls_input := rest, ls_output := ls_output s @ [0x05, 0x00]\<rparr>"
    and i: "ls_input s = [0x05, of_nat (length methods)] @ methods @ rest" by blast
  have n: "unat (of_nat (length methods) :: byte) = length methods" using m(2) by (rule unat_of_nat_u8)
  then have "(of_nat (length methods) :: byte) \<noteq> 0" using m(1) by (auto simp: unat_eq_zero)
  moreover have "io_read_exact 2 s = (Got [0x05, of_nat (length methods)], s\<lparr>ls_input := methods @ rest\<rparr>)"
    using i by (intro io_eval) simp_all
  ultimately show ?l
    using m n by (simp add: read_socks5_greeting_def io_eval(2) [OF io_eval(1)] io_eval(2) stream_write_all_def)
qed

lemma read_socks5_request_header_Got:
  "read_socks5_request_header s = (Got h, s') \<longleftrightarrow>
     (\<exists>rest. ls_input s = [0x05, fst h, 0x00, snd h] @ rest \<and> s' = s\<lparr>ls_input := rest\<rparr>)"
  (is "?l \<longleftrightarrow> ?r")
proof
  assume ?l
  then obtain bs rest where "length bs = 4" "bs ! 0 = 0x05" "bs ! 2 = 0x00" "h = (bs ! 1, bs ! 3)"
    "ls_input s = bs @ rest" "s' = s\<lparr>ls_input := rest\<rparr>"
    by (auto simp: read_socks5_request_header_def io_simps split: if_splits)
  moreover from this(1) obtain b0 b1 b2 b3 where "bs = [b0, b1, b2, b3]"
    by (auto simp: numeral_eq_Suc length_Suc_conv)
  ultimately show ?r by auto
next
  assume ?r
  then obtain rest where "ls_input s = [0x05, fst h, 0x00, snd h] @ rest" "s' = s\<lparr>ls_input := rest\<rparr>" by blast
  moreover from this(1) have "io_read_exact 4 s = (Got [0x05, fst h, 0x00, snd h], s\<lparr>ls_input := rest\<rparr>)"
    by (rule io_eval) simp
  ultimately show ?l
    by (simp add: read_socks5_request_header_def io_eval(2) io_ok_def)
qed

lemma read_socks5_tcp_target_Got:
  "read_socks5_tcp_target atyp s = (Got target, s') \<longleftrightarrow>
     (\<exists>rest. wf_target target \<and> atyp # ls_input s = socks5_address target @ rest
        \<and> s' = s\<lparr>ls_input := rest\<rparr>)"
  (is "?l \<longleftrightarrow> ?r")
proof
  assume l: ?l
  then have "atyp = 0x01 \<or> atyp = 0x03 \<or> atyp = 0x04"
    by (auto simp: read_socks5_tcp_target_def io_simps split: if_splits)
  with l read_v4_target read_v6_target read_domain_target show ?r
    by (fastforce simp: socks5_address_def)
next
  assume ?r
  then obtain rest where t: "wf_target target" "atyp # ls_input s = socks5_address target @ rest"
    and s': "s' = s\<lparr>ls_input := rest\<rparr>" by blast
  show ?l
  proof (cases target)
    case (TargetIp addr)
    then show ?thesis using t s' read_target_eval [of s _ "sa_port addr" rest]
      by (cases "sa_ip addr"; cases addr) (simp_all add: socks5_address_def)
  next
    case (TargetDomain domain port)
    then show ?thesis using t s' read_domain_eval [of domain s port rest]
      by (simp add: socks5_address_def)
  qed
qed

lemma socks5_address_head:
  obtains atyp addr where "socks5_address target = atyp # addr" and "atyp \<in> {0x01, 0x03, 0x04}"
proof (cases target)
  case (TargetIp addr)
  then show thesis using that by (cases "sa_ip addr") (simp_all add: socks5_address_def)
qed (use that in \<open>simp add: socks5_address_def\<close>)

lemma read_socks5_connect_target_Got:
  "read_socks5_connect_target s = (Got target, s') \<longleftrightarrow>
     (\<exists>methods rest. 0x00 \<in> set methods \<and> length methods \<le> 255 \<and> wf_target target
        \<and> ls_input s = socks5_connect_request methods target @ rest \<and> ls_write_error s = None
        \<and> s' = s\<lparr>ls_input := rest, ls_output := ls_output s @ [0x05, 0x00]\<rparr>)"
  (is "?l \<longleftrightarrow> ?r")
proof
  assume ?l
  then obtain s1 s2 command atyp where g: "read_socks5_greeting s = (Got (), s1)"
    and h: "read_socks5_request_header s1 = (Got (command, atyp), s2)" and c: "command = 0x01"
    and t: "read_socks5_tcp_target atyp s2 = (Got target, s')"
    by (auto simp: read_socks5_connect_target_def validate_socks5_command_and_address_type_def io_simps
        split: if_splits)
  from g h t show ?r
    by (auto simp: read_socks5_greeting_Got read_socks5_request_header_Got read_socks5_tcp_target_Got
        socks5_connect_request_def c)
next
  assume ?r
  then obtain methods rest where m: "0x00 \<in> set methods" "length methods \<le> 255" "wf_target target"
    "ls_write_error s = None" "s' = s\<lparr>ls_input := rest, ls_output := ls_output s @ [0x05, 0x00]\<rparr>"
    and i: "ls_input s = socks5_connect_request methods target @ rest" by blast
  obtain atyp addr where a: "socks5_address target = atyp # addr" "atyp \<in> {0x01, 0x03, 0x04}"
    by (rule socks5_address_head)
  let ?s1 = "s\<lparr>ls_input := [0x05, 0x01, 0x00, atyp] @ addr @ rest, ls_output := ls_output s @ [0x05, 0x00]\<rparr>"
  have "read_socks5_greeting s = (Got (), ?s1)"
    unfolding read_socks5_greeting_Got using m i a
    by (rule_tac exI [of _ methods], rule_tac exI [of _ "[0x05, 0x01, 0x00, atyp] @ addr @ rest"])
       (auto simp: socks5_connect_request_def)
  moreover have "read_socks5_request_header ?s1 = (Got (0x01, atyp), ?s1\<lparr>ls_input := addr @ rest\<rparr>)"
    by (simp add: read_socks5_request_header_Got)
  moreover have "read_socks5_tcp_target atyp (?s1\<lparr>ls_input := addr @ rest\<rparr>) = (Got target, s')"
    unfolding read_socks5_tcp_target_Got using m a by simp
  ultimately show ?l
    using a(2)
    by (auto simp: read_socks5_connect_target_def validate_socks5_command_and_address_type_def
        io_eval(2) io_ok_def)
qed

text \<open>
  C18: the SOCKS5 handshake of the mixed listener accepts exactly the CONNECT requests of the
  protocol. It yields a target just when the stream starts with a greeting that offers the method
  without authentication and a CONNECT request for that target (an IPv4 or IPv6 address, or a domain
  of 1 to 255 bytes of UTF-8); then it has taken exactly the request off the stream, so bytes the
  program has already sent to the target are kept, and has answered with the chosen method only.
\<close>

theorem socks5_connect_exact:
  "read_socks5_connect_target s = (Got target, s') \<longleftrightarrow>
     (\<exists>methods rest. 0x00 \<in> set methods \<and> length methods \<le> 255 \<and> wf_target target
        \<and> ls_input s = socks5_connect_request methods target @ rest \<and> ls_write_error s = None
        \<and> s' = s\<lparr>ls_input := rest, ls_output := ls_output s @ [0x05, 0x00]\<rparr>)"
  by (rule read_socks5_connect_target_Got)

section \<open>UDP datagrams read back\<close>

lemma decode_socks5_v4:
  "decode_socks5_udp_datagram ([0, 0, 0, 0x01] @ Ipv4Addr_octets ip @ to_be_bytes 2 port @ payload) =
     Ok \<lparr>sd_target = TargetIp \<lparr>sa_ip = V4 ip, sa_port = port\<rparr>, sd_payload = payload\<rparr>"
proof -
  obtain a b c d where "Ipv4Addr_octets ip = [a, b, c, d]" "ip = Ipv4Addr_new a b c d"
    by (rule Ipv4Addr_octets_cases)
  then show ?thesis by (simp add: decode_socks5_udp_datagram_def to_be_bytes_2)
qed

lemma decode_socks5_v6:
  "decode_socks5_udp_datagram ([0, 0, 0, 0x04] @ Ipv6Addr_octets ip @ to_be_bytes 2 port @ payload) =
     Ok \<lparr>sd_target = TargetIp \<lparr>sa_ip = V6 ip, sa_port = port\<rparr>, sd_payload = payload\<rparr>"
proof -
  let ?d = "[0, 0, 0, 0x04] @ Ipv6Addr_octets ip @ to_be_bytes 2 port @ payload"
  have "slice 4 20 ?d = Ipv6Addr_octets ip" by (rule slice_exact) simp_all
  moreover have "?d ! 20 = ucast (drop_bit 8 port)" "?d ! 21 = ucast port" "drop 22 ?d = payload"
    by (simp_all add: nth_append to_be_bytes_2 nth_Cons')
  ultimately show ?thesis by (simp add: decode_socks5_udp_datagram_def)
qed

lemma decode_socks5_domain:
  assumes "domain \<noteq> []" and "length domain \<le> 255" and "utf8_string domain"
  shows "decode_socks5_udp_datagram
      ([0, 0, 0, 0x03, of_nat (length domain)] @ as_bytes domain @ to_be_bytes 2 port @ payload) =
     Ok \<lparr>sd_target = TargetDomain domain port, sd_payload = payload\<rparr>"
proof -
  let ?n = "length domain"
  let ?d = "[0, 0, 0, 0x03, of_nat ?n] @ as_bytes domain @ to_be_bytes 2 port @ payload"
  have n: "unat (of_nat ?n :: byte) = ?n" using assms(2) by (rule unat_of_nat_u8)
  have "slice 5 (5 + ?n) ?d = as_bytes domain" by (rule slice_exact) simp_all
  moreover have "?d ! (5 + ?n) = ucast (drop_bit 8 port)" "?d ! (5 + ?n + 1) = ucast port"
    by (simp_all add: nth_append to_be_bytes_2)
  moreover have "drop (5 + ?n + 2) ?d = payload"
    by (simp add: numeral_eq_Suc to_be_bytes_2)
  ultimately show ?thesis using assms n by (simp add: decode_socks5_udp_datagram_def)
qed

lemma decode_socks5_address:
  "wf_target target \<Longrightarrow>
   decode_socks5_udp_datagram ([0, 0, 0] @ socks5_address target @ payload) =
     Ok \<lparr>sd_target = target, sd_payload = payload\<rparr>"
proof (cases target)
  case (TargetIp addr)
  then show ?thesis
    using decode_socks5_v4 [of _ "sa_port addr" payload] decode_socks5_v6 [of _ "sa_port addr" payload]
    by (cases "sa_ip addr"; cases addr) (simp_all add: socks5_address_def)
next
  case (TargetDomain domain port)
  moreover assume "wf_target target"
  ultimately show ?thesis
    using decode_socks5_domain [of domain port payload] by (simp add: socks5_address_def)
qed

lemma split_head4:
  "4 \<le> length d \<Longrightarrow> d = [d ! 0, d ! 1, d ! 2, d ! 3] @ drop 4 d"
  by (auto simp: numeral_eq_Suc Suc_le_length_iff)

lemma split_port: "i + 2 \<le> length d \<Longrightarrow> drop i d = to_be_bytes 2 (u16_from_be_bytes (d ! i) (d ! (i + 1))) @ drop (i + 2) d"
  by (simp add: nth_drop_Cons [of i] nth_drop_Cons [of "Suc i"])

lemma decode_socks5_sound:
  assumes "decode_socks5_udp_datagram d = Ok r"
  shows "wf_target (sd_target r) \<and> d = [0, 0, 0] @ socks5_address (sd_target r) @ sd_payload r"
proof -
  have h: "4 \<le> length d" "d ! 0 = 0" "d ! 1 = 0" "d ! 2 = 0"
    using assms by (auto simp: decode_socks5_udp_datagram_def split: if_splits)
  have d: "d = [0, 0, 0, d ! 3] @ drop 4 d" using split_head4 [OF h(1)] h(2-4) by simp
  consider (v4) "d ! 3 = 0x01" | (domain) "d ! 3 = 0x03" | (v6) "d ! 3 = 0x04"
    using assms by (auto simp: decode_socks5_udp_datagram_def split: if_splits)
  then show ?thesis
  proof cases
    case v4
    then have l: "10 \<le> length d" and r: "r = \<lparr>sd_target = TargetIp
        \<lparr>sa_ip = V4 (Ipv4Addr_new (d ! 4) (d ! 5) (d ! 6) (d ! 7)), sa_port = u16_from_be_bytes (d ! 8) (d ! 9)\<rparr>,
        sd_payload = drop 10 d\<rparr>"
      using assms h by (auto simp: decode_socks5_udp_datagram_def split: if_splits)
    have "drop 4 d = [d ! 4, d ! 5, d ! 6, d ! 7] @ drop 8 d"
      using l by (simp add: nth_drop_Cons [of 4] nth_drop_Cons [of 5] nth_drop_Cons [of 6] nth_drop_Cons [of 7])
    then have "drop 4 d = [d ! 4, d ! 5, d ! 6, d ! 7] @ [d ! 8, d ! 9] @ drop 10 d"
      using split_port [of 8 d] l by simp
    note e = this
    show ?thesis by (intro conjI trans [OF d [unfolded e v4]]) (simp_all add: r socks5_address_def)
  next
    case v6
    then have l: "22 \<le> length d" and r: "r = \<lparr>sd_target = TargetIp
        \<lparr>sa_ip = V6 (Ipv6Addr_from (slice 4 20 d)), sa_port = u16_from_be_bytes (d ! 20) (d ! 21)\<rparr>,
        sd_payload = drop 22 d\<rparr>"
      using assms h by (auto simp: decode_socks5_udp_datagram_def split: if_splits)
    have "drop 4 d = slice 4 20 d @ [d ! 20, d ! 21] @ drop 22 d"
      using split_port [of 20 d] drop_slice [of 4 20 d] l by simp
    note e = this
    show ?thesis using l by (intro conjI trans [OF d [unfolded e v6]]) (simp_all add: r socks5_address_def)
  next
    case domain
    define n where "n = unat (d ! 4)"
    have l: "n \<noteq> 0" "5 + n + 2 \<le> length d" and u: "from_utf8 (slice 5 (5 + n) d) = Some (str_of_bytes (slice 5 (5 + n) d))"
      "utf8_valid (slice 5 (5 + n) d)"
      and r: "r = \<lparr>sd_target = TargetDomain (str_of_bytes (slice 5 (5 + n) d))
        (u16_from_be_bytes (d ! (5 + n)) (d ! (5 + n + 1))), sd_payload = drop (5 + n + 2) d\<rparr>"
      using assms h domain
      by (auto simp: decode_socks5_udp_datagram_def Let_def n_def result_simps ok_or_Ok from_utf8_def split: if_splits)
    have len: "length (slice 5 (5 + n) d) = n" and "n \<le> 255"
      using l(2) unat_byte_le [of "d ! 4"] by (simp_all add: n_def)
    then have w: "wf_target (sd_target r)"
      using l(1) u(2) by (auto simp: r utf8_string_def dest: arg_cong [of _ _ length])
    have "drop 4 d = d ! 4 # slice 5 (5 + n) d @ drop (5 + n) d"
      using l(2) drop_slice [of 5 "5 + n" d] by (simp add: nth_drop_Cons [of 4])
    then have "drop 4 d = of_nat n # slice 5 (5 + n) d @ [d ! (5 + n), d ! (5 + n + 1)] @ drop (5 + n + 2) d"
      using split_port [of "5 + n" d] l(2) by (simp add: n_def)
    note e = this
    show ?thesis
      using w len by (intro conjI trans [OF d [unfolded e domain]]) (simp_all add: r socks5_address_def)
  qed
qed

text \<open>
  C31: the SOCKS5 UDP format of the client. A datagram of a local program decodes just when it is an
  unfragmented SOCKS5 datagram for a well-formed target, and then to exactly that target and payload;
  and what the client encodes for a program is such a datagram, so the program reads back the sender
  and the payload.
\<close>

theorem socks5_udp_datagram_exact:
  "(decode_socks5_udp_datagram datagram = Ok request \<longleftrightarrow>
      wf_target (sd_target request)
      \<and> datagram = [0, 0, 0] @ socks5_address (sd_target request) @ sd_payload request)
   \<and> and_then (encode_socks5_udp_datagram sender payload) decode_socks5_udp_datagram =
       Ok \<lparr>sd_target = TargetIp sender, sd_payload = payload\<rparr>"
proof (rule conjI)
  show "decode_socks5_udp_datagram datagram = Ok request \<longleftrightarrow>
      wf_target (sd_target request)
      \<and> datagram = [0, 0, 0] @ socks5_address (sd_target request) @ sd_payload request"
    using decode_socks5_sound [of datagram request] decode_socks5_address [of "sd_target request" "sd_payload request"]
    by (cases request) auto
  have "encode_socks5_udp_datagram sender payload = Ok ([0, 0, 0] @ socks5_address (TargetIp sender) @ payload)"
    by (cases "sa_ip sender") (simp_all add: encode_socks5_udp_datagram_def socks5_address_def)
  then show "and_then (encode_socks5_udp_datagram sender payload) decode_socks5_udp_datagram =
      Ok \<lparr>sd_target = TargetIp sender, sd_payload = payload\<rparr>"
    using decode_socks5_address [of "TargetIp sender" payload] by simp
qed

section \<open>HTTP requests\<close>

lemma io_read_exact_1: "ls_input s = b # rest \<Longrightarrow> io_read_exact 1 s = (Got [b], s\<lparr>ls_input := rest\<rparr>)"
  by (simp add: stream_read_exact_def)

text \<open>A request head: it ends with the first empty line, within the limit.\<close>

definition http_head :: "bytes \<Rightarrow> bool" where
  "http_head head \<longleftrightarrow>
     ends_with_blank_line head \<and> length head \<le> HEAD_LIMIT
     \<and> list_all (\<lambda>k. \<not> ends_with_blank_line (take k head)) [0 ..< length head]"

lemma read_http_head_step:
  assumes h: "http_head head" and k: "k \<le> length head" and i: "ls_input s = drop k head @ rest"
  shows "read_http_head (take k head) s = (Got head, s\<lparr>ls_input := rest\<rparr>)"
  using k i
proof (induction "length head - k" arbitrary: k s)
  case 0
  then have "k = length head" by simp
  then show ?case
    using 0 h by (simp add: read_http_head.simps [of head] http_head_def)
next
  case (Suc n)
  then have k: "k < length head" by simp
  have lt: "\<not> HEAD_LIMIT \<le> k" and ne: "\<not> ends_with_blank_line (take k head)"
    using h k by (auto simp: http_head_def list_all_iff)
  have "ls_input s = head ! k # drop (Suc k) head @ rest"
    using Suc.prems(2) k by (simp add: nth_drop_Cons)
  then have r: "io_read_exact 1 s = (Got [head ! k], s\<lparr>ls_input := drop (Suc k) head @ rest\<rparr>)"
    by (rule io_read_exact_1)
  have "read_http_head (take k head) s = read_http_head (take k head @ [head ! k]) (s\<lparr>ls_input := drop (Suc k) head @ rest\<rparr>)"
    using ne lt k r by (subst read_http_head.simps) simp
  also have "take k head @ [head ! k] = take (Suc k) head" using k by (simp add: take_Suc_conv_app_nth)
  also have "read_http_head (take (Suc k) head) (s\<lparr>ls_input := drop (Suc k) head @ rest\<rparr>) = (Got head, s\<lparr>ls_input := rest\<rparr>)"
    using Suc.hyps(1) [of "Suc k" "s\<lparr>ls_input := drop (Suc k) head @ rest\<rparr>"] Suc.hyps(2) k by simp
  finally show ?case .
qed

text \<open>Words of visible ASCII characters.\<close>

definition visible :: "string \<Rightarrow> bool" where
  "visible s \<longleftrightarrow> (\<forall>c \<in> set s. 33 \<le> (of_char c :: nat) \<and> (of_char c :: nat) \<le> 126)"

lemma white_space_heads:
  "w \<in> set white_space \<Longrightarrow> \<exists>c cs. w = c # cs \<and> ((of_char c :: nat) \<le> 32 \<or> 126 < (of_char c :: nat))"
  by (auto simp: white_space_def)

lemma find_visible:
  assumes "33 \<le> (of_char c :: nat)" and "(of_char c :: nat) \<le> 126"
  shows "find (\<lambda>w. w \<noteq> [] \<and> starts_with (c # cs) w) white_space = None"
proof -
  have "\<not> (w \<noteq> [] \<and> starts_with (c # cs) w)" if "w \<in> set white_space" for w
    using white_space_heads [OF that] assms by (auto simp: starts_with_def)
  then show ?thesis by (auto simp: find_None_iff)
qed

lemma find_space: "find (\<lambda>w. w \<noteq> [] \<and> starts_with (CHR '' '' # cs) w) white_space = Some '' ''"
  by (simp add: white_space_def starts_with_def upt_rec char_of_def bit_0)

lemma pieces_space: "whitespace_pieces (CHR '' '' # s) = [] # whitespace_pieces s"
  by (simp add: whitespace_pieces.simps(2) find_space)

lemma pieces_visible:
  "visible w \<Longrightarrow> whitespace_pieces (w @ CHR '' '' # s) = w # whitespace_pieces s"
proof (induction w)
  case (Cons c w)
  then show ?case by (simp add: whitespace_pieces.simps(2) find_visible visible_def)
qed (simp add: pieces_space)

lemma pieces_visible_end: "visible w \<Longrightarrow> whitespace_pieces w = [w]"
proof (induction w)
  case (Cons c w)
  then show ?case by (simp add: whitespace_pieces.simps(2) find_visible visible_def)
qed simp

definition request_line :: "string \<Rightarrow> string \<Rightarrow> string" where
  "request_line target version = ''CONNECT '' @ target @ '' HTTP/'' @ version"

lemma visible_connect [simp]: "visible ''CONNECT''"
  by (simp add: visible_def)

lemma split_request_line:
  assumes "visible t" and "t \<noteq> []" and "visible v"
  shows "split_whitespace (request_line t v) = [''CONNECT'', t, ''HTTP/'' @ v]"
proof -
  have "visible (''HTTP/'' @ v)" using assms(3) by (simp add: visible_def)
  from pieces_visible_end [OF this] show ?thesis
    using assms pieces_visible [of "''CONNECT''" "t @ CHR '' '' # ''HTTP/'' @ v"]
      pieces_visible [of t "''HTTP/'' @ v"]
    by (simp add: split_whitespace_def request_line_def)
qed

lemma first_line_request_line:
  assumes "visible t" and "visible v"
  shows "first_line (request_line t v @ [CHR 0x0D, CHR 0x0A] @ headers) = request_line t v"
proof -
  have no: "CHR 0x0A \<notin> set w" if "visible w" for w
    using that by (auto simp: visible_def)
  have "c \<noteq> CHR 0x0A" if "c \<in> set (request_line t v @ [CHR 0x0D])" for c
    using that no [OF assms(1)] no [OF assms(2)] by (auto simp: request_line_def)
  then have "takeWhile (\<lambda>c. c \<noteq> CHR 0x0A) ((request_line t v @ [CHR 0x0D]) @ CHR 0x0A # headers) =
      request_line t v @ [CHR 0x0D]"
    by (subst takeWhile_append2) auto
  then show ?thesis by (simp add: first_line_def Let_def)
qed

lemma read_http_connect_target_eval:
  assumes "visible target_text" and "target_text \<noteq> []" and "visible version"
    and head: "head = as_bytes (request_line target_text version @ [CHR 0x0D, CHR 0x0A] @ headers)"
    and "http_head head" and "utf8_valid head" and "ls_input s = head @ rest"
  shows "read_http_connect_target s =
    ((case ip_or_domain target_text of Ok target \<Rightarrow> Got target | Err e \<Rightarrow> Refused e),
     s\<lparr>ls_input := rest\<rparr>)"
proof -
  have "read_http_head [] s = (Got head, s\<lparr>ls_input := rest\<rparr>)"
    using read_http_head_step [of head 0 s rest] assms by simp
  moreover have "from_utf8 head = Some (request_line target_text version @ [CHR 0x0D, CHR 0x0A] @ headers)"
    using assms(6) unfolding head from_utf8_def by (simp only: if_True str_of_bytes_as_bytes)
  then have "parse_http_connect head = ip_or_domain target_text"
    using assms(1-3) split_request_line [of target_text version]
      first_line_request_line [of target_text version headers]
    by (simp add: parse_http_connect_def parse_tcp_forward_target_def starts_with_def)
  ultimately show ?thesis
    by (simp add: read_http_connect_target_def io_eval(2) io_result_def io_ok_def io_err_def
        split: result.split)
qed

text \<open>
  C19: an HTTP CONNECT request whose head is valid UTF-8, ends within 8192 bytes and has a request
  line of the form \<open>CONNECT target HTTP/version\<close> is taken off the stream up to and including its
  first empty line, and nothing more: bytes the program sends early stay for the relay. The result is
  the parsed target, or the error for one that is no address and no domain with a port.
\<close>

theorem http_connect_exact:
  assumes "visible target_text" and "target_text \<noteq> []" and "visible version"
    and head: "head = as_bytes (request_line target_text version @ [CHR 0x0D, CHR 0x0A] @ headers)"
    and "http_head head" and "utf8_valid head" and "ls_input s = head @ rest"
  shows "read_http_connect_target s =
    ((case ip_or_domain target_text of Ok target \<Rightarrow> Got target | Err e \<Rightarrow> Refused e),
     s\<lparr>ls_input := rest\<rparr>)"
  using assms by (rule read_http_connect_target_eval)

definition demo_request :: LocalStream where
  "demo_request =
     \<lparr>ls_input = as_bytes (''CONNECT a:1 HTTP/1'' @ map char_of [13, 10, 13, 10 :: nat]) @ [7, 8],
      ls_end = LocalSilent, ls_output = [], ls_write_error = None\<rparr>"

lemma ip_or_domain_demo: "ip_or_domain ''a:1'' = Ok (TargetDomain ''a'' 1)"
  by (simp add: ip_or_domain_def parse_socket_addr_def read_socket_addr_def read_ipv4_addr_def read_octet_def
        read_number_def to_digit_def read_given_char_def split_domain_port_def rsplit_once_def starts_with_def
        parse_u16_def parse_unsigned_def numeral_3_eq_3)

theorem http_connect_exact_witness:
  "read_http_connect_target demo_request = (Got (TargetDomain ''a'' 1), demo_request\<lparr>ls_input := [7, 8]\<rparr>)"
proof -
  let ?head = "as_bytes (''CONNECT a:1 HTTP/1'' @ [CHR 0x0D, CHR 0x0A, CHR 0x0D, CHR 0x0A])"
  note ip_or_domain_demo
  moreover have "http_head ?head"
    by (simp add: http_head_def ends_with_blank_line_def HEAD_LIMIT_def as_bytes_def byte_of_char_def upt_rec)
  moreover have "utf8_valid ?head" by (simp add: as_bytes_def byte_of_char_def)
  moreover have "visible ''a:1''" "visible ''1''" by (simp_all add: visible_def)
  moreover have "ls_input demo_request = ?head @ [7, 8]" by (simp add: demo_request_def char_of_def bit_0)
  ultimately show ?thesis
    using http_connect_exact [of "''a:1''" "''1''" ?head "[CHR 0x0D, CHR 0x0A]" demo_request "[7, 8]"]
    by (simp add: request_line_def)
qed

end
