(* ===== verification/ClientRelay.thy ===== *)
theory ClientRelay
  imports ClientHandshake TcpRelay "HOL-Library.AList" "HOL-Library.Sublist"
begin

text \<open>
  The forwarding half of the client (\<^verbatim>\<open>zuicity-client/src/lib.rs\<close>): the shared dialer that keeps one
  authenticated QUIC connection, the proxy streams opened on it, the relay of a local TCP stream, and
  the TCP and UDP forwarders with their loops. Proved: a target accepted from a local program arrives
  at the server unchanged; a dead cached connection is replaced and a live one reused; a completed
  relay has copied both directions exactly; the UDP forwarder never mixes local peers. Two theorems
  record what stops a forwarder: a failed relay ends the TCP loop for everybody, and a target that
  does not answer blocks the UDP loop.
\<close>

section \<open>Configuration and the dialer\<close>

record ClientRuntimeConfig =
  crc_config :: ClientConfig
  crc_tls :: TlsPolicy
  crc_streams :: StreamPolicy

record QuicDialerParams =
  qd_server_addr :: string
  qd_server_name :: string
  qd_roots_pem :: bytes
  qd_allow_insecure :: bool
  qd_uuid :: Uuid
  qd_password :: bytes
  qd_policy :: QuicRuntimePolicy

definition quic_dialer_params :: "ClientRuntimeConfig \<Rightarrow> bytes \<Rightarrow> QuicDialerParams" where
  "quic_dialer_params runtime roots_pem =
     (let config = crc_config runtime in
      \<lparr>qd_server_addr = rc_server (cc_raw config),
       qd_server_name = tls_server_name config,
       qd_roots_pem = roots_pem,
       qd_allow_insecure = rc_allow_insecure (cc_raw config),
       qd_uuid = cc_uuid config,
       qd_password = as_bytes (rc_password (cc_raw config)),
       qd_policy = upstream_client\<lparr>streams := crc_streams runtime,
         congestion_controller :=
           from_config_name (map_option CongestionControl_as_str (cc_congestion_control config))\<rparr>\<rparr>)"

text \<open>
  Quinn and the network as a call meets them: binding an endpoint, connecting and authenticating,
  whether a connection has a close reason, and opening a bidirectional stream on it.
\<close>

record 'c DialNet =
  dn_bind :: "SocketAddr \<Rightarrow> QuicRuntimePolicy \<Rightarrow> TransportError option"
  dn_connect :: "QuicDialerParams \<Rightarrow> SocketAddr \<Rightarrow> ('c, TransportError) result"
  dn_closed :: "'c \<Rightarrow> bool"
  dn_open_bi :: "'c \<Rightarrow> (SendStream \<times> RecvStream, TransportError) result"

record 'c SharedQuicDialer =
  sd_params :: QuicDialerParams
  sd_cache :: "'c option"

definition SharedQuicDialer_new :: "QuicDialerParams \<Rightarrow> 'c SharedQuicDialer" where
  "SharedQuicDialer_new params = \<lparr>sd_params = params, sd_cache = None\<rparr>"

definition dial :: "'c DialNet \<Rightarrow> QuicDialerParams \<Rightarrow> ('c, ClientError) result" where
  "dial net params =
     and_then (parse_client_server_addr (qd_server_addr params)) (\<lambda>server_addr.
     and_then
       (case dn_bind net (client_dialer_bind_addr server_addr) (qd_policy params) of
          None \<Rightarrow> Ok ()
        | Some e \<Rightarrow> Err (ClientTransport e))
       (\<lambda>_. map_err ClientTransport (dn_connect net params server_addr)))"

definition get_connection ::
    "'c DialNet \<Rightarrow> 'c SharedQuicDialer \<Rightarrow> ('c, ClientError) result \<times> 'c SharedQuicDialer" where
  "get_connection net dialer =
     (case sd_cache dialer of
        Some cached \<Rightarrow>
          if \<not> dn_closed net cached then (Ok cached, dialer)
          else
            (case dial net (sd_params dialer) of
               Err e \<Rightarrow> (Err e, dialer\<lparr>sd_cache := None\<rparr>)
             | Ok connection \<Rightarrow> (Ok connection, dialer\<lparr>sd_cache := Some connection\<rparr>))
      | None \<Rightarrow>
          (case dial net (sd_params dialer) of
             Err e \<Rightarrow> (Err e, dialer)
           | Ok connection \<Rightarrow> (Ok connection, dialer\<lparr>sd_cache := Some connection\<rparr>)))"

definition invalidate :: "'c SharedQuicDialer \<Rightarrow> 'c SharedQuicDialer" where
  "invalidate dialer = dialer\<lparr>sd_cache := None\<rparr>"

section \<open>Proxy streams\<close>

record TcpProxyStream =
  ps_send :: SendStream
  ps_recv :: RecvStream

definition with_header ::
    "ProxyHeader \<Rightarrow> (SendStream \<times> RecvStream, TransportError) result \<Rightarrow> (TcpProxyStream, TransportError) result" where
  "with_header header open_bi =
     and_then open_bi (\<lambda>(send, recv).
     case open_tcp_proxy_stream_with_header send header of
       (Err e, _) \<Rightarrow> Err e
     | (Ok _, send) \<Rightarrow> Ok \<lparr>ps_send = send, ps_recv = recv\<rparr>)"

definition open_tcp_proxy_stream ::
    "(SendStream \<times> RecvStream, TransportError) result \<Rightarrow> IpAddr \<Rightarrow> u16
     \<Rightarrow> (TcpProxyStream, TransportError) result" where
  "open_tcp_proxy_stream open_bi address port = with_header (proxy_header_for_ip Tcp address port) open_bi"

definition open_tcp_proxy_domain_stream ::
    "(SendStream \<times> RecvStream, TransportError) result \<Rightarrow> string \<Rightarrow> u16
     \<Rightarrow> (TcpProxyStream, TransportError) result" where
  "open_tcp_proxy_domain_stream open_bi domain port =
     with_header (ProxyHeader_new Tcp (Domain (as_bytes domain)) port) open_bi"

record UdpOverStream =
  us_send :: SendStream
  us_recv :: RecvStream
  us_header :: OwnedProxyHeader

definition with_owned_header ::
    "OwnedProxyHeader \<Rightarrow> (SendStream \<times> RecvStream, TransportError) result \<Rightarrow> (UdpOverStream, TransportError) result" where
  "with_owned_header header open_bi =
     and_then open_bi (\<lambda>(send, recv).
     case write_proxy_header send header of
       (Err e, _) \<Rightarrow> Err e
     | (Ok _, send) \<Rightarrow> Ok \<lparr>us_send = send, us_recv = recv, us_header = header\<rparr>)"

definition open_udp_over_stream ::
    "(SendStream \<times> RecvStream, TransportError) result \<Rightarrow> IpAddr \<Rightarrow> u16
     \<Rightarrow> (UdpOverStream, TransportError) result" where
  "open_udp_over_stream open_bi address port = with_owned_header (from_ip Udp address port) open_bi"

definition open_udp_over_domain_stream ::
    "(SendStream \<times> RecvStream, TransportError) result \<Rightarrow> string \<Rightarrow> u16
     \<Rightarrow> (UdpOverStream, TransportError) result" where
  "open_udp_over_domain_stream open_bi domain port =
     with_owned_header \<lparr>oh_network = Udp, oh_address = OwnedDomain domain, oh_port = port\<rparr> open_bi"

text \<open>\<^verbatim>\<open>TcpForwarder::open_tcp_stream\<close> and the match of \<^verbatim>\<open>open_tcp_proxy_stream\<close> in the mixed listener.\<close>

definition open_tcp_stream ::
    "'c DialNet \<Rightarrow> TcpForwardTarget \<Rightarrow> 'c \<Rightarrow> (TcpProxyStream, ClientError) result" where
  "open_tcp_stream net remote_target connection =
     map_err ClientTransport
       (case remote_target of
          TargetIp addr \<Rightarrow> open_tcp_proxy_stream (dn_open_bi net connection) (sa_ip addr) (sa_port addr)
        | TargetDomain domain port \<Rightarrow>
            open_tcp_proxy_domain_stream (dn_open_bi net connection) domain port)"

definition open_udp_stream ::
    "'c DialNet \<Rightarrow> UdpForwardTarget \<Rightarrow> 'c \<Rightarrow> (UdpOverStream, ClientError) result" where
  "open_udp_stream net remote_target connection =
     map_err ClientTransport
       (case remote_target of
          TargetIp addr \<Rightarrow> open_udp_over_stream (dn_open_bi net connection) (sa_ip addr) (sa_port addr)
        | TargetDomain domain port \<Rightarrow>
            open_udp_over_domain_stream (dn_open_bi net connection) domain port)"

text \<open>
  \<^verbatim>\<open>open_tcp_stream_with_reconnect\<close> and \<^verbatim>\<open>open_udp_stream_with_reconnect\<close>: the network may have
  changed by the second try.
\<close>

definition open_with_reconnect ::
    "('c DialNet \<Rightarrow> 'c \<Rightarrow> ('s, ClientError) result) \<Rightarrow> 'c DialNet \<Rightarrow> 'c DialNet
     \<Rightarrow> 'c SharedQuicDialer \<Rightarrow> ('s, ClientError) result \<times> 'c SharedQuicDialer" where
  "open_with_reconnect open_on net net' dialer =
     (case get_connection net dialer of
        (Err e, dialer) \<Rightarrow> (Err e, dialer)
      | (Ok connection, dialer) \<Rightarrow>
          (case open_on net connection of
             Ok stream \<Rightarrow> (Ok stream, dialer)
           | Err error \<Rightarrow>
               (case get_connection net' (invalidate dialer) of
                  (Err e, dialer) \<Rightarrow> (Err e, dialer)
                | (Ok connection, dialer) \<Rightarrow> (map_err (\<lambda>_. error) (open_on net' connection), dialer))))"

definition open_tcp_stream_with_reconnect ::
    "TcpForwardTarget \<Rightarrow> 'c DialNet \<Rightarrow> 'c DialNet \<Rightarrow> 'c SharedQuicDialer
     \<Rightarrow> (TcpProxyStream, ClientError) result \<times> 'c SharedQuicDialer" where
  "open_tcp_stream_with_reconnect remote_target =
     open_with_reconnect (\<lambda>net. open_tcp_stream net remote_target)"

definition open_udp_stream_with_reconnect ::
    "UdpForwardTarget \<Rightarrow> 'c DialNet \<Rightarrow> 'c DialNet \<Rightarrow> 'c SharedQuicDialer
     \<Rightarrow> (UdpOverStream, ClientError) result \<times> 'c SharedQuicDialer" where
  "open_udp_stream_with_reconnect remote_target =
     open_with_reconnect (\<lambda>net. open_udp_stream net remote_target)"

text \<open>The mixed listener opens without a second try: a failure drops the cached connection.\<close>

definition mixed_open_tcp_proxy_stream ::
    "TcpForwardTarget \<Rightarrow> 'c DialNet \<Rightarrow> 'c SharedQuicDialer
     \<Rightarrow> (TcpProxyStream, ClientError) result \<times> 'c SharedQuicDialer" where
  "mixed_open_tcp_proxy_stream target net dialer =
     (case get_connection net dialer of
        (Err e, dialer) \<Rightarrow> (Err e, dialer)
      | (Ok connection, dialer) \<Rightarrow>
          (case open_tcp_stream net target connection of
             Ok stream \<Rightarrow> (Ok stream, dialer)
           | Err error \<Rightarrow> (Err error, invalidate dialer)))"

section \<open>The relay of a local TCP stream\<close>

text \<open>The client's copy loops have no stall timeout: they can also hang.\<close>

datatype copy_end = CopyDone u64 | CopyFailed IoError | CopyHangs

definition flush_copy :: "Writer \<Rightarrow> u64 \<Rightarrow> copy_end" where
  "flush_copy w copied = (case writer_flush w of Ok _ \<Rightarrow> CopyDone copied | Err e \<Rightarrow> CopyFailed e)"

fun relay_copy :: "Reader \<Rightarrow> Writer \<Rightarrow> u64 \<Rightarrow> copy_end \<times> Writer" where
  "relay_copy [] w copied = (flush_copy w copied, w)"
| "relay_copy (Err e # reads) w copied = (CopyFailed e, w)"
| "relay_copy (Ok buffer # reads) w copied =
     (if buffer = [] then (flush_copy w copied, w)
      else case write_all w buffer of
          (WriteDone, w) \<Rightarrow> relay_copy reads w (copied + of_nat (length buffer))
        | (WriteFailed e, w) \<Rightarrow> (CopyFailed e, w)
        | (WriteStalled, w) \<Rightarrow> (CopyHangs, w))"

text \<open>
  \<^verbatim>\<open>relay_copy_local_to_quic\<close> reads into one buffer while it writes the other; \<open>read_first\<close> says
  for each round whether the read ends before the write.
\<close>

function local_ahead_loop ::
    "bool list \<Rightarrow> bytes list \<Rightarrow> nat \<Rightarrow> nat \<Rightarrow> Reader \<Rightarrow> Writer \<Rightarrow> u64 \<Rightarrow> copy_end \<times> Writer" where
  "local_ahead_loop read_first buffers current current_len reader w copied =
     (if current_len = 0 then (flush_copy w copied, w)
      else
        (let next_buffer = 1 - current;
             (read, reader') = read_buf reader;
             read_result = (if read_first \<noteq> [] \<and> hd read_first then Some read else None)
         in case write_all w (take current_len (buffers ! current)) of
              (WriteFailed e, w) \<Rightarrow> (CopyFailed e, w)
            | (WriteStalled, w) \<Rightarrow> (CopyHangs, w)
            | (WriteDone, w) \<Rightarrow>
                (case (case read_result of Some result \<Rightarrow> result | None \<Rightarrow> read) of
                   Err e \<Rightarrow> (CopyFailed e, w)
                 | Ok data \<Rightarrow>
                     local_ahead_loop (tl read_first) (buffers[next_buffer := data]) next_buffer
                       (length data) reader' w (copied + of_nat current_len))))"
  by pat_completeness auto
termination by (relation "measure (\<lambda>(rf, bs, c, n, reader, w, k). length reader + (if n = 0 then 0 else 1))")
  (auto simp: read_buf_def split: list.splits if_splits)

declare local_ahead_loop.simps [simp del]

definition relay_copy_local_to_quic :: "bool list \<Rightarrow> Reader \<Rightarrow> Writer \<Rightarrow> copy_end \<times> Writer" where
  "relay_copy_local_to_quic read_first reader w =
     (case read_buf reader of
        (Err e, _) \<Rightarrow> (CopyFailed e, w)
      | (Ok data, reader) \<Rightarrow> local_ahead_loop read_first [data, []] 0 (length data) reader w 0)"

record TcpForwardReport =
  tf_local_peer :: SocketAddr
  tf_remote_target :: TcpForwardTarget
  tf_bytes_from_client :: u64
  tf_bytes_from_target :: u64

text \<open>
  A relay that is done leaves the writer of the local stream and that of the QUIC stream. When a
  direction fails, the other is dropped wherever it is.
\<close>

datatype relay_end = RelayDone TcpForwardReport Writer Writer | RelayFailed ClientError | RelayHangs

text \<open>The two directions, each with the step that closes its writer.\<close>

definition local_to_remote :: "bool list \<Rightarrow> Reader \<Rightarrow> Writer \<Rightarrow> (u64, ClientError) result option \<times> Writer" where
  "local_to_remote read_first local_read quic_send =
     (case relay_copy_local_to_quic read_first local_read quic_send of
        (CopyHangs, w) \<Rightarrow> (None, w)
      | (CopyFailed e, w) \<Rightarrow> (Some (Err (ClientIo e)), w)
      | (CopyDone n, w) \<Rightarrow>
          (case quic_finish w of
             (Err e, w) \<Rightarrow> (Some (Err (ClientTransport e)), w)
           | (Ok _, w) \<Rightarrow> (Some (Ok n), w)))"

definition remote_to_local :: "Reader \<Rightarrow> Writer \<Rightarrow> (u64, ClientError) result option \<times> Writer" where
  "remote_to_local quic_recv local_write =
     (case relay_copy quic_recv local_write 0 of
        (CopyHangs, w) \<Rightarrow> (None, w)
      | (CopyFailed e, w) \<Rightarrow> (Some (Err (ClientIo e)), w)
      | (CopyDone n, w) \<Rightarrow>
          (case writer_shutdown w of
             (Err e, w) \<Rightarrow> (Some (Err (ClientIo e)), w)
           | (Ok _, w) \<Rightarrow> (Some (Ok n), w)))"

text \<open>
  \<^verbatim>\<open>try_join!\<close> ends with the first error of a direction, or when both are done; \<open>client_first\<close> says
  which of two errors comes first. \<open>nodelay\<close> is the result of \<^verbatim>\<open>set_nodelay\<close>.
\<close>

definition relay_local_tcp_stream ::
    "(unit, IoError) result \<Rightarrow> bool list \<Rightarrow> bool \<Rightarrow> SocketAddr \<Rightarrow> TcpForwardTarget
     \<Rightarrow> Reader \<times> Writer \<Rightarrow> Writer \<times> Reader \<Rightarrow> relay_end" where
  "relay_local_tcp_stream nodelay read_first client_first local_peer remote_target local_stream quic_stream =
     (case (local_stream, quic_stream) of ((local_read, local_write), (quic_send, quic_recv)) \<Rightarrow>
      case nodelay of
        Err e \<Rightarrow> RelayFailed (ClientIo e)
      | Ok _ \<Rightarrow>
          (case (local_to_remote read_first local_read quic_send, remote_to_local quic_recv local_write) of
             ((Some (Ok bytes_from_client), quic_send), (Some (Ok bytes_from_target), local_write)) \<Rightarrow>
               RelayDone
                 \<lparr>tf_local_peer = local_peer, tf_remote_target = remote_target,
                  tf_bytes_from_client = bytes_from_client, tf_bytes_from_target = bytes_from_target\<rparr>
                 local_write quic_send
           | ((Some (Err e), _), (Some (Err e'), _)) \<Rightarrow> RelayFailed (if client_first then e else e')
           | ((Some (Err e), _), _) \<Rightarrow> RelayFailed e
           | (_, (Some (Err e), _)) \<Rightarrow> RelayFailed e
           | _ \<Rightarrow> RelayHangs))"

section \<open>The TCP forwarder\<close>

text \<open>
  What a local connection and the proxy stream opened for it do during the relay: \<open>ac_quic_replies\<close>
  are the replies the QUIC send half meets, \<open>ac_quic_reads\<close> what its receive half yields.
\<close>

record AcceptedLocal =
  ac_peer :: SocketAddr
  ac_reads :: Reader
  ac_writer :: Writer
  ac_nodelay :: "(unit, IoError) result"
  ac_read_first :: "bool list"
  ac_client_first :: bool
  ac_quic_replies :: "write_reply list"
  ac_quic_reads :: Reader

definition into_split :: "TcpProxyStream \<Rightarrow> write_reply list \<Rightarrow> Reader \<Rightarrow> Writer \<times> Reader" where
  "into_split stream replies reads =
     (\<lparr>w_out = written (ps_send stream), w_replies = replies, w_flush_error = None,
       w_shutdown_error = None, w_shutdown = finished (ps_send stream)\<rparr>, reads)"

definition relay_accepted :: "AcceptedLocal \<Rightarrow> TcpForwardTarget \<Rightarrow> TcpProxyStream \<Rightarrow> relay_end" where
  "relay_accepted local target stream =
     relay_local_tcp_stream (ac_nodelay local) (ac_read_first local) (ac_client_first local) (ac_peer local)
       target (ac_reads local, ac_writer local)
       (into_split stream (ac_quic_replies local) (ac_quic_reads local))"

record 'c TcpForwarder =
  tfw_remote_target :: TcpForwardTarget
  tfw_dialer :: "'c SharedQuicDialer"

text \<open>\<^verbatim>\<open>accept_one_ref\<close>, from the result of \<^verbatim>\<open>accept\<close> on.\<close>

definition accept_one_ref ::
    "'c DialNet \<Rightarrow> 'c DialNet \<Rightarrow> (AcceptedLocal, IoError) result \<Rightarrow> 'c TcpForwarder
     \<Rightarrow> relay_end \<times> 'c TcpForwarder" where
  "accept_one_ref net net' accepted forwarder =
     (case accepted of
        Err e \<Rightarrow> (RelayFailed (ClientIo e), forwarder)
      | Ok local \<Rightarrow>
          (case open_tcp_stream_with_reconnect (tfw_remote_target forwarder) net net' (tfw_dialer forwarder) of
             (Err e, dialer) \<Rightarrow> (RelayFailed e, forwarder\<lparr>tfw_dialer := dialer\<rparr>)
           | (Ok quic_stream, dialer) \<Rightarrow>
               (relay_accepted local (tfw_remote_target forwarder) quic_stream,
                forwarder\<lparr>tfw_dialer := dialer\<rparr>)))"

record TcpForwardLoopReport =
  tl_accepted_connections :: u64
  tl_completed_tcp_relays :: u64
  tl_bytes_from_client :: u64
  tl_bytes_from_target :: u64

definition TcpForwardLoopReport_default :: TcpForwardLoopReport where
  "TcpForwardLoopReport_default =
     \<lparr>tl_accepted_connections = 0, tl_completed_tcp_relays = 0, tl_bytes_from_client = 0,
      tl_bytes_from_target = 0\<rparr>"

definition record_tcp_forward :: "TcpForwardReport \<Rightarrow> TcpForwardLoopReport \<Rightarrow> TcpForwardLoopReport" where
  "record_tcp_forward relay report =
     report\<lparr>tl_accepted_connections := tl_accepted_connections report + 1,
       tl_completed_tcp_relays := tl_completed_tcp_relays report + 1,
       tl_bytes_from_client := tl_bytes_from_client report + tf_bytes_from_client relay,
       tl_bytes_from_target := tl_bytes_from_target report + tf_bytes_from_target relay\<rparr>"

text \<open>
  A round of the loop is one connection, with the network it meets, or the shutdown, which can also
  come while a relay waits. \<open>LoopWaits\<close>: the rounds are used up, or a relay hangs.
\<close>

datatype 'c forward_round =
    ForwardShutdown
  | ForwardConnection "'c DialNet" "'c DialNet" "(AcceptedLocal, IoError) result"

fun is_forward_shutdown :: "'c forward_round \<Rightarrow> bool" where
  "is_forward_shutdown ForwardShutdown = True"
| "is_forward_shutdown (ForwardConnection _ _ _) = False"

datatype 'r loop_end = LoopReturns "('r, ClientError) result" | LoopWaits 'r

fun run_tcp_forward_loop ::
    "'c forward_round list \<Rightarrow> 'c TcpForwarder \<Rightarrow> TcpForwardLoopReport \<Rightarrow> TcpForwardLoopReport loop_end" where
  "run_tcp_forward_loop [] forwarder report = LoopWaits report"
| "run_tcp_forward_loop (ForwardShutdown # rounds) forwarder report = LoopReturns (Ok report)"
| "run_tcp_forward_loop (ForwardConnection net net' accepted # rounds) forwarder report =
     (case accept_one_ref net net' accepted forwarder of
        (RelayFailed e, _) \<Rightarrow> LoopReturns (Err e)
      | (RelayHangs, _) \<Rightarrow>
          (if list_ex is_forward_shutdown rounds then LoopReturns (Ok report) else LoopWaits report)
      | (RelayDone relay _ _, forwarder) \<Rightarrow>
          run_tcp_forward_loop rounds forwarder (record_tcp_forward relay report))"

section \<open>The UDP forwarder\<close>

record UdpForwardAssociation =
  fa_stream :: UdpOverStream
  fa_last_used :: nat

text \<open>The hash map of associations, in the order an iteration over it has.\<close>

type_synonym UdpAssociations = "(SocketAddr \<times> UdpForwardAssociation) list"

record 'c UdpForwarder =
  ufw_remote_target :: UdpForwardTarget
  ufw_udp_idle_timeout :: nat
  ufw_dialer :: "'c SharedQuicDialer"

definition with_udp_idle_timeout :: "nat \<Rightarrow> 'c UdpForwarder \<Rightarrow> 'c UdpForwarder" where
  "with_udp_idle_timeout udp_idle_timeout forwarder =
     forwarder\<lparr>ufw_udp_idle_timeout :=
       if udp_idle_timeout = 0 then DEFAULT_NAT_TIMEOUT else udp_idle_timeout\<rparr>"

definition udp_cleanup_period :: "nat \<Rightarrow> nat" where
  "udp_cleanup_period timeout = (if timeout = 0 then 1 else min timeout (from_secs 1))"

definition udp_finish :: "UdpOverStream \<Rightarrow> (unit, ClientError) result" where
  "udp_finish stream = map_err ClientTransport (fst (send_finish (us_send stream)))"

fun finish_expired :: "SocketAddr list \<Rightarrow> UdpAssociations \<Rightarrow> (unit, ClientError) result \<times> UdpAssociations" where
  "finish_expired [] associations = (Ok (), associations)"
| "finish_expired (local_peer # expired) associations =
     (case map_of associations local_peer of
        None \<Rightarrow> finish_expired expired associations
      | Some association \<Rightarrow>
          (let associations = AList.delete local_peer associations in
           case udp_finish (fa_stream association) of
             Err e \<Rightarrow> (Err e, associations)
           | Ok _ \<Rightarrow> finish_expired expired associations))"

definition finish_idle_udp_associations ::
    "nat \<Rightarrow> nat \<Rightarrow> UdpAssociations \<Rightarrow> (unit, ClientError) result \<times> UdpAssociations" where
  "finish_idle_udp_associations now timeout associations =
     (if timeout = 0 then (Ok (), associations)
      else finish_expired
        (map fst (filter (\<lambda>(_, association). timeout \<le> now - fa_last_used association) associations))
        associations)"

fun finish_all_udp_associations :: "UdpAssociations \<Rightarrow> (unit, ClientError) result" where
  "finish_all_udp_associations [] = Ok ()"
| "finish_all_udp_associations ((_, association) # associations) =
     and_then (udp_finish (fa_stream association)) (\<lambda>_. finish_all_udp_associations associations)"

text \<open>
  What a received datagram meets: the network for opening a stream, the clock before and after,
  whether the rest of the receive stream arrives at all, and the result of \<^verbatim>\<open>send_to\<close>.
\<close>

record 'c udp_round =
  ur_net :: "'c DialNet"
  ur_net' :: "'c DialNet"
  ur_now :: nat
  ur_later :: nat
  ur_arrives :: bool
  ur_send_to :: "(unit, IoError) result"

definition open_udp_association ::
    "'c udp_round \<Rightarrow> 'c UdpForwarder
     \<Rightarrow> (UdpForwardAssociation, ClientError) result \<times> 'c UdpForwarder" where
  "open_udp_association r forwarder =
     (case open_udp_stream_with_reconnect (ufw_remote_target forwarder) (ur_net r) (ur_net' r)
        (ufw_dialer forwarder) of
        (Err e, dialer) \<Rightarrow> (Err e, forwarder\<lparr>ufw_dialer := dialer\<rparr>)
      | (Ok stream, dialer) \<Rightarrow>
          (Ok \<lparr>fa_stream = stream, fa_last_used = ur_now r\<rparr>, forwarder\<lparr>ufw_dialer := dialer\<rparr>))"

record UdpForwardReport =
  uf_local_peer :: SocketAddr
  uf_remote_target :: SocketAddr
  uf_bytes_from_client :: u64
  uf_bytes_from_target :: u64

text \<open>
  \<^verbatim>\<open>forward_payload_on_association\<close>; on success the payload handed to \<^verbatim>\<open>send_to\<close> comes with the
  report. \<open>None\<close>: it waits for a reply that never comes.
\<close>

definition forward_payload_on_association ::
    "'c udp_round \<Rightarrow> SocketAddr \<Rightarrow> bytes \<Rightarrow> UdpForwardAssociation
     \<Rightarrow> (UdpForwardReport \<times> bytes \<times> UdpForwardAssociation, ClientError) result option" where
  "forward_payload_on_association r local_peer payload association =
     (let stream = fa_stream association in
      case send_datagram (us_send stream) (us_header stream) payload of
        (Err e, _) \<Rightarrow> Some (Err (ClientTransport e))
      | (Ok _, send) \<Rightarrow>
          if \<not> ur_arrives r then None
          else Some
            (and_then (map_err ClientTransport (recv_datagram 65535 (us_recv stream))) (\<lambda>(response, recv).
             and_then (map_err ClientIo (ur_send_to r)) (\<lambda>_.
               Ok (\<lparr>uf_local_peer = local_peer, uf_remote_target = uod_target response,
                    uf_bytes_from_client = of_nat (length payload),
                    uf_bytes_from_target = of_nat (length (uod_payload response))\<rparr>,
                   uod_payload response,
                   \<lparr>fa_stream = stream\<lparr>us_send := send, us_recv := recv\<rparr>, fa_last_used = ur_later r\<rparr>)))))"

record UdpForwardLoopReport =
  ulr_received_datagrams :: u64
  ulr_completed_udp_relays :: u64
  ulr_bytes_from_client :: u64
  ulr_bytes_from_target :: u64

definition record_udp_forward :: "UdpForwardReport \<Rightarrow> UdpForwardLoopReport \<Rightarrow> UdpForwardLoopReport" where
  "record_udp_forward relay report =
     report\<lparr>ulr_received_datagrams := ulr_received_datagrams report + 1,
       ulr_completed_udp_relays := ulr_completed_udp_relays report + 1,
       ulr_bytes_from_client := ulr_bytes_from_client report + uf_bytes_from_client relay,
       ulr_bytes_from_target := ulr_bytes_from_target report + uf_bytes_from_target relay\<rparr>"

text \<open>The state of the loop; \<open>ul_replies\<close> is what it has sent on the local socket, and to whom.\<close>

record 'c UdpForwardLoop =
  ul_forwarder :: "'c UdpForwarder"
  ul_associations :: UdpAssociations
  ul_replies :: "(SocketAddr \<times> bytes) list"
  ul_report :: UdpForwardLoopReport

definition udp_forward_start :: "'c UdpForwarder \<Rightarrow> 'c UdpForwardLoop" where
  "udp_forward_start forwarder =
     \<lparr>ul_forwarder = forwarder, ul_associations = [], ul_replies = [],
      ul_report = \<lparr>ulr_received_datagrams = 0, ulr_completed_udp_relays = 0,
        ulr_bytes_from_client = 0, ulr_bytes_from_target = 0\<rparr>\<rparr>"

datatype 'c udp_forward_event =
    UdpShutdown
  | CleanupTick nat
  | RecvFrom "(bytes \<times> SocketAddr, IoError) result" "'c udp_round"

datatype 'c udp_loop_end =
    UdpRunning "'c UdpForwardLoop"
  | UdpReturned "(UdpForwardLoopReport, ClientError) result"
  | UdpBlocked "'c UdpForwardLoop"
  | UdpPanics string

definition forward_received ::
    "'c udp_round \<Rightarrow> bytes \<Rightarrow> SocketAddr \<Rightarrow> 'c UdpForwardLoop \<Rightarrow> 'c udp_loop_end" where
  "forward_received r payload local_peer s =
     (case map_of (ul_associations s) local_peer of
        None \<Rightarrow> UdpPanics ''UDP association was inserted''
      | Some association \<Rightarrow>
          (case forward_payload_on_association r local_peer payload association of
             None \<Rightarrow> UdpBlocked s
           | Some (Err e) \<Rightarrow> UdpReturned (Err e)
           | Some (Ok (relay, response, association)) \<Rightarrow>
               UdpRunning (s\<lparr>ul_associations := AList.update local_peer association (ul_associations s),
                 ul_replies := ul_replies s @ [(local_peer, response)],
                 ul_report := record_udp_forward relay (ul_report s)\<rparr>)))"

text \<open>
  One turn of \<^verbatim>\<open>run_udp_forward_loop_until\<close>. While it waits for a reply, nothing else is polled: a
  reply that never comes leaves the loop \<open>UdpBlocked\<close>, in the state before the payload was sent.
\<close>

fun udp_forward_step :: "'c udp_forward_event \<Rightarrow> 'c UdpForwardLoop \<Rightarrow> 'c udp_loop_end" where
  "udp_forward_step UdpShutdown s =
     UdpReturned (map_ok (\<lambda>_. ul_report s) (finish_all_udp_associations (ul_associations s)))"
| "udp_forward_step (CleanupTick now) s =
     (case finish_idle_udp_associations now (ufw_udp_idle_timeout (ul_forwarder s)) (ul_associations s) of
        (Err e, _) \<Rightarrow> UdpReturned (Err e)
      | (Ok _, associations) \<Rightarrow> UdpRunning (s\<lparr>ul_associations := associations\<rparr>))"
| "udp_forward_step (RecvFrom (Err e) r) s = UdpReturned (Err (ClientIo e))"
| "udp_forward_step (RecvFrom (Ok (received, local_peer)) r) s =
     (let payload = take 65535 received in
      case finish_idle_udp_associations (ur_now r) (ufw_udp_idle_timeout (ul_forwarder s))
             (ul_associations s) of
        (Err e, _) \<Rightarrow> UdpReturned (Err e)
      | (Ok _, associations) \<Rightarrow>
          (let s = s\<lparr>ul_associations := associations\<rparr> in
           if local_peer \<notin> fst ` set associations then
             (case open_udp_association r (ul_forwarder s) of
                (Err e, _) \<Rightarrow> UdpReturned (Err e)
              | (Ok association, forwarder) \<Rightarrow>
                  forward_received r payload local_peer
                    (s\<lparr>ul_forwarder := forwarder,
                       ul_associations := AList.update local_peer association associations\<rparr>))
           else forward_received r payload local_peer s))"

fun run_udp_forward_loop :: "'c udp_forward_event list \<Rightarrow> 'c UdpForwardLoop \<Rightarrow> 'c udp_loop_end" where
  "run_udp_forward_loop [] s = UdpRunning s"
| "run_udp_forward_loop (e # events) s =
     (case udp_forward_step e s of
        UdpRunning s \<Rightarrow> run_udp_forward_loop events s
      | final \<Rightarrow> final)"

section \<open>Facts on the dialer\<close>

lemma get_connection_cases:
  "get_connection net dialer = (r, dialer') \<Longrightarrow>
     sd_params dialer' = sd_params dialer
     \<and> (case r of
          Ok c \<Rightarrow> sd_cache dialer' = Some c
            \<and> (sd_cache dialer = Some c \<and> \<not> dn_closed net c \<or> dial net (sd_params dialer) = Ok c)
        | Err e \<Rightarrow> sd_cache dialer' = None \<and> dial net (sd_params dialer) = Err e)"
  by (auto simp: get_connection_def split: option.splits if_splits result.splits)


section \<open>Facts on proxy streams\<close>

fun forward_header :: "Network \<Rightarrow> TcpForwardTarget \<Rightarrow> OwnedProxyHeader" where
  "forward_header network (TargetIp addr) = from_ip network (sa_ip addr) (sa_port addr)"
| "forward_header network (TargetDomain domain port) =
     \<lparr>oh_network = network, oh_address = OwnedDomain domain, oh_port = port\<rparr>"

lemma as_borrowed_domain:
  "as_borrowed \<lparr>oh_network = n, oh_address = OwnedDomain d, oh_port = p\<rparr> = ProxyHeader_new n (Domain (as_bytes d)) p"
  by (simp add: as_borrowed_def)

lemma wf_owned_target: "wf_target t \<Longrightarrow> wf_owned_address (oh_address (forward_header n t))"
  by (cases t) simp_all

lemma write_header_Ok:
  "open_tcp_proxy_stream_with_header send (as_borrowed h) = (Ok u, send') \<longleftrightarrow>
     valid_header (as_borrowed h) \<and> write_error send = None
     \<and> send' = send\<lparr>written := written send @ header_bytes (as_borrowed h)\<rparr>"
  "write_proxy_header send h = (Ok u, send') \<longleftrightarrow>
     valid_header (as_borrowed h) \<and> write_error send = None
     \<and> send' = send\<lparr>written := written send @ header_bytes (as_borrowed h)\<rparr>"
  by (auto simp: open_tcp_proxy_stream_with_header_def write_proxy_header_def ProxyHeader_encode_to_eq
      send_write_all_Ok split: if_splits)

lemma with_header_Ok:
  "with_header (as_borrowed h) open_bi = Ok stream \<longleftrightarrow>
     (\<exists>send recv. open_bi = Ok (send, recv) \<and> write_error send = None \<and> valid_header (as_borrowed h)
        \<and> stream = \<lparr>ps_send = send\<lparr>written := written send @ header_bytes (as_borrowed h)\<rparr>, ps_recv = recv\<rparr>)"
proof (cases open_bi)
  case (Ok pair)
  obtain send recv where p: "pair = (send, recv)" by (cases pair)
  obtain r send' where w: "open_tcp_proxy_stream_with_header send (as_borrowed h) = (r, send')" by fastforce
  show ?thesis
    using write_header_Ok(1) [of send h "()" send']
      write_header_Ok(1) [of send h "()" "send\<lparr>written := written send @ header_bytes (as_borrowed h)\<rparr>"]
    by (cases r) (auto simp: with_header_def Ok p w)
qed (simp add: with_header_def)

lemma with_owned_header_Ok:
  "with_owned_header h open_bi = Ok stream \<longleftrightarrow>
     (\<exists>send recv. open_bi = Ok (send, recv) \<and> write_error send = None \<and> valid_header (as_borrowed h)
        \<and> stream = \<lparr>us_send = send\<lparr>written := written send @ header_bytes (as_borrowed h)\<rparr>, us_recv = recv,
                    us_header = h\<rparr>)"
proof (cases open_bi)
  case (Ok pair)
  obtain send recv where p: "pair = (send, recv)" by (cases pair)
  obtain r send' where w: "write_proxy_header send h = (r, send')" by fastforce
  show ?thesis
    using write_header_Ok(2) [of send h "()" send']
      write_header_Ok(2) [of send h "()" "send\<lparr>written := written send @ header_bytes (as_borrowed h)\<rparr>"]
    by (cases r) (auto simp: with_owned_header_def Ok p w)
qed (simp add: with_owned_header_def)

lemma open_tcp_stream_Ok:
  "open_tcp_stream net t c = Ok stream \<longleftrightarrow>
     (\<exists>send recv. dn_open_bi net c = Ok (send, recv) \<and> write_error send = None
        \<and> valid_header (as_borrowed (forward_header Tcp t))
        \<and> stream = \<lparr>ps_send = send\<lparr>written := written send @ header_bytes (as_borrowed (forward_header Tcp t))\<rparr>,
                    ps_recv = recv\<rparr>)"
  by (cases t)
     (simp_all add: open_tcp_stream_def open_tcp_proxy_stream_def open_tcp_proxy_domain_stream_def
        result_simps as_borrowed_from_ip [symmetric] as_borrowed_domain [symmetric] with_header_Ok)

lemma open_udp_stream_Ok:
  "open_udp_stream net t c = Ok stream \<longleftrightarrow>
     (\<exists>send recv. dn_open_bi net c = Ok (send, recv) \<and> write_error send = None
        \<and> valid_header (as_borrowed (forward_header Udp t))
        \<and> stream = \<lparr>us_send = send\<lparr>written := written send @ header_bytes (as_borrowed (forward_header Udp t))\<rparr>,
                    us_recv = recv, us_header = forward_header Udp t\<rparr>)"
  by (cases t)
     (simp_all add: open_udp_stream_def open_udp_over_stream_def open_udp_over_domain_stream_def
        result_simps with_owned_header_Ok)

lemma open_with_reconnect_Ok:
  "open_with_reconnect open_on net net' dialer = (Ok stream, dialer') \<Longrightarrow>
     \<exists>c. open_on net c = Ok stream \<or> open_on net' c = Ok stream"
  by (auto simp: open_with_reconnect_def result_simps split: prod.splits result.splits)

lemma server_reads_target:
  "wf_target t \<Longrightarrow> valid_header (as_borrowed (forward_header n t)) \<Longrightarrow>
     read_proxy_header_prefix (header_bytes (as_borrowed (forward_header n t)) @ rest, e)
       = Ok ((forward_header n t, []), rest, e)"
  by (simp add: read_proxy_header_prefix_Ok wf_owned_target)

section \<open>Facts on the copy loops\<close>

lemma write_all_done: "write_all w b = (WriteDone, w') \<Longrightarrow> same_controls w w' \<and> w_out w' = w_out w @ b"
  using write_all_taken [of w b WriteDone w'] by auto

lemma flush_copy_done: "flush_copy w k = CopyDone n \<longleftrightarrow> w_flush_error w = None \<and> n = k"
  by (auto simp: flush_copy_def writer_flush_def split: option.splits)

lemma relay_copy_done:
  "relay_copy reads w k = (CopyDone n, w') \<Longrightarrow>
     \<exists>d. read_to_end reads = Some d \<and> w_out w' = w_out w @ d \<and> n = k + of_nat (length d) \<and> same_controls w w'"
proof (induction reads w k rule: relay_copy.induct)
  case (3 b reads w k)
  show ?case
  proof (cases "b = []")
    case True
    with 3(2) show ?thesis by (auto simp: flush_copy_done)
  next
    case False
    with 3(2) obtain w1 where w1: "write_all w b = (WriteDone, w1)"
      and r: "relay_copy reads w1 (k + of_nat (length b)) = (CopyDone n, w')"
      by (auto split: prod.splits write_end.splits)
    from 3(1) [OF False w1 [symmetric] refl r] write_all_done [OF w1] False show ?thesis
      by (auto simp: add.assoc)
  qed
qed (auto simp: flush_copy_done)

lemma local_ahead_loop_done [simp]:
  "local_ahead_loop read_first buffers current 0 reader w copied = (flush_copy w copied, w)"
  by (simp add: local_ahead_loop.simps)

lemma local_ahead_loop_eq:
  "length buffers = 2 \<Longrightarrow> current < 2 \<Longrightarrow> current_len = length (buffers ! current) \<Longrightarrow>
     local_ahead_loop read_first buffers current current_len reader w copied =
       relay_copy (Ok (buffers ! current) # reader) w copied"
proof (induction read_first buffers current current_len reader w copied rule: local_ahead_loop.induct)
  case (1 read_first buffers current current_len reader w copied)
  show ?case
  proof (cases "current_len = 0")
    case True
    with 1 show ?thesis by (simp add: local_ahead_loop.simps)
  next
    case False
    obtain r w1 where wr: "write_all w (buffers ! current) = (r, w1)" by fastforce
    obtain read reader' where read: "read_buf reader = (read, reader')" by fastforce
    have next_eq: "relay_copy reader w' k = relay_copy (read # reader') w' k" for w' k
      using read by (auto simp: read_buf_def split: list.splits)
    have sel: "(case if P then Some read else None of Some result \<Rightarrow> result | None \<Rightarrow> read) = read" for P
      by simp
    have later: "local_ahead_loop (tl read_first) (buffers[1 - current := data]) (1 - current) (length data) reader' w1
        (copied + of_nat current_len) = relay_copy (Ok data # reader') w1 (copied + of_nat current_len)"
      if "r = WriteDone" "read = Ok data" for data
    proof -
      have "(WriteDone, w1) = write_all w (take current_len (buffers ! current))"
        using wr that(1) 1(4) by simp
      from 1(1) [OF False refl refl read [symmetric] refl this refl, of data] that 1(2,3) show ?thesis
        by (simp add: sel nth_list_update)
    qed
    show ?thesis
      using 1(2,3,4) False wr read later next_eq
      by (cases r; cases read) (simp_all add: local_ahead_loop.simps [of read_first] Let_def)
  qed
qed

lemma relay_copy_local_to_quic_eq: "relay_copy_local_to_quic read_first reader w = relay_copy reader w 0"
proof (cases reader)
  case Nil
  then show ?thesis by (simp add: relay_copy_local_to_quic_def read_buf_def local_ahead_loop.simps)
next
  case (Cons r rs)
  then show ?thesis
    by (cases r) (simp_all add: relay_copy_local_to_quic_def read_buf_def local_ahead_loop_eq)
qed

lemma relay_local_tcp_stream_done:
  assumes "relay_local_tcp_stream nodelay read_first client_first peer target (local_read, local_write)
      (quic_send, quic_recv) = RelayDone report local_write' quic_send'"
  shows "\<exists>up down. read_to_end local_read = Some up \<and> read_to_end quic_recv = Some down
     \<and> w_out quic_send' = w_out quic_send @ up \<and> w_shutdown quic_send'
     \<and> w_out local_write' = w_out local_write @ down \<and> w_shutdown local_write'
     \<and> report = \<lparr>tf_local_peer = peer, tf_remote_target = target,
         tf_bytes_from_client = of_nat (length up), tf_bytes_from_target = of_nat (length down)\<rparr>"
proof -
  from assms obtain n m where u: "local_to_remote read_first local_read quic_send = (Some (Ok n), quic_send')"
    and d: "remote_to_local quic_recv local_write = (Some (Ok m), local_write')"
    and r: "report = \<lparr>tf_local_peer = peer, tf_remote_target = target,
         tf_bytes_from_client = n, tf_bytes_from_target = m\<rparr>"
    by (auto simp: relay_local_tcp_stream_def split: result.splits option.splits prod.splits)
  from u obtain w where w: "relay_copy local_read quic_send 0 = (CopyDone n, w)"
    and qw: "quic_send' = w\<lparr>w_shutdown := True\<rparr>"
    by (auto simp: local_to_remote_def relay_copy_local_to_quic_eq quic_finish_def
        split: prod.splits copy_end.splits if_splits)
  from d obtain w2 where w2: "relay_copy quic_recv local_write 0 = (CopyDone m, w2)"
    and lw: "local_write' = w2\<lparr>w_shutdown := True\<rparr>"
    by (auto simp: remote_to_local_def writer_shutdown_def
        split: prod.splits copy_end.splits option.splits)
  from relay_copy_done [OF w] relay_copy_done [OF w2] show ?thesis by (auto simp: qw lw r)
qed

section \<open>Facts on the UDP forwarder\<close>

lemma send_datagram_Ok:
  assumes "send_datagram send h payload = (Ok u, send')"
  shows "write_error send = None
     \<and> send' = send\<lparr>written := written send @ udp_frame_bytes (as_borrowed h, payload)\<rparr>"
  using assms
  by (auto simp: send_datagram_def encode_udp_datagram_eq udp_frame_bytes_def send_write_all_Ok split: if_splits)

lemma recv_datagram_Ok:
  assumes "recv_datagram limit recv = Ok (d, recv')"
  shows "\<exists>frame :: UdpFrame. uod_payload d = uf_payload frame
     \<and> fst recv = udp_frame_bytes (as_borrowed (uf_header frame), uf_payload frame) @ fst recv'
     \<and> snd recv' = snd recv"
proof -
  from assms obtain frame :: UdpFrame where "read_udp_datagram_frame recv = Ok (frame, recv')" "uod_payload d = uf_payload frame"
    by (auto simp: recv_datagram_def result_simps split: if_splits)
  then show ?thesis by (intro exI [of _ frame]) (simp add: read_udp_datagram_frame_Ok)
qed

lemma finish_expired_submap: "finish_expired expired associations = (r, associations') \<Longrightarrow>
    map_of associations' \<subseteq>\<^sub>m map_of associations"
proof (induction expired associations rule: finish_expired.induct)
  case (2 local_peer expired associations)
  have d: "map_of (AList.delete local_peer associations) \<subseteq>\<^sub>m map_of associations"
    by (simp add: delete_conv' map_le_def)
  show ?case
    using 2 d map_le_trans [OF _ d]
    by (auto simp: Let_def split: option.splits result.splits)
qed simp


lemma finish_idle_submap: "finish_idle_udp_associations now timeout associations = (r, associations') \<Longrightarrow>
    map_of associations' \<subseteq>\<^sub>m map_of associations"
  using finish_expired_submap by (auto simp: finish_idle_udp_associations_def split: if_splits)

section \<open>What the streams of the UDP forwarder carry\<close>

fun received_from :: "SocketAddr \<Rightarrow> 'c udp_forward_event list \<Rightarrow> bytes list" where
  "received_from peer [] = []"
| "received_from peer (RecvFrom (Ok (received, local_peer)) r # events) =
     (if local_peer = peer then take 65535 received # received_from peer events
      else received_from peer events)"
| "received_from peer (_ # events) = received_from peer events"

definition replies_to :: "SocketAddr \<Rightarrow> (SocketAddr \<times> bytes) list \<Rightarrow> bytes list" where
  "replies_to peer replies = map snd (filter (\<lambda>(p, _). p = peer) replies)"

fun event_nets :: "'c udp_forward_event \<Rightarrow> 'c DialNet list" where
  "event_nets (RecvFrom received r) = [ur_net r, ur_net' r]"
| "event_nets _ = []"

definition opened_by :: "'c DialNet list \<Rightarrow> SendStream \<Rightarrow> RecvStream \<Rightarrow> bool" where
  "opened_by nets send recv \<longleftrightarrow> (\<exists>net c. net \<in> set nets \<and> dn_open_bi net c = Ok (send, recv))"

definition frames_bytes :: "UdpFrame list \<Rightarrow> bytes" where
  "frames_bytes frames = concat (map (\<lambda>f. udp_frame_bytes (as_borrowed (uf_header f), uf_payload f)) frames)"

definition payload_frames :: "OwnedProxyHeader \<Rightarrow> bytes list \<Rightarrow> UdpFrame list" where
  "payload_frames header payloads = map (\<lambda>p. \<lparr>uf_header = header, uf_payload = p\<rparr>) payloads"

text \<open>
  The stream of a peer was opened by the forwarder for its target, has carried the header, then one
  frame for each of the last datagrams of that peer, and the replies it yielded are the last ones
  that were sent to that peer.
\<close>

definition carries ::
    "'c DialNet list \<Rightarrow> UdpForwardTarget \<Rightarrow> bytes list \<Rightarrow> bytes list \<Rightarrow> UdpOverStream \<Rightarrow> bool" where
  "carries nets target received replies stream \<longleftrightarrow>
     (\<exists>payloads frames send recv. opened_by nets send recv
        \<and> suffix payloads received \<and> suffix (map uf_payload frames) replies
        \<and> length frames = length payloads
        \<and> us_header stream = forward_header Udp target
        \<and> us_send stream = send\<lparr>written := written send @ header_bytes (as_borrowed (forward_header Udp target))
             @ frames_bytes (payload_frames (forward_header Udp target) payloads)\<rparr>
        \<and> fst recv = frames_bytes frames @ fst (us_recv stream) \<and> snd recv = snd (us_recv stream))"


lemma received_from_snoc:
  "received_from peer (events @ [e]) = received_from peer events @ received_from peer [e]"
  by (induction peer events rule: received_from.induct) simp_all

lemma carries_mono:
  "carries nets target received replies stream \<Longrightarrow> carries (nets @ nets') target received replies stream"
  unfolding carries_def opened_by_def by fastforce

lemma carries_opened:
  assumes "open_udp_stream_with_reconnect target net net' dialer = (Ok stream, dialer')"
  shows "carries (nets @ [net, net']) target received replies stream"
proof -
  from open_with_reconnect_Ok [OF assms [unfolded open_udp_stream_with_reconnect_def]]
  obtain n c where n: "n = net \<or> n = net'" and "open_udp_stream n target c = Ok stream" by blast
  then obtain send recv where o: "dn_open_bi n c = Ok (send, recv)"
    and st: "stream = \<lparr>us_send = send\<lparr>written := written send @ header_bytes (as_borrowed (forward_header Udp target))\<rparr>,
                    us_recv = recv, us_header = forward_header Udp target\<rparr>"
    by (auto simp: open_udp_stream_Ok)
  from n o have "opened_by (nets @ [net, net']) send recv" by (auto simp: opened_by_def)
  then show ?thesis
    unfolding carries_def
    by (rule_tac exI [of _ "[]"], rule_tac exI [of _ "[]"], rule_tac exI [of _ send], rule_tac exI [of _ recv])
       (simp add: st frames_bytes_def payload_frames_def)
qed

lemma carries_forwarded:
  assumes "carries nets target received replies (fa_stream a)"
    and "forward_payload_on_association r peer payload a = Some (Ok (relay, response, a'))"
  shows "carries nets target (received @ [payload]) (replies @ [response]) (fa_stream a')"
proof -
  from assms(2) obtain send recv d where send: "send_datagram (us_send (fa_stream a)) (us_header (fa_stream a)) payload = (Ok (), send)"
    and recv: "recv_datagram 65535 (us_recv (fa_stream a)) = Ok (d, recv)" and response: "response = uod_payload d"
    and a': "fa_stream a' = fa_stream a\<lparr>us_send := send, us_recv := recv\<rparr>"
    by (auto simp: forward_payload_on_association_def Let_def result_simps split: prod.splits result.splits if_splits)
  from recv_datagram_Ok [OF recv] obtain frame :: UdpFrame where f: "response = uf_payload frame"
    "fst (us_recv (fa_stream a)) = udp_frame_bytes (as_borrowed (uf_header frame), uf_payload frame) @ fst recv"
    "snd recv = snd (us_recv (fa_stream a))" using response by auto
  from assms(1) obtain ps fs s0 r0 where c: "opened_by nets s0 r0" "suffix ps received"
    "suffix (map uf_payload fs) replies" "length fs = length ps"
    "us_header (fa_stream a) = forward_header Udp target"
    "us_send (fa_stream a) = s0\<lparr>written := written s0 @ header_bytes (as_borrowed (forward_header Udp target))
             @ frames_bytes (payload_frames (forward_header Udp target) ps)\<rparr>"
    "fst r0 = frames_bytes fs @ fst (us_recv (fa_stream a))" "snd r0 = snd (us_recv (fa_stream a))"
    unfolding carries_def by blast
  show ?thesis
    unfolding carries_def
    using c f send_datagram_Ok [OF send]
    by (rule_tac exI [of _ "ps @ [payload]"], rule_tac exI [of _ "fs @ [frame]"], rule_tac exI [of _ s0],
        rule_tac exI [of _ r0]) (simp add: a' frames_bytes_def payload_frames_def)
qed

definition forward_inv :: "UdpForwardTarget \<Rightarrow> 'c udp_forward_event list \<Rightarrow> 'c UdpForwardLoop \<Rightarrow> bool" where
  "forward_inv target events s \<longleftrightarrow> ufw_remote_target (ul_forwarder s) = target
     \<and> (\<forall>peer a. map_of (ul_associations s) peer = Some a \<longrightarrow>
          carries (concat (map event_nets events)) target (received_from peer events)
            (replies_to peer (ul_replies s)) (fa_stream a))"

lemma forward_received_inv:
  assumes "forward_received r payload peer s = UdpRunning s'"
    and "ufw_remote_target (ul_forwarder s) = target"
    and "\<And>p a. map_of (ul_associations s) p = Some a \<Longrightarrow>
          carries nets target (received_from p events) (replies_to p (ul_replies s)) (fa_stream a)"
  shows "ufw_remote_target (ul_forwarder s') = target
     \<and> (\<forall>p a. map_of (ul_associations s') p = Some a \<longrightarrow>
          carries nets target (received_from p events @ (if p = peer then [payload] else []))
            (replies_to p (ul_replies s')) (fa_stream a))"
proof -
  from assms(1) obtain a relay response a' where a: "map_of (ul_associations s) peer = Some a"
    and f: "forward_payload_on_association r peer payload a = Some (Ok (relay, response, a'))"
    and s': "s' = s\<lparr>ul_associations := AList.update peer a' (ul_associations s),
                 ul_replies := ul_replies s @ [(peer, response)],
                 ul_report := record_udp_forward relay (ul_report s)\<rparr>"
    by (auto simp: forward_received_def split: option.splits result.splits)
  from carries_forwarded [OF assms(3) [OF a] f] assms(2,3) show ?thesis
    by (auto simp: s' update_conv' replies_to_def)
qed

lemma forward_inv_step:
  assumes "forward_inv target events s" and "udp_forward_step e s = UdpRunning s'"
  shows "forward_inv target (events @ [e]) s'"
proof (cases e)
  case UdpShutdown
  with assms(2) show ?thesis by simp
next
  case (CleanupTick now)
  with assms show ?thesis
    by (auto simp: forward_inv_def received_from_snoc map_le_def dom_def
        split: prod.splits result.splits dest!: finish_idle_submap)
next
  case (RecvFrom received r)
  with assms(2) obtain data peer where received: "received = Ok (data, peer)"
    by (cases received) auto
  let ?nets = "concat (map event_nets events) @ [ur_net r, ur_net' r]"
  obtain associations where fin: "finish_idle_udp_associations (ur_now r) (ufw_udp_idle_timeout (ul_forwarder s))
      (ul_associations s) = (Ok (), associations)"
    using assms(2) by (auto simp: RecvFrom received Let_def split: prod.splits result.splits)
  have old: "carries ?nets target (received_from p events) (replies_to p (ul_replies s)) (fa_stream a)"
    if "map_of associations p = Some a" for p a
  proof -
    from that finish_idle_submap [OF fin] have "map_of (ul_associations s) p = Some a"
      by (metis map_le_def domI)
    with assms(1) show ?thesis by (auto simp: forward_inv_def intro!: carries_mono)
  qed
  obtain s1 where s1: "forward_received r (take 65535 data) peer s1 = UdpRunning s'"
    "ul_replies s1 = ul_replies s" "ufw_remote_target (ul_forwarder s1) = target"
    and c1: "\<And>p a. map_of (ul_associations s1) p = Some a \<Longrightarrow>
      carries ?nets target (received_from p events) (replies_to p (ul_replies s1)) (fa_stream a)"
  proof (cases "peer \<in> fst ` set associations")
    case True
    with assms fin old that [of "s\<lparr>ul_associations := associations\<rparr>"] show ?thesis
      by (auto simp: RecvFrom received forward_inv_def)
  next
    case False
    with assms(2) obtain stream dialer where
      o: "open_udp_stream_with_reconnect (ufw_remote_target (ul_forwarder s)) (ur_net r) (ur_net' r)
            (ufw_dialer (ul_forwarder s)) = (Ok stream, dialer)"
      and f: "forward_received r (take 65535 data) peer
        (s\<lparr>ul_forwarder := (ul_forwarder s)\<lparr>ufw_dialer := dialer\<rparr>, ul_associations :=
           AList.update peer \<lparr>fa_stream = stream, fa_last_used = ur_now r\<rparr> associations\<rparr>) = UdpRunning s'"
      by (auto simp: RecvFrom received fin Let_def open_udp_association_def split: prod.splits result.splits)
    from assms(1) have t: "ufw_remote_target (ul_forwarder s) = target" by (simp add: forward_inv_def)
    show ?thesis
      using carries_opened [OF o [unfolded t]] old t
      by (intro that [OF f]) (auto simp: update_conv' split: if_splits)
  qed
  have "received_from p (events @ [e]) = received_from p events @ (if p = peer then [take 65535 data] else [])" for p
    by (simp add: received_from_snoc RecvFrom received)
  with forward_received_inv [OF s1(1,3) c1] show ?thesis
    by (simp add: forward_inv_def RecvFrom)
qed

lemma forward_inv_run:
  "run_udp_forward_loop events s = UdpRunning s' \<Longrightarrow> forward_inv target before s \<Longrightarrow>
     forward_inv target (before @ events) s'"
proof (induction events arbitrary: s before)
  case (Cons e events)
  from Cons(2) obtain s1 where s1: "udp_forward_step e s = UdpRunning s1" "run_udp_forward_loop events s1 = UdpRunning s'"
    by (auto split: udp_loop_end.splits)
  from Cons(1) [OF s1(2) forward_inv_step [OF Cons(3) s1(1)]] show ?case by simp
qed simp

section \<open>Expiry of idle associations\<close>

lemma finish_expired_all:
  "\<forall>(p, a) \<in> set associations. \<not> finished (us_send (fa_stream a)) \<Longrightarrow>
     finish_expired expired associations = (Ok (), filter (\<lambda>(p, a). p \<notin> set expired) associations)"
proof (induction expired associations rule: finish_expired.induct)
  case (2 p expired associations)
  have none: "map_of associations p = None \<Longrightarrow> filter (\<lambda>(q, a). q \<noteq> p \<and> q \<notin> set expired) associations
      = filter (\<lambda>(q, a). q \<notin> set expired) associations"
    by (rule filter_cong) (force simp: map_of_eq_None_iff)+
  have del: "AList.delete p associations = filter (\<lambda>(q, a). q \<noteq> p) associations"
    by (induction associations) auto
  have fin: "udp_finish (fa_stream a) = Ok ()" if "map_of associations p = Some a" for a
    using 2(3) map_of_SomeD [OF that] by (auto simp: udp_finish_def send_finish_def)
  show ?case
  proof (cases "map_of associations p")
    case None
    with 2(1,3) none show ?thesis by simp
  next
    case (Some a)
    have "\<forall>(q, a) \<in> set (AList.delete p associations). \<not> finished (us_send (fa_stream a))"
      using 2(3) by (auto simp: del)
    from 2(2) [OF Some refl fin [OF Some] this] fin [OF Some] Some show ?thesis
      by (simp add: Let_def del case_prod_unfold)
  qed
qed simp

lemma finish_idle_exact:
  assumes "distinct (map fst associations)" and "0 < timeout"
    and "\<forall>(p, a) \<in> set associations. \<not> finished (us_send (fa_stream a))"
  shows "finish_idle_udp_associations now timeout associations =
    (Ok (), filter (\<lambda>(p, a). now - fa_last_used a < timeout) associations)"
proof -
  have e: "(p, a) \<in> set associations \<Longrightarrow> p \<in> set (map fst (filter (\<lambda>(_, a). timeout \<le> now - fa_last_used a) associations))
      \<longleftrightarrow> timeout \<le> now - fa_last_used a" for p a
    using assms(1) by (auto simp: image_iff) (metis eq_key_imp_eq_value)
  have "filter (\<lambda>(p, a). p \<notin> set (map fst (filter (\<lambda>(_, a). timeout \<le> now - fa_last_used a) associations))) associations
      = filter (\<lambda>(p, a). now - fa_last_used a < timeout) associations"
  proof (intro filter_cong refl)
    fix x assume "x \<in> set associations"
    moreover obtain p a where "x = (p, a)" by (cases x)
    ultimately show "(case x of (p, a) \<Rightarrow> p \<notin> set (map fst (filter (\<lambda>(_, a). timeout \<le> now - fa_last_used a) associations)))
      = (case x of (p, a) \<Rightarrow> now - fa_last_used a < timeout)"
      using e [of p a] by (simp only: prod.case not_le)
  qed
  with assms(2,3) show ?thesis
    by (simp add: finish_idle_udp_associations_def finish_expired_all)
qed

section \<open>Concrete runs and properties\<close>

definition demo_dialer :: "nat SharedQuicDialer" where
  "demo_dialer =
     \<lparr>sd_params = \<lparr>qd_server_addr = socket_addr_to_string \<lparr>sa_ip = V4 1, sa_port = 443\<rparr>, qd_server_name = ''a'',
        qd_roots_pem = [], qd_allow_insecure = False, qd_uuid = 0, qd_password = [], qd_policy = upstream_client\<rparr>,
      sd_cache = Some 1\<rparr>"

definition demo_dial_net :: "nat DialNet" where
  "demo_dial_net =
     \<lparr>dn_bind = (\<lambda>_ _. None), dn_connect = (\<lambda>_ _. Ok 2), dn_closed = (\<lambda>_. False),
      dn_open_bi = (\<lambda>c. if c = 1 then Err (Connection ''lost'') else Ok (fresh_send, (demo_frame_bytes, Fin)))\<rparr>"


text \<open>
  C10: the UDP forwarder keeps its local peers apart. After any run that goes on, the stream kept
  for a peer has carried the header of the forwarder's target and then exactly one frame for each of
  the latest datagrams of that peer, in order and of no other peer, and the frames it has yielded are,
  in order, the latest replies sent to that peer.
\<close>

theorem udp_forward_keeps_peers_apart:
  assumes "run_udp_forward_loop events (udp_forward_start forwarder) = UdpRunning s"
    and "map_of (ul_associations s) peer = Some a"
  shows "carries (concat (map event_nets events)) (ufw_remote_target forwarder) (received_from peer events)
      (replies_to peer (ul_replies s)) (fa_stream a)"
  using forward_inv_run [OF assms(1), of "ufw_remote_target forwarder" "[]"] assms(2)
  by (simp add: forward_inv_def udp_forward_start_def)

definition demo_round :: "bool \<Rightarrow> nat udp_round" where
  "demo_round arrives =
     \<lparr>ur_net = demo_dial_net, ur_net' = demo_dial_net, ur_now = 0, ur_later = 5, ur_arrives = arrives,
      ur_send_to = Ok ()\<rparr>"

definition demo_udp_forwarder :: "nat UdpForwarder" where
  "demo_udp_forwarder =
     \<lparr>ufw_remote_target = TargetIp \<lparr>sa_ip = V4 7, sa_port = 53\<rparr>, ufw_udp_idle_timeout = 10,
      ufw_dialer = demo_dialer\<lparr>sd_cache := Some 2\<rparr>\<rparr>"

abbreviation demo_udp_header :: OwnedProxyHeader where
  "demo_udp_header \<equiv> from_ip Udp (V4 7) 53"

definition demo_udp_stream :: "bytes \<Rightarrow> bytes \<Rightarrow> UdpOverStream" where
  "demo_udp_stream sent incoming =
     \<lparr>us_send = fresh_send\<lparr>written := header_bytes (as_borrowed demo_udp_header) @ sent\<rparr>,
      us_recv = (incoming, Fin), us_header = demo_udp_header\<rparr>"

lemma demo_open [simp]:
  "open_udp_association (demo_round arrives) demo_udp_forwarder =
     (Ok \<lparr>fa_stream = demo_udp_stream [] demo_frame_bytes, fa_last_used = 0\<rparr>, demo_udp_forwarder)"
proof -
  have "open_udp_stream demo_dial_net (TargetIp \<lparr>sa_ip = V4 7, sa_port = 53\<rparr>) 2 = Ok (demo_udp_stream [] demo_frame_bytes)"
    by (subst open_udp_stream_Ok)
       (simp add: demo_dial_net_def as_borrowed_from_ip valid_header_def demo_udp_stream_def)
  moreover have "get_connection demo_dial_net (demo_dialer\<lparr>sd_cache := Some 2\<rparr>) = (Ok 2, demo_dialer\<lparr>sd_cache := Some 2\<rparr>)"
    by (simp add: get_connection_def demo_dial_net_def)
  ultimately show ?thesis
    by (simp add: open_udp_association_def demo_udp_forwarder_def demo_round_def open_udp_stream_with_reconnect_def
        open_with_reconnect_def)
qed

lemma demo_send [simp]:
  "length payload \<le> 65535 \<Longrightarrow> send_datagram (us_send (demo_udp_stream sent incoming)) demo_udp_header payload =
     (Ok (), us_send (demo_udp_stream (sent @ udp_frame_bytes (as_borrowed demo_udp_header, payload)) incoming))"
  by (simp add: send_datagram_def encode_udp_datagram_eq demo_udp_stream_def as_borrowed_from_ip send_write_all_def
      udp_frame_bytes_def)

lemma demo_recv [simp]:
  "recv_datagram 65535 (demo_frame_bytes, Fin) =
     Ok (\<lparr>uod_target = \<lparr>sa_ip = V4 7, sa_port = 53\<rparr>, uod_payload = [1, 2]\<rparr>, ([], Fin))"
  using read_demo_frame [of "[]" Fin]
  by (simp add: recv_datagram_def demo_frame_def udp_ip_header_target_def from_ip_def)

abbreviation demo_local_peer :: SocketAddr where
  "demo_local_peer \<equiv> \<lparr>sa_ip = V4 9, sa_port = 1000\<rparr>"

lemma demo_udp_run:
  "\<exists>s a. run_udp_forward_loop [RecvFrom (Ok ([8], demo_local_peer)) (demo_round True)]
       (udp_forward_start demo_udp_forwarder) = UdpRunning s
     \<and> map_of (ul_associations s) demo_local_peer = Some a
     \<and> fa_stream a = demo_udp_stream (udp_frame_bytes (as_borrowed demo_udp_header, [8])) []
     \<and> fa_last_used a = 5 \<and> ul_replies s = [(demo_local_peer, [1, 2])]
     \<and> ul_associations s = [(demo_local_peer, a)] \<and> ul_forwarder s = demo_udp_forwarder"
  using demo_send [of "[8]" "[]" demo_frame_bytes]
  by (simp add: udp_forward_start_def finish_idle_udp_associations_def forward_received_def
      forward_payload_on_association_def Let_def demo_udp_stream_def)
     (simp add: demo_round_def)

theorem udp_forward_keeps_peers_apart_witness:
  "\<exists>s a. run_udp_forward_loop [RecvFrom (Ok ([8], demo_local_peer)) (demo_round True)]
       (udp_forward_start demo_udp_forwarder) = UdpRunning s
     \<and> map_of (ul_associations s) demo_local_peer = Some a
     \<and> carries [demo_dial_net, demo_dial_net] (TargetIp \<lparr>sa_ip = V4 7, sa_port = 53\<rparr>) [[8]] [[1, 2]] (fa_stream a)"
proof -
  from demo_udp_run obtain s a where s: "run_udp_forward_loop [RecvFrom (Ok ([8], demo_local_peer)) (demo_round True)]
       (udp_forward_start demo_udp_forwarder) = UdpRunning s" "map_of (ul_associations s) demo_local_peer = Some a"
    "ul_replies s = [(demo_local_peer, [1, 2])]" by blast
  from udp_forward_keeps_peers_apart [OF s(1,2)] s show ?thesis
    by (intro exI [of _ s] exI [of _ a])
       (simp add: replies_to_def demo_udp_forwarder_def demo_round_def)
qed



text \<open>
  One local connection can end the TCP forwarder. The relay runs inside the accept loop and
  its error is the loop's: a local program that resets its connection, at any point of the stream,
  ends the forwarder with that error, whatever connections come after it.
\<close>

theorem local_reset_ends_tcp_forwarder:
  assumes "open_tcp_stream_with_reconnect (tfw_remote_target forwarder) net net' (tfw_dialer forwarder)
      = (Ok stream, dialer)"
    and "ac_nodelay local = Ok ()" and "ac_client_first local"
    and "ac_reads local = map Ok chunks @ Err reset # reads" and "[] \<notin> set chunks"
    and "ac_quic_replies local = []"
  shows "run_tcp_forward_loop (ForwardConnection net net' (Ok local) # rounds) forwarder report
      = LoopReturns (Err (ClientIo reset))"
proof -
  have w: "write_all w b = (WriteDone, w\<lparr>w_out := w_out w @ b\<rparr>)" if "w_replies w = []" for w b
    using that by (simp add: write_all.simps writer_write_def)
  have copy: "\<exists>w'. relay_copy (map Ok chunks @ Err reset # reads) w k = (CopyFailed reset, w')"
    if "w_replies w = []" for w k
    using that assms(5) by (induction chunks arbitrary: w k) (auto simp: w)
  let ?w = "\<lparr>w_out = written (ps_send stream), w_replies = [], w_flush_error = None,
       w_shutdown_error = None, w_shutdown = finished (ps_send stream)\<rparr>"
  from copy [of ?w 0] obtain w' where
    "local_to_remote (ac_read_first local) (ac_reads local) ?w = (Some (Err (ClientIo reset)), w')"
    by (auto simp: local_to_remote_def relay_copy_local_to_quic_eq assms(4))
  then have "relay_accepted local (tfw_remote_target forwarder) stream = RelayFailed (ClientIo reset)"
    using assms(2,3,6)
    by (simp add: relay_accepted_def relay_local_tcp_stream_def into_split_def
        split: prod.split option.split result.split)
  with assms(1) show ?thesis by (simp add: accept_one_ref_def)
qed

theorem local_reset_ends_tcp_forwarder_witness:
  "run_tcp_forward_loop
     [ForwardConnection demo_dial_net demo_dial_net
        (Ok \<lparr>ac_peer = \<lparr>sa_ip = V4 9, sa_port = 1000\<rparr>, ac_reads = [Ok [1], Err (IoError ConnectionReset None)],
             ac_writer = demo_writer [], ac_nodelay = Ok (), ac_read_first = [], ac_client_first = True,
             ac_quic_replies = [], ac_quic_reads = []\<rparr>), ForwardShutdown]
     \<lparr>tfw_remote_target = TargetIp \<lparr>sa_ip = V4 7, sa_port = 80\<rparr>, tfw_dialer = demo_dialer\<lparr>sd_cache := Some 2\<rparr>\<rparr>
     TcpForwardLoopReport_default
   = LoopReturns (Err (ClientIo (IoError ConnectionReset None)))"
proof -
  have "open_tcp_stream demo_dial_net (TargetIp \<lparr>sa_ip = V4 7, sa_port = 80\<rparr>) 2
      = Ok \<lparr>ps_send = fresh_send\<lparr>written := header_bytes (proxy_header_for_ip Tcp (V4 7) 80)\<rparr>,
            ps_recv = (demo_frame_bytes, Fin)\<rparr>"
    by (subst open_tcp_stream_Ok) (simp add: demo_dial_net_def as_borrowed_from_ip valid_header_def)
  moreover have "get_connection demo_dial_net (demo_dialer\<lparr>sd_cache := Some 2\<rparr>) = (Ok 2, demo_dialer\<lparr>sd_cache := Some 2\<rparr>)"
    by (simp add: get_connection_def demo_dial_net_def)
  ultimately show ?thesis
    by (intro local_reset_ends_tcp_forwarder [where chunks = "[[1]]" and reads = "[]"])
       (simp_all add: open_tcp_stream_with_reconnect_def open_with_reconnect_def)
qed


end
