(* ===== verification/ClientMixed.thy ===== *)
theory ClientMixed
  imports ClientRelay
begin

text \<open>
  The mixed SOCKS5/HTTP listener of the client (\<^verbatim>\<open>zuicity-client/src/lib.rs\<close>): binding its TCP and
  UDP sockets, the dispatch of an accepted connection, the relays it spawns, the routing of UDP
  datagrams to SOCKS5 associations, and the loop that ties them together. The loop is a function on
  events; what runs beside it shows as events on its channels and tasks. Proved: UDP datagrams only
  reach the association their sender may use, and each association serves one sender; an association
  sends every datagram to the target it names; the counters of the loop add up. Two theorems record
  what holds up the loop: a local connection that stays silent, and an association whose target does
  not answer.
\<close>

section \<open>Binding\<close>

definition MIXED_EPHEMERAL_BIND_ATTEMPTS :: nat where "MIXED_EPHEMERAL_BIND_ATTEMPTS = 128"

text \<open>One try: binding the TCP listener, its local address, and binding a UDP socket.\<close>

record BindAttempt =
  ba_tcp :: "SocketAddr \<Rightarrow> (unit, IoError) result"
  ba_local_addr :: "(SocketAddr, IoError) result"
  ba_udp :: "SocketAddr \<Rightarrow> (unit, IoError) result"

definition bind_tcp :: "BindAttempt \<Rightarrow> SocketAddr \<Rightarrow> (SocketAddr, IoError) result" where
  "bind_tcp attempt local_addr = and_then (ba_tcp attempt local_addr) (\<lambda>_. ba_local_addr attempt)"

fun bind_ephemeral :: "BindAttempt list \<Rightarrow> SocketAddr \<Rightarrow> IoError option \<Rightarrow> (SocketAddr, IoError) result" where
  "bind_ephemeral [] local_addr last_udp_error =
     Err (case last_udp_error of Some error \<Rightarrow> error | None \<Rightarrow> IoError AddrInUse None)"
| "bind_ephemeral (attempt # attempts) local_addr last_udp_error =
     and_then (bind_tcp attempt local_addr) (\<lambda>addr.
     case ba_udp attempt addr of
       Ok _ \<Rightarrow> Ok addr
     | Err error \<Rightarrow>
         if io_kind error = AddrInUse then bind_ephemeral attempts local_addr (Some error) else Err error)"

text \<open>The result is the address both sockets have.\<close>

definition bind_mixed_tcp_udp_pair :: "(nat \<Rightarrow> BindAttempt) \<Rightarrow> SocketAddr \<Rightarrow> (SocketAddr, IoError) result" where
  "bind_mixed_tcp_udp_pair attempts local_addr =
     (if sa_port local_addr \<noteq> 0 then
        and_then (bind_tcp (attempts 0) local_addr) (\<lambda>addr.
        and_then (ba_udp (attempts 0) addr) (\<lambda>_. Ok addr))
      else bind_ephemeral (map attempts [0..<MIXED_EPHEMERAL_BIND_ATTEMPTS]) local_addr None)"

record 'c MixedTcpListener =
  mx_addr :: SocketAddr
  mx_dialer :: "'c SharedQuicDialer"

definition bind_mixed_listener_with_roots ::
    "(nat \<Rightarrow> BindAttempt) \<Rightarrow> ClientRuntimeConfig \<Rightarrow> SocketAddr \<Rightarrow> bytes
     \<Rightarrow> ('c MixedTcpListener, ClientError) result" where
  "bind_mixed_listener_with_roots attempts runtime local_addr roots_pem =
     and_then (map_err ClientIo (bind_mixed_tcp_udp_pair attempts local_addr)) (\<lambda>addr.
     Ok \<lparr>mx_addr = addr, mx_dialer = SharedQuicDialer_new (quic_dialer_params runtime roots_pem)\<rparr>)"

definition bind_configured_mixed_listener_with_roots ::
    "(nat \<Rightarrow> BindAttempt) \<Rightarrow> ClientRuntimeConfig \<Rightarrow> bytes
     \<Rightarrow> ('c MixedTcpListener option, ClientError) result" where
  "bind_configured_mixed_listener_with_roots attempts runtime roots_pem =
     (let listen = rc_listen (cc_raw (crc_config runtime)) in
      if listen = [] then Ok None
      else
        and_then (ok_or (parse_socket_addr listen) (InvalidMixedListenAddr listen)) (\<lambda>local_addr.
        and_then (bind_mixed_listener_with_roots attempts runtime local_addr roots_pem) (\<lambda>listener.
        Ok (Some listener))))"

text \<open>The forwarders of the \<^verbatim>\<open>forward\<close> rules, given the results of binding their sockets.\<close>

fun bind_tcp_forwarders ::
    "(SocketAddr \<Rightarrow> (unit, IoError) result) \<Rightarrow> QuicDialerParams \<Rightarrow> ForwardRule list
     \<Rightarrow> ('c TcpForwarder list, ClientError) result" where
  "bind_tcp_forwarders bind params [] = Ok []"
| "bind_tcp_forwarders bind params (rule # rules) =
     (if \<not> fr_relay_tcp rule then bind_tcp_forwarders bind params rules
      else
        and_then (ok_or (parse_socket_addr (fr_local_addr rule)) (InvalidForwardLocalAddr (fr_local_addr rule)))
          (\<lambda>local_addr.
        and_then (parse_tcp_forward_target (fr_remote_addr rule)) (\<lambda>remote_target.
        and_then (map_err ClientIo (bind local_addr)) (\<lambda>_.
        and_then (bind_tcp_forwarders bind params rules) (\<lambda>forwarders.
        Ok (\<lparr>tfw_remote_target = remote_target, tfw_dialer = SharedQuicDialer_new params\<rparr> # forwarders))))))"

fun bind_udp_forwarders ::
    "(SocketAddr \<Rightarrow> (unit, IoError) result) \<Rightarrow> QuicDialerParams \<Rightarrow> ForwardRule list
     \<Rightarrow> ('c UdpForwarder list, ClientError) result" where
  "bind_udp_forwarders bind params [] = Ok []"
| "bind_udp_forwarders bind params (rule # rules) =
     (if \<not> fr_relay_udp rule then bind_udp_forwarders bind params rules
      else
        and_then (ok_or (parse_socket_addr (fr_local_addr rule)) (InvalidForwardLocalAddr (fr_local_addr rule)))
          (\<lambda>local_addr.
        and_then (parse_udp_forward_target (fr_remote_addr rule)) (\<lambda>remote_target.
        and_then (map_err ClientIo (bind local_addr)) (\<lambda>_.
        and_then (bind_udp_forwarders bind params rules) (\<lambda>forwarders.
        Ok (\<lparr>ufw_remote_target = remote_target, ufw_udp_idle_timeout = DEFAULT_NAT_TIMEOUT,
             ufw_dialer = SharedQuicDialer_new params\<rparr> # forwarders))))))"

definition bind_configured_tcp_forwarders_with_roots ::
    "(SocketAddr \<Rightarrow> (unit, IoError) result) \<Rightarrow> ClientRuntimeConfig \<Rightarrow> bytes
     \<Rightarrow> ('c TcpForwarder list, ClientError) result" where
  "bind_configured_tcp_forwarders_with_roots bind runtime roots_pem =
     bind_tcp_forwarders bind (quic_dialer_params runtime roots_pem) (forward_rules (crc_config runtime))"

definition bind_configured_udp_forwarders_with_roots ::
    "(SocketAddr \<Rightarrow> (unit, IoError) result) \<Rightarrow> ClientRuntimeConfig \<Rightarrow> bytes
     \<Rightarrow> ('c UdpForwarder list, ClientError) result" where
  "bind_configured_udp_forwarders_with_roots bind runtime roots_pem =
     bind_udp_forwarders bind (quic_dialer_params runtime roots_pem) (forward_rules (crc_config runtime))"

section \<open>Dispatch of an accepted connection\<close>

definition peek :: "LocalStream \<Rightarrow> (byte option, ClientError) handshake" where
  "peek s =
     (case ls_input s of
        b # _ \<Rightarrow> Got (Some b)
      | [] \<Rightarrow> (case ls_end s of LocalSilent \<Rightarrow> Waiting | _ \<Rightarrow> Got None))"

text \<open>What is spawned, with the local stream as the handshake leaves it.\<close>

datatype spawned_relay =
    SpawnHttp LocalStream SocketAddr
  | SpawnSocks5 LocalStream SocketAddr TcpForwardTarget
  | SpawnUdp LocalStream SocketAddr Socks5UdpClientEndpoint

definition dispatch_socks5 :: "(SocketAddr, IoError) result \<Rightarrow> SocketAddr \<Rightarrow> spawned_relay local_io" where
  "dispatch_socks5 udp_local_addr local_peer =
     io_then read_socks5_greeting (\<lambda>_.
     io_then read_socks5_request_header (\<lambda>(command, address_type).
     if command = 0x01 then
       io_then (read_socks5_tcp_target address_type) (\<lambda>target s. (Got (SpawnSocks5 s local_peer target), s))
     else if command = 0x03 then
       io_then (validate_socks5_command_and_address_type command 0x03 address_type) (\<lambda>_.
       io_then (read_socks5_udp_client_endpoint address_type) (\<lambda>requested_endpoint.
       io_then (io_result (map_err ClientIo udp_local_addr)) (\<lambda>addr.
       io_then (write_socks5_success_response addr) (\<lambda>_ s.
         (Got (SpawnUdp s local_peer requested_endpoint), s)))))
     else
       io_then (write_socks5_failure_response 0x07) (\<lambda>_. io_err (UnsupportedSocks5Command command))))"

definition dispatch_mixed_stream ::
    "(SocketAddr, IoError) result \<Rightarrow> SocketAddr \<Rightarrow> LocalStream \<Rightarrow> (spawned_relay, ClientError) handshake" where
  "dispatch_mixed_stream udp_local_addr local_peer s =
     (case peek s of
        Got peeked \<Rightarrow>
          (case from_peeked_byte peeked of
             Http \<Rightarrow> Got (SpawnHttp s local_peer)
           | Socks5 \<Rightarrow> fst (dispatch_socks5 udp_local_addr local_peer s))
      | Refused e \<Rightarrow> Refused e
      | Waiting \<Rightarrow> Waiting)"

section \<open>TCP relays of the mixed listener\<close>

record MixedTcpReport =
  mt_protocol :: MixedProtocol
  mt_local_peer :: SocketAddr
  mt_remote_target :: TcpForwardTarget
  mt_bytes_from_client :: u64
  mt_bytes_from_target :: u64

definition from_tcp_report :: "MixedProtocol \<Rightarrow> TcpForwardReport \<Rightarrow> MixedTcpReport" where
  "from_tcp_report protocol report =
     \<lparr>mt_protocol = protocol, mt_local_peer = tf_local_peer report, mt_remote_target = tf_remote_target report,
      mt_bytes_from_client = tf_bytes_from_client report, mt_bytes_from_target = tf_bytes_from_target report\<rparr>"

text \<open>
  How the relay meets the network after the handshake: the sizes of the reads from the local stream,
  the replies of its writer, and the fields \<^typ>\<open>AcceptedLocal\<close> has for the QUIC side.
\<close>

record relay_env =
  re_read_sizes :: "nat list"
  re_local_replies :: "write_reply list"
  re_shutdown_error :: "IoError option"
  re_nodelay :: "(unit, IoError) result"
  re_read_first :: "bool list"
  re_client_first :: bool
  re_quic_replies :: "write_reply list"
  re_quic_reads :: Reader

fun split_reads :: "nat list \<Rightarrow> bytes \<Rightarrow> bytes list" where
  "split_reads sizes [] = []"
| "split_reads [] (b # bs) = [b # bs]"
| "split_reads (n # sizes) (b # bs) = (b # take n bs) # split_reads sizes (drop n bs)"

definition local_halves :: "relay_env \<Rightarrow> LocalStream \<Rightarrow> Reader \<times> Writer" where
  "local_halves env s =
     (map Ok (split_reads (re_read_sizes env) (ls_input s))
        @ (case ls_end s of LocalReset e \<Rightarrow> [Err e] | _ \<Rightarrow> []),
      \<lparr>w_out = ls_output s, w_replies = re_local_replies env, w_flush_error = None,
       w_shutdown_error = re_shutdown_error env, w_shutdown = False\<rparr>)"

text \<open>A local program that stays silent keeps the relay open until a direction fails.\<close>

definition relay_mixed_stream ::
    "relay_env \<Rightarrow> LocalStream \<Rightarrow> SocketAddr \<Rightarrow> TcpForwardTarget \<Rightarrow> TcpProxyStream \<Rightarrow> relay_end" where
  "relay_mixed_stream env s local_peer target quic_stream =
     (case relay_local_tcp_stream (re_nodelay env) (re_read_first env) (re_client_first env) local_peer target
        (local_halves env s) (into_split quic_stream (re_quic_replies env) (re_quic_reads env)) of
        RelayDone report local_write quic_send \<Rightarrow>
          if ls_end s = LocalSilent then RelayHangs else RelayDone report local_write quic_send
      | other \<Rightarrow> other)"

definition established :: bytes where
  "established = as_bytes (''HTTP/1.1 200 Connection established'' @ [CHR 0x0D, CHR 0x0A, CHR 0x0D, CHR 0x0A])"

text \<open>The common end of \<^verbatim>\<open>handle_http_connect\<close> and \<^verbatim>\<open>relay_socks5_connect\<close>.\<close>

definition relay_to_target ::
    "'c DialNet \<Rightarrow> relay_env \<Rightarrow> bytes \<Rightarrow> LocalStream \<Rightarrow> SocketAddr \<Rightarrow> TcpForwardTarget \<Rightarrow> 'c SharedQuicDialer
     \<Rightarrow> relay_end \<times> 'c SharedQuicDialer" where
  "relay_to_target net env reply s local_peer target dialer =
     (case mixed_open_tcp_proxy_stream target net dialer of
        (Err e, dialer) \<Rightarrow> (RelayFailed e, dialer)
      | (Ok quic_stream, dialer) \<Rightarrow>
          (case io_write_all reply s of
             (Got _, s) \<Rightarrow> (relay_mixed_stream env s local_peer target quic_stream, dialer)
           | (Refused e, _) \<Rightarrow> (RelayFailed e, dialer)
           | (Waiting, _) \<Rightarrow> (RelayHangs, dialer)))"

definition handle_http_connect ::
    "'c DialNet \<Rightarrow> relay_env \<Rightarrow> LocalStream \<Rightarrow> SocketAddr \<Rightarrow> 'c SharedQuicDialer
     \<Rightarrow> relay_end \<times> 'c SharedQuicDialer" where
  "handle_http_connect net env s local_peer dialer =
     (case read_http_connect_target s of
        (Refused e, _) \<Rightarrow> (RelayFailed e, dialer)
      | (Waiting, _) \<Rightarrow> (RelayHangs, dialer)
      | (Got target, s) \<Rightarrow> relay_to_target net env established s local_peer target dialer)"

definition relay_socks5_connect ::
    "'c DialNet \<Rightarrow> relay_env \<Rightarrow> LocalStream \<Rightarrow> SocketAddr \<Rightarrow> TcpForwardTarget \<Rightarrow> 'c SharedQuicDialer
     \<Rightarrow> relay_end \<times> 'c SharedQuicDialer" where
  "relay_socks5_connect net env = relay_to_target net env [0x05, 0x00, 0x00, 0x01, 0, 0, 0, 0, 0, 0]"

definition handle_socks5_connect ::
    "'c DialNet \<Rightarrow> relay_env \<Rightarrow> LocalStream \<Rightarrow> SocketAddr \<Rightarrow> 'c SharedQuicDialer
     \<Rightarrow> relay_end \<times> 'c SharedQuicDialer" where
  "handle_socks5_connect net env s local_peer dialer =
     (case read_socks5_connect_target s of
        (Refused e, _) \<Rightarrow> (RelayFailed e, dialer)
      | (Waiting, _) \<Rightarrow> (RelayHangs, dialer)
      | (Got target, s) \<Rightarrow> relay_socks5_connect net env s local_peer target dialer)"

text \<open>\<^verbatim>\<open>accept_one_tcp_ref\<close> after \<^verbatim>\<open>accept\<close>, and the loop over it, \<^verbatim>\<open>run_tcp_loop_until\<close>.\<close>

definition accept_one_tcp ::
    "'c DialNet \<Rightarrow> relay_env \<Rightarrow> (LocalStream \<times> SocketAddr, IoError) result \<Rightarrow> 'c SharedQuicDialer
     \<Rightarrow> MixedProtocol option \<times> relay_end \<times> 'c SharedQuicDialer" where
  "accept_one_tcp net env accepted dialer =
     (case accepted of
        Err e \<Rightarrow> (None, RelayFailed (ClientIo e), dialer)
      | Ok (s, local_peer) \<Rightarrow>
          (case peek s of
             Got peeked \<Rightarrow>
               (case from_peeked_byte peeked of
                  Http \<Rightarrow> (Some Http, handle_http_connect net env s local_peer dialer)
                | Socks5 \<Rightarrow> (Some Socks5, handle_socks5_connect net env s local_peer dialer))
           | Refused e \<Rightarrow> (None, RelayFailed e, dialer)
           | Waiting \<Rightarrow> (None, RelayHangs, dialer)))"

section \<open>SOCKS5 UDP associations\<close>

record Socks5UdpInboundDatagram =
  in_udp_peer :: SocketAddr
  in_datagram :: bytes

record Socks5UdpAssociateReport =
  sa_control_peer :: SocketAddr
  sa_udp_peer :: SocketAddr
  sa_remote_target :: SocketAddr
  sa_bytes_from_client :: u64
  sa_bytes_from_target :: u64

text \<open>
  The variables of the association; \<open>ua_sent\<close> and \<open>ua_replies\<close> log the datagrams it has written to
  streams, with their header, and the datagrams it has sent on the local socket.
\<close>

record UdpAssociation =
  ua_current_target :: "Socks5UdpTarget option"
  ua_stream :: "UdpOverStream option"
  ua_first_udp_peer :: "SocketAddr option"
  ua_first_remote_target :: "SocketAddr option"
  ua_bytes_from_client :: u64
  ua_bytes_from_target :: u64
  ua_sent :: "(OwnedProxyHeader \<times> bytes) list"
  ua_replies :: "(SocketAddr \<times> bytes) list"

definition association_start :: UdpAssociation where
  "association_start =
     \<lparr>ua_current_target = None, ua_stream = None, ua_first_udp_peer = None, ua_first_remote_target = None,
      ua_bytes_from_client = 0, ua_bytes_from_target = 0, ua_sent = [], ua_replies = []\<rparr>"

text \<open>The inner wait for a response: a control read or a frame ends it, or nothing ever does.\<close>

datatype response_wait = ControlFirst "(nat, IoError) result" | ResponseFirst | NothingComes

record 'c assoc_round =
  ar_net :: "'c DialNet"
  ar_wait :: response_wait
  ar_send_to :: "(unit, IoError) result"

datatype 'c socks5_assoc_event =
    ControlRead "(nat, IoError) result"
  | Incoming "Socks5UdpInboundDatagram option" "'c assoc_round"
  | RecvFails IoError

datatype association_end =
    AssocRunning UdpAssociation
  | AssocDone "(Socks5UdpAssociateReport, ClientError) result"
  | AssocWaits UdpAssociation
  | AssocPanics string

definition association_break :: "SocketAddr \<Rightarrow> UdpAssociation \<Rightarrow> association_end" where
  "association_break control_peer s =
     AssocDone
       (and_then (case ua_stream s of None \<Rightarrow> Ok () | Some stream \<Rightarrow> udp_finish stream) (\<lambda>_.
        and_then (ok_or (ua_first_udp_peer s) InvalidSocks5Request) (\<lambda>udp_peer.
        and_then (ok_or (ua_first_remote_target s) InvalidSocks5Request) (\<lambda>remote_target.
        Ok \<lparr>sa_control_peer = control_peer, sa_udp_peer = udp_peer, sa_remote_target = remote_target,
            sa_bytes_from_client = ua_bytes_from_client s, sa_bytes_from_target = ua_bytes_from_target s\<rparr>))))"

definition control_read :: "SocketAddr \<Rightarrow> (nat, IoError) result \<Rightarrow> UdpAssociation \<Rightarrow> association_end" where
  "control_read control_peer control s =
     (case control of
        Err e \<Rightarrow> AssocDone (Err (ClientIo e))
      | Ok n \<Rightarrow> if n = 0 then association_break control_peer s else AssocDone (Err InvalidSocks5Request))"

text \<open>The stream for the target of a request: kept, or the old one finished and a new one opened.\<close>

definition stream_for ::
    "'c DialNet \<Rightarrow> 'c \<Rightarrow> Socks5UdpTarget \<Rightarrow> UdpAssociation \<Rightarrow> (UdpAssociation, ClientError) result" where
  "stream_for net connection target s =
     (if ua_current_target s = Some target then Ok s
      else
        and_then (case ua_stream s of None \<Rightarrow> Ok () | Some old_stream \<Rightarrow> udp_finish old_stream) (\<lambda>_.
        and_then (open_udp_stream net target connection) (\<lambda>stream.
        Ok (s\<lparr>ua_stream := Some stream, ua_current_target := Some target\<rparr>))))"

definition await_response ::
    "SocketAddr \<Rightarrow> 'c assoc_round \<Rightarrow> SocketAddr \<Rightarrow> nat \<Rightarrow> UdpOverStream \<Rightarrow> UdpAssociation \<Rightarrow> association_end" where
  "await_response control_peer r udp_peer payload_len stream s =
     (case ar_wait r of
        ControlFirst control \<Rightarrow> control_read control_peer control s
      | NothingComes \<Rightarrow> AssocWaits s
      | ResponseFirst \<Rightarrow>
          (case map_err ClientTransport (recv_datagram 65535 (us_recv stream)) of
             Err e \<Rightarrow> AssocDone (Err e)
           | Ok (response, recv) \<Rightarrow>
               (case and_then (encode_socks5_udp_datagram (uod_target response) (uod_payload response)) (\<lambda>encoded.
                     and_then (map_err ClientIo (ar_send_to r)) (\<lambda>_. Ok encoded)) of
                  Err e \<Rightarrow> AssocDone (Err e)
                | Ok encoded \<Rightarrow>
                    AssocRunning (s\<lparr>
                      ua_stream := Some (stream\<lparr>us_recv := recv\<rparr>),
                      ua_replies := ua_replies s @ [(udp_peer, encoded)],
                      ua_first_remote_target :=
                        (case ua_first_remote_target s of None \<Rightarrow> Some (uod_target response) | first \<Rightarrow> first),
                      ua_bytes_from_client := ua_bytes_from_client s + of_nat payload_len,
                      ua_bytes_from_target :=
                        ua_bytes_from_target s + of_nat (length (uod_payload response))\<rparr>))))"

definition relay_inbound ::
    "'c \<Rightarrow> SocketAddr \<Rightarrow> 'c assoc_round \<Rightarrow> Socks5UdpInboundDatagram \<Rightarrow> UdpAssociation \<Rightarrow> association_end" where
  "relay_inbound connection control_peer r received s =
     (case decode_socks5_udp_datagram (in_datagram received) of
        Err e \<Rightarrow> AssocDone (Err e)
      | Ok request \<Rightarrow>
          (case stream_for (ar_net r) connection (sd_target request) s of
             Err e \<Rightarrow> AssocDone (Err e)
           | Ok s \<Rightarrow>
               (case ua_stream s of
                  None \<Rightarrow> AssocPanics ''SOCKS5 UDP stream is opened before relaying''
                | Some stream \<Rightarrow>
                    (case send_datagram (us_send stream) (us_header stream) (sd_payload request) of
                       (Err e, _) \<Rightarrow> AssocDone (Err (ClientTransport e))
                     | (Ok _, send) \<Rightarrow>
                         (let stream = stream\<lparr>us_send := send\<rparr> in
                          await_response control_peer r (in_udp_peer received) (length (sd_payload request)) stream
                            (s\<lparr>ua_stream := Some stream,
                               ua_sent := ua_sent s @ [(us_header stream, sd_payload request)]\<rparr>))))))"

text \<open>
  One turn of \<^verbatim>\<open>relay_socks5_udp_association\<close>, after the connection is there, and of the loop of
  \<^verbatim>\<open>relay_one_socks5_udp_associate_datagram\<close>, which reads the UDP socket itself.
\<close>

fun association_step ::
    "'c \<Rightarrow> SocketAddr \<Rightarrow> 'c socks5_assoc_event \<Rightarrow> UdpAssociation \<Rightarrow> association_end" where
  "association_step connection control_peer (ControlRead control) s = control_read control_peer control s"
| "association_step connection control_peer (Incoming None r) s = association_break control_peer s"
| "association_step connection control_peer (Incoming (Some received) r) s =
     (case ua_first_udp_peer s of
        Some peer \<Rightarrow>
          if peer \<noteq> in_udp_peer received then AssocRunning s
          else relay_inbound connection control_peer r received s
      | None \<Rightarrow>
          relay_inbound connection control_peer r received
            (s\<lparr>ua_first_udp_peer := Some (in_udp_peer received)\<rparr>))"
| "association_step connection control_peer (RecvFails e) s = AssocDone (Err (ClientIo e))"

fun run_association ::
    "'c \<Rightarrow> SocketAddr \<Rightarrow> 'c socks5_assoc_event list \<Rightarrow> UdpAssociation \<Rightarrow> association_end" where
  "run_association connection control_peer [] s = AssocRunning s"
| "run_association connection control_peer (e # events) s =
     (case association_step connection control_peer e s of
        AssocRunning s \<Rightarrow> run_association connection control_peer events s
      | final \<Rightarrow> final)"

definition relay_socks5_udp_association ::
    "'c DialNet \<Rightarrow> SocketAddr \<Rightarrow> 'c socks5_assoc_event list \<Rightarrow> 'c SharedQuicDialer
     \<Rightarrow> association_end \<times> 'c SharedQuicDialer" where
  "relay_socks5_udp_association net control_peer events dialer =
     (case get_connection net dialer of
        (Err e, dialer) \<Rightarrow> (AssocDone (Err e), dialer)
      | (Ok connection, dialer) \<Rightarrow>
          (run_association connection control_peer events association_start, dialer))"

fun from_requested :: "Socks5UdpClientEndpoint \<Rightarrow> IpAddr \<Rightarrow> 'c socks5_assoc_event \<Rightarrow> bool" where
  "from_requested requested_endpoint control_ip (Incoming (Some received) r) =
     endpoint_matches requested_endpoint control_ip (in_udp_peer received)"
| "from_requested requested_endpoint control_ip _ = True"

definition relay_one_socks5_udp_associate_datagram ::
    "'c DialNet \<Rightarrow> (SocketAddr, IoError) result \<Rightarrow> LocalStream \<Rightarrow> SocketAddr \<Rightarrow> Socks5UdpClientEndpoint
     \<Rightarrow> 'c socks5_assoc_event list \<Rightarrow> 'c SharedQuicDialer \<Rightarrow> association_end \<times> 'c SharedQuicDialer" where
  "relay_one_socks5_udp_associate_datagram net udp_local_addr s control_peer requested_endpoint events dialer =
     (case fst (io_then (io_result (map_err ClientIo udp_local_addr)) write_socks5_success_response s) of
        Refused e \<Rightarrow> (AssocDone (Err e), dialer)
      | Waiting \<Rightarrow> (AssocWaits association_start, dialer)
      | Got _ \<Rightarrow>
          relay_socks5_udp_association net control_peer
            (filter (from_requested requested_endpoint (sa_ip control_peer)) events) dialer)"

section \<open>Routing of UDP datagrams\<close>

text \<open>
  A bounded channel to an association: everything ever sent on it, how many of those the association
  has taken, and whether its receiver is gone.
\<close>

record Channel =
  ch_sent :: "Socks5UdpInboundDatagram list"
  ch_taken :: nat
  ch_closed :: bool

definition CHANNEL_CAPACITY :: nat where "CHANNEL_CAPACITY = 32"

definition channel_new :: Channel where
  "channel_new = \<lparr>ch_sent = [], ch_taken = 0, ch_closed = False\<rparr>"

definition channel_full :: "Channel \<Rightarrow> bool" where
  "channel_full ch \<longleftrightarrow> CHANNEL_CAPACITY \<le> length (ch_sent ch) - ch_taken ch"

record PendingSocks5UdpRelay =
  pr_control_ip :: IpAddr
  pr_requested_endpoint :: Socks5UdpClientEndpoint
  pr_route :: nat

text \<open>The senders are numbers of channels in a store: a clone of a sender is the same number.\<close>

record MixedRoutes =
  rt_channels :: "nat \<Rightarrow> Channel"
  rt_pending :: "PendingSocks5UdpRelay list"
  rt_routes :: "SocketAddr \<Rightarrow> nat option"

datatype route_end = Routed MixedRoutes | RouteWaits MixedRoutes

definition deliver :: "nat \<Rightarrow> Socks5UdpInboundDatagram \<Rightarrow> MixedRoutes \<Rightarrow> MixedRoutes" where
  "deliver route d s =
     s\<lparr>rt_channels := (rt_channels s)(route := (rt_channels s route)\<lparr>ch_sent := ch_sent (rt_channels s route) @ [d]\<rparr>)\<rparr>"

text \<open>The loop over the pending associations; \<open>unmatched\<close> are put back behind those not looked at.\<close>

fun offer_pending ::
    "SocketAddr \<Rightarrow> bytes \<Rightarrow> PendingSocks5UdpRelay list \<Rightarrow> PendingSocks5UdpRelay list \<Rightarrow> MixedRoutes \<Rightarrow> route_end" where
  "offer_pending udp_peer datagram [] unmatched s = Routed (s\<lparr>rt_pending := unmatched\<rparr>)"
| "offer_pending udp_peer datagram (pending # rest) unmatched s =
     (let ch = rt_channels s (pr_route pending) in
      if ch_closed ch then offer_pending udp_peer datagram rest unmatched s
      else if \<not> endpoint_matches (pr_requested_endpoint pending) (pr_control_ip pending) udp_peer then
        offer_pending udp_peer datagram rest (unmatched @ [pending]) s
      else if channel_full ch then RouteWaits s
      else
        Routed (deliver (pr_route pending) \<lparr>in_udp_peer = udp_peer, in_datagram = datagram\<rparr>
          (s\<lparr>rt_routes := (rt_routes s)(udp_peer \<mapsto> pr_route pending), rt_pending := rest @ unmatched\<rparr>)))"

definition route_mixed_socks5_udp_datagram :: "SocketAddr \<Rightarrow> bytes \<Rightarrow> MixedRoutes \<Rightarrow> route_end" where
  "route_mixed_socks5_udp_datagram udp_peer datagram s =
     (case rt_routes s udp_peer of
        Some route \<Rightarrow>
          (if ch_closed (rt_channels s route) then
             offer_pending udp_peer datagram (rt_pending s) []
               (s\<lparr>rt_routes := (rt_routes s)(udp_peer := None)\<rparr>)
           else if channel_full (rt_channels s route) then RouteWaits s
           else Routed (deliver route \<lparr>in_udp_peer = udp_peer, in_datagram = datagram\<rparr> s))
      | None \<Rightarrow> offer_pending udp_peer datagram (rt_pending s) [] s)"

section \<open>The loop of the mixed listener\<close>

record MixedTcpLoopReport =
  ml_accepted_connections :: u64
  ml_completed_tcp_relays :: u64
  ml_failed_tcp_relays :: u64
  ml_completed_udp_associations :: u64
  ml_failed_udp_associations :: u64
  ml_bytes_from_client :: u64
  ml_bytes_from_target :: u64

definition MixedTcpLoopReport_default :: MixedTcpLoopReport where
  "MixedTcpLoopReport_default =
     \<lparr>ml_accepted_connections = 0, ml_completed_tcp_relays = 0, ml_failed_tcp_relays = 0,
      ml_completed_udp_associations = 0, ml_failed_udp_associations = 0,
      ml_bytes_from_client = 0, ml_bytes_from_target = 0\<rparr>"

definition record_mixed_tcp_relay :: "MixedTcpReport \<Rightarrow> MixedTcpLoopReport \<Rightarrow> MixedTcpLoopReport" where
  "record_mixed_tcp_relay relay report =
     report\<lparr>ml_completed_tcp_relays := ml_completed_tcp_relays report + 1,
       ml_bytes_from_client := ml_bytes_from_client report + mt_bytes_from_client relay,
       ml_bytes_from_target := ml_bytes_from_target report + mt_bytes_from_target relay\<rparr>"

definition record_mixed_udp_relay :: "Socks5UdpAssociateReport \<Rightarrow> MixedTcpLoopReport \<Rightarrow> MixedTcpLoopReport" where
  "record_mixed_udp_relay relay report =
     report\<lparr>ml_completed_udp_associations := ml_completed_udp_associations report + 1,
       ml_bytes_from_client := ml_bytes_from_client report + sa_bytes_from_client relay,
       ml_bytes_from_target := ml_bytes_from_target report + sa_bytes_from_target relay\<rparr>"

definition record_mixed_tcp_relay_error :: "MixedTcpLoopReport \<Rightarrow> MixedTcpLoopReport" where
  "record_mixed_tcp_relay_error report = report\<lparr>ml_failed_tcp_relays := ml_failed_tcp_relays report + 1\<rparr>"

definition record_mixed_udp_relay_error :: "MixedTcpLoopReport \<Rightarrow> MixedTcpLoopReport" where
  "record_mixed_udp_relay_error report =
     report\<lparr>ml_failed_udp_associations := ml_failed_udp_associations report + 1\<rparr>"

type_synonym tcp_joined = "((MixedTcpReport, ClientError) result, JoinError) result"
type_synonym udp_joined = "((Socks5UdpAssociateReport, ClientError) result, JoinError) result"

fun record_tcp_joined :: "tcp_joined \<Rightarrow> MixedTcpLoopReport \<Rightarrow> MixedTcpLoopReport" where
  "record_tcp_joined (Ok (Ok relay)) report = record_mixed_tcp_relay relay report"
| "record_tcp_joined (Ok (Err error)) report = record_mixed_tcp_relay_error report"
| "record_tcp_joined (Err _) report = report"

fun record_udp_joined :: "udp_joined \<Rightarrow> MixedTcpLoopReport \<Rightarrow> MixedTcpLoopReport" where
  "record_udp_joined (Ok (Ok relay)) report = record_mixed_udp_relay relay report"
| "record_udp_joined (Ok (Err error)) report = record_mixed_udp_relay_error report"
| "record_udp_joined (Err _) report = report"

text \<open>
  What joins after the shutdown: relays that end within the grace period, then those that are
  aborted, each joining with its own result or with a join error.
\<close>

record mixed_drained =
  dr_tcp_graceful :: "tcp_joined list"
  dr_udp_graceful :: "udp_joined list"
  dr_tcp_aborted :: "tcp_joined list"
  dr_udp_aborted :: "udp_joined list"

definition drain_gracefully_completed_mixed_tcp_relays ::
    "tcp_joined list \<Rightarrow> MixedTcpLoopReport \<Rightarrow> MixedTcpLoopReport" where
  "drain_gracefully_completed_mixed_tcp_relays joined report = fold record_tcp_joined joined report"

definition drain_gracefully_completed_mixed_udp_relays ::
    "udp_joined list \<Rightarrow> MixedTcpLoopReport \<Rightarrow> MixedTcpLoopReport" where
  "drain_gracefully_completed_mixed_udp_relays joined report = fold record_udp_joined joined report"

definition drain_completed_mixed_relays_after_shutdown ::
    "mixed_drained \<Rightarrow> MixedTcpLoopReport \<Rightarrow> MixedTcpLoopReport" where
  "drain_completed_mixed_relays_after_shutdown d report =
     fold record_udp_joined (dr_udp_aborted d)
       (fold record_tcp_joined (dr_tcp_aborted d)
         (drain_gracefully_completed_mixed_udp_relays (dr_udp_graceful d)
           (drain_gracefully_completed_mixed_tcp_relays (dr_tcp_graceful d) report)))"

text \<open>\<^verbatim>\<open>run_tcp_loop_until\<close>: a round is one connection with the network it meets, or the shutdown.\<close>

datatype 'c mixed_round =
    MixedTcpShutdown
  | MixedTcpConnection "'c DialNet" relay_env "(LocalStream \<times> SocketAddr, IoError) result"

fun is_mixed_shutdown :: "'c mixed_round \<Rightarrow> bool" where
  "is_mixed_shutdown MixedTcpShutdown = True"
| "is_mixed_shutdown (MixedTcpConnection _ _ _) = False"

fun run_tcp_loop ::
    "'c mixed_round list \<Rightarrow> 'c SharedQuicDialer \<Rightarrow> MixedTcpLoopReport \<Rightarrow> MixedTcpLoopReport loop_end" where
  "run_tcp_loop [] dialer report = LoopWaits report"
| "run_tcp_loop (MixedTcpShutdown # rounds) dialer report = LoopReturns (Ok report)"
| "run_tcp_loop (MixedTcpConnection net env accepted # rounds) dialer report =
     (case accept_one_tcp net env accepted dialer of
        (Some protocol, RelayDone relay _ _, dialer) \<Rightarrow>
          run_tcp_loop rounds dialer
            (record_mixed_tcp_relay (from_tcp_report protocol relay)
              (report\<lparr>ml_accepted_connections := ml_accepted_connections report + 1\<rparr>))
      | (_, RelayFailed e, _) \<Rightarrow> LoopReturns (Err e)
      | _ \<Rightarrow> if list_ex is_mixed_shutdown rounds then LoopReturns (Ok report) else LoopWaits report)"

text \<open>\<^verbatim>\<open>accept_one_socks5_udp_associate_ref\<close>\<close>

definition accept_one_socks5_udp_associate ::
    "'c DialNet \<Rightarrow> (SocketAddr, IoError) result \<Rightarrow> (LocalStream \<times> SocketAddr, IoError) result
     \<Rightarrow> 'c socks5_assoc_event list \<Rightarrow> 'c SharedQuicDialer \<Rightarrow> association_end \<times> 'c SharedQuicDialer" where
  "accept_one_socks5_udp_associate net udp_local_addr accepted events dialer =
     (case accepted of
        Err e \<Rightarrow> (AssocDone (Err (ClientIo e)), dialer)
      | Ok (control_stream, control_peer) \<Rightarrow>
          (case read_socks5_udp_associate_request control_stream of
             (Refused e, _) \<Rightarrow> (AssocDone (Err e), dialer)
           | (Waiting, _) \<Rightarrow> (AssocWaits association_start, dialer)
           | (Got requested_endpoint, control_stream) \<Rightarrow>
               relay_one_socks5_udp_associate_datagram net udp_local_addr control_stream control_peer
                 requested_endpoint events dialer))"

text \<open>
  The state of \<^verbatim>\<open>run_loop_until\<close>. The \<open>n\<close>-th association is the one with the \<open>n\<close>-th channel;
  \<open>mx_associations\<close> keeps its control peer and the endpoint it asked for.
\<close>

record MixedLoop =
  mx_report :: MixedTcpLoopReport
  mx_tcp_relays :: "spawned_relay list"
  mx_udp_relays :: "nat list"
  mx_routing :: MixedRoutes
  mx_associations :: "(SocketAddr \<times> Socks5UdpClientEndpoint) list"

definition mixed_start :: MixedLoop where
  "mixed_start =
     \<lparr>mx_report = MixedTcpLoopReport_default, mx_tcp_relays = [], mx_udp_relays = [],
      mx_routing = \<lparr>rt_channels = (\<lambda>_. channel_new), rt_pending = [], rt_routes = Map.empty\<rparr>,
      mx_associations = []\<rparr>"

text \<open>
  Events: those of the \<^verbatim>\<open>select!\<close>, and what associations do beside the loop, taking a datagram off
  their channel or dropping its receiver.
\<close>

datatype mixed_event =
    MixedShutdown mixed_drained
  | TcpJoined nat tcp_joined
  | UdpJoined nat udp_joined
  | UdpReceived "(bytes \<times> SocketAddr, IoError) result"
  | AcceptedStream "(LocalStream \<times> SocketAddr, IoError) result" "(SocketAddr, IoError) result"
  | AssociationTakes nat
  | AssociationCloses nat

text \<open>
  Where the loop is: at its \<^verbatim>\<open>select!\<close>, sending a datagram into a full channel, reading from a local
  connection that stays silent, or returned.
\<close>

datatype mixed_phase =
    MixedReady MixedLoop
  | MixedSending SocketAddr bytes MixedLoop
  | MixedHandshaking MixedLoop
  | MixedReturned "(MixedTcpLoopReport, ClientError) result"

definition update_report :: "(MixedTcpLoopReport \<Rightarrow> MixedTcpLoopReport) \<Rightarrow> MixedLoop \<Rightarrow> MixedLoop" where
  "update_report f s = s\<lparr>mx_report := f (mx_report s)\<rparr>"

definition update_channel :: "nat \<Rightarrow> (Channel \<Rightarrow> Channel) \<Rightarrow> MixedLoop \<Rightarrow> MixedLoop" where
  "update_channel n f s =
     (if length (mx_associations s) \<le> n then s else
      s\<lparr>mx_routing := (mx_routing s)
        \<lparr>rt_channels := (rt_channels (mx_routing s))(n := f (rt_channels (mx_routing s) n))\<rparr>\<rparr>)"

definition route_received :: "SocketAddr \<Rightarrow> bytes \<Rightarrow> MixedLoop \<Rightarrow> mixed_phase" where
  "route_received udp_peer datagram s =
     (case route_mixed_socks5_udp_datagram udp_peer datagram (mx_routing s) of
        Routed routing \<Rightarrow> MixedReady (s\<lparr>mx_routing := routing\<rparr>)
      | RouteWaits routing \<Rightarrow> MixedSending udp_peer datagram (s\<lparr>mx_routing := routing\<rparr>))"

definition spawn_relay :: "spawned_relay \<Rightarrow> MixedLoop \<Rightarrow> MixedLoop" where
  "spawn_relay relay s =
     (case relay of
        SpawnUdp control_stream local_peer requested_endpoint \<Rightarrow>
          (let route = length (mx_associations s);
               s = s\<lparr>mx_udp_relays := mx_udp_relays s @ [route],
                 mx_associations := mx_associations s @ [(local_peer, requested_endpoint)]\<rparr>
           in s\<lparr>mx_routing := (mx_routing s)\<lparr>rt_pending := rt_pending (mx_routing s) @
                  [\<lparr>pr_control_ip = sa_ip local_peer, pr_requested_endpoint = requested_endpoint, pr_route = route\<rparr>]\<rparr>\<rparr>)
      | _ \<Rightarrow> s\<lparr>mx_tcp_relays := mx_tcp_relays s @ [relay]\<rparr>)"

definition spawn_or_handle_mixed_stream ::
    "(SocketAddr, IoError) result \<Rightarrow> LocalStream \<Rightarrow> SocketAddr \<Rightarrow> MixedLoop \<Rightarrow> mixed_phase" where
  "spawn_or_handle_mixed_stream udp_local_addr local_stream local_peer s =
     (case dispatch_mixed_stream udp_local_addr local_peer local_stream of
        Got relay \<Rightarrow> MixedReady (spawn_relay relay s)
      | Refused error \<Rightarrow> MixedReady (update_report record_mixed_tcp_relay_error s)
      | Waiting \<Rightarrow> MixedHandshaking s)"

definition remove_at :: "nat \<Rightarrow> 'a list \<Rightarrow> 'a list" where
  "remove_at i xs = take i xs @ drop (Suc i) xs"

definition tcp_relay_joined :: "nat \<Rightarrow> tcp_joined \<Rightarrow> MixedLoop \<Rightarrow> mixed_phase" where
  "tcp_relay_joined i joined s =
     (if length (mx_tcp_relays s) \<le> i then MixedReady s
      else case joined of
          Err e \<Rightarrow> MixedReturned (Err (ClientJoin e))
        | _ \<Rightarrow> MixedReady (update_report (record_tcp_joined joined)
                 (s\<lparr>mx_tcp_relays := remove_at i (mx_tcp_relays s)\<rparr>)))"

definition udp_relay_joined :: "nat \<Rightarrow> udp_joined \<Rightarrow> MixedLoop \<Rightarrow> mixed_phase" where
  "udp_relay_joined i joined s =
     (if length (mx_udp_relays s) \<le> i \<or> \<not> ch_closed (rt_channels (mx_routing s) (mx_udp_relays s ! i)) then
        MixedReady s
      else case joined of
          Err e \<Rightarrow> MixedReturned (Err (ClientJoin e))
        | Ok ended \<Rightarrow>
            (let s = update_report (record_udp_joined joined)
                       (s\<lparr>mx_udp_relays := remove_at i (mx_udp_relays s)\<rparr>)
             in MixedReady
                  (case ended of
                     Err _ \<Rightarrow> s
                   | Ok relay \<Rightarrow>
                       s\<lparr>mx_routing := (mx_routing s)
                          \<lparr>rt_routes := (rt_routes (mx_routing s))(sa_udp_peer relay := None)\<rparr>\<rparr>)))"

fun mixed_ready_step :: "mixed_event \<Rightarrow> MixedLoop \<Rightarrow> mixed_phase" where
  "mixed_ready_step (MixedShutdown d) s =
     MixedReturned (Ok (drain_completed_mixed_relays_after_shutdown d (mx_report s)))"
| "mixed_ready_step (TcpJoined i joined) s = tcp_relay_joined i joined s"
| "mixed_ready_step (UdpJoined i joined) s = udp_relay_joined i joined s"
| "mixed_ready_step (UdpReceived (Err e)) s = MixedReturned (Err (ClientIo e))"
| "mixed_ready_step (UdpReceived (Ok (datagram, udp_peer))) s = route_received udp_peer (take 65535 datagram) s"
| "mixed_ready_step (AcceptedStream (Err e) udp_local_addr) s = MixedReturned (Err (ClientIo e))"
| "mixed_ready_step (AcceptedStream (Ok (local_stream, local_peer)) udp_local_addr) s =
     spawn_or_handle_mixed_stream udp_local_addr local_stream local_peer
       (update_report (\<lambda>r. r\<lparr>ml_accepted_connections := ml_accepted_connections r + 1\<rparr>) s)"
| "mixed_ready_step (AssociationTakes n) s =
     MixedReady (update_channel n (\<lambda>ch. ch\<lparr>ch_taken := min (Suc (ch_taken ch)) (length (ch_sent ch))\<rparr>) s)"
| "mixed_ready_step (AssociationCloses n) s = MixedReady (update_channel n (\<lambda>ch. ch\<lparr>ch_closed := True\<rparr>) s)"

text \<open>While the loop waits inside a handler, only the channels move; a send is then tried again.\<close>

fun mixed_step :: "mixed_event \<Rightarrow> mixed_phase \<Rightarrow> mixed_phase" where
  "mixed_step e (MixedReady s) = mixed_ready_step e s"
| "mixed_step e (MixedSending udp_peer datagram s) =
     (case e of
        AssociationTakes _ \<Rightarrow>
          (case mixed_ready_step e s of MixedReady s \<Rightarrow> route_received udp_peer datagram s | other \<Rightarrow> other)
      | AssociationCloses _ \<Rightarrow>
          (case mixed_ready_step e s of MixedReady s \<Rightarrow> route_received udp_peer datagram s | other \<Rightarrow> other)
      | _ \<Rightarrow> MixedSending udp_peer datagram s)"
| "mixed_step e (MixedHandshaking s) = MixedHandshaking s"
| "mixed_step e (MixedReturned r) = MixedReturned r"

definition run_mixed_loop :: "mixed_event list \<Rightarrow> mixed_phase" where
  "run_mixed_loop events = fold mixed_step events (MixedReady mixed_start)"

section \<open>Facts on the routing\<close>

definition may_use :: "(SocketAddr \<times> Socks5UdpClientEndpoint) list \<Rightarrow> nat \<Rightarrow> SocketAddr \<Rightarrow> bool" where
  "may_use associations n peer \<longleftrightarrow> n < length associations
     \<and> endpoint_matches (snd (associations ! n)) (sa_ip (fst (associations ! n))) peer"

definition pending_ok ::
    "(SocketAddr \<times> Socks5UdpClientEndpoint) list \<Rightarrow> (nat \<Rightarrow> Channel) \<Rightarrow> PendingSocks5UdpRelay \<Rightarrow> bool" where
  "pending_ok associations channels p \<longleftrightarrow> pr_route p < length associations \<and> ch_sent (channels (pr_route p)) = []
     \<and> pr_control_ip p = sa_ip (fst (associations ! pr_route p))
     \<and> pr_requested_endpoint p = snd (associations ! pr_route p)"

definition routed_ok :: "(nat \<Rightarrow> Channel) \<Rightarrow> SocketAddr \<Rightarrow> nat \<Rightarrow> bool" where
  "routed_ok channels peer n \<longleftrightarrow> ch_sent (channels n) \<noteq> []
     \<and> list_all (\<lambda>d. in_udp_peer d = peer) (ch_sent (channels n))"

definition one_sender ::
    "(SocketAddr \<times> Socks5UdpClientEndpoint) list \<Rightarrow> (nat \<Rightarrow> Channel) \<Rightarrow> nat \<Rightarrow> bool" where
  "one_sender associations channels n \<longleftrightarrow>
     (\<exists>peer. list_all (\<lambda>d. in_udp_peer d = peer \<and> may_use associations n peer) (ch_sent (channels n)))"

text \<open>
  An association that waits for its first datagram has been sent none; one that has a route has been
  sent datagrams of that peer only; and whatever was sent to an association came from one peer that may
  use it.
\<close>

definition route_inv :: "(SocketAddr \<times> Socks5UdpClientEndpoint) list \<Rightarrow> MixedRoutes \<Rightarrow> bool" where
  "route_inv associations s \<longleftrightarrow>
     distinct (map pr_route (rt_pending s))
     \<and> list_all (pending_ok associations (rt_channels s)) (rt_pending s)
     \<and> (\<forall>peer n. rt_routes s peer = Some n \<longrightarrow> routed_ok (rt_channels s) peer n)
     \<and> (\<forall>n. one_sender associations (rt_channels s) n)"

lemma route_invI:
  assumes "distinct (map pr_route (rt_pending s))"
    and "\<And>p. p \<in> set (rt_pending s) \<Longrightarrow> pending_ok associations (rt_channels s) p"
    and "\<And>peer n. rt_routes s peer = Some n \<Longrightarrow> routed_ok (rt_channels s) peer n"
    and "\<And>n. one_sender associations (rt_channels s) n"
  shows "route_inv associations s"
  using assms by (simp add: route_inv_def list_all_iff)

lemma route_invD:
  assumes "route_inv associations s"
  shows "distinct (map pr_route (rt_pending s))"
    and "p \<in> set (rt_pending s) \<Longrightarrow> pending_ok associations (rt_channels s) p"
    and "rt_routes s peer = Some n \<Longrightarrow> routed_ok (rt_channels s) peer n"
    and "one_sender associations (rt_channels s) n"
  using assms by (simp_all add: route_inv_def list_all_iff)

lemma sent_deliver:
  "ch_sent (rt_channels (deliver n d s) m) = ch_sent (rt_channels s m) @ (if m = n then [d] else [])"
  by (simp add: deliver_def)

lemma deliver_fields [simp]:
  "rt_routes (deliver n d s) = rt_routes s" "rt_pending (deliver n d s) = rt_pending s"
  by (simp_all add: deliver_def)

lemma one_sender_deliver:
  "one_sender associations (rt_channels s) m \<Longrightarrow>
   list_all (\<lambda>e. in_udp_peer e = in_udp_peer d) (ch_sent (rt_channels s n)) \<Longrightarrow>
   may_use associations n (in_udp_peer d) \<Longrightarrow> one_sender associations (rt_channels (deliver n d s)) m"
  by (cases "m = n") (auto simp: one_sender_def sent_deliver list_all_iff)

lemma pending_ok_deliver:
  "pending_ok associations (rt_channels s) p \<Longrightarrow> pr_route p \<noteq> n \<Longrightarrow>
     pending_ok associations (rt_channels (deliver n d s)) p"
  by (simp add: pending_ok_def sent_deliver)

lemma routed_ok_deliver:
  "m \<noteq> n \<Longrightarrow> routed_ok (rt_channels s) q m \<Longrightarrow> routed_ok (rt_channels (deliver n d s)) q m"
  "list_all (\<lambda>e. in_udp_peer e = in_udp_peer d) (ch_sent (rt_channels s n)) \<Longrightarrow>
     routed_ok (rt_channels (deliver n d s)) (in_udp_peer d) n"
  by (simp_all add: routed_ok_def sent_deliver)

lemma routed_ok_unique: "routed_ok channels p n \<Longrightarrow> routed_ok channels q n \<Longrightarrow> p = q"
  by (cases "ch_sent (channels n)") (auto simp: routed_ok_def)

lemma route_inv_deliver:
  assumes "route_inv associations s" and "rt_routes s (in_udp_peer d) = Some n"
  shows "route_inv associations (deliver n d s)"
proof -
  note i = route_invD [OF assms(1)]
  have r: "routed_ok (rt_channels s) (in_udp_peer d) n" by (rule i(3) [OF assms(2)])
  then have same: "list_all (\<lambda>e. in_udp_peer e = in_udp_peer d) (ch_sent (rt_channels s n))"
    by (simp add: routed_ok_def)
  have use: "may_use associations n (in_udp_peer d)"
    using i(4) [of n] r by (cases "ch_sent (rt_channels s n)") (auto simp: one_sender_def routed_ok_def)
  show ?thesis
  proof (rule route_invI)
    fix p assume p: "p \<in> set (rt_pending (deliver n d s))"
    with i(2) [of p] r show "pending_ok associations (rt_channels (deliver n d s)) p"
      by (intro pending_ok_deliver) (auto simp: pending_ok_def routed_ok_def)
  next
    fix q m assume "rt_routes (deliver n d s) q = Some m"
    then have q: "routed_ok (rt_channels s) q m" by (simp add: i(3))
    show "routed_ok (rt_channels (deliver n d s)) q m"
    proof (cases "m = n")
      case True
      with q r have "q = in_udp_peer d" by (simp add: routed_ok_unique)
      with True routed_ok_deliver(2) [OF same] show ?thesis by simp
    qed (use q in \<open>simp add: routed_ok_deliver(1)\<close>)
  qed (use i(1) in simp, rule one_sender_deliver [OF i(4) same use])
qed

lemma route_inv_weaken:
  assumes "route_inv associations s" and "set pending \<subseteq> set (rt_pending s)" and "distinct (map pr_route pending)"
    and "\<And>p n. routes p = Some n \<Longrightarrow> rt_routes s p = Some n"
  shows "route_inv associations (s\<lparr>rt_pending := pending, rt_routes := routes\<rparr>)"
proof -
  note i = route_invD [OF assms(1)]
  show ?thesis
    by (rule route_invI) (use assms(2,3) i(2,3,4) assms(4) in auto)
qed

lemma route_inv_first:
  assumes "route_inv associations s" and "p \<in> set (rt_pending s)"
    and "endpoint_matches (pr_requested_endpoint p) (pr_control_ip p) (in_udp_peer d)"
    and "set pending \<subseteq> set (rt_pending s)" and "distinct (map pr_route (p # pending))"
  shows "route_inv associations (deliver (pr_route p) d
    (s\<lparr>rt_routes := (rt_routes s)(in_udp_peer d \<mapsto> pr_route p), rt_pending := pending\<rparr>))"
    (is "route_inv associations (deliver ?n d ?s)")
proof -
  note i = route_invD [OF assms(1)]
  note ok = i(2) [OF assms(2)]
  have chan: "rt_channels ?s = rt_channels s" by simp
  have same: "list_all (\<lambda>e. in_udp_peer e = in_udp_peer d) (ch_sent (rt_channels ?s ?n))"
    using ok by (simp add: pending_ok_def)
  have use: "may_use associations ?n (in_udp_peer d)" using ok assms(3) by (simp add: may_use_def pending_ok_def)
  show ?thesis
  proof (rule route_invI)
    fix q assume "q \<in> set (rt_pending (deliver ?n d ?s))"
    then have q: "q \<in> set pending" by simp
    then have "pr_route q \<in> set (map pr_route pending)" by simp
    with assms(5) have "pr_route q \<noteq> ?n" by auto
    moreover have "pending_ok associations (rt_channels ?s) q" using i(2) q assms(4) by auto
    ultimately show "pending_ok associations (rt_channels (deliver ?n d ?s)) q" by (rule pending_ok_deliver [rotated])
  next
    fix q m assume r: "rt_routes (deliver ?n d ?s) q = Some m"
    show "routed_ok (rt_channels (deliver ?n d ?s)) q m"
    proof (cases "q = in_udp_peer d")
      case True
      with r routed_ok_deliver(2) [OF same] show ?thesis by simp
    next
      case False
      with r have "routed_ok (rt_channels ?s) q m" by (simp add: i(3))
      moreover from this ok have "m \<noteq> ?n" by (auto simp: routed_ok_def pending_ok_def)
      ultimately show ?thesis by (rule routed_ok_deliver(1) [rotated])
    qed
  next
    show "one_sender associations (rt_channels (deliver ?n d ?s)) m" for m
      by (rule one_sender_deliver [OF _ same use]) (simp add: i(4))
  qed (use assms(5) in simp)
qed

lemma offer_pending_inv:
  assumes "route_inv associations s" and "set pending \<union> set unmatched \<subseteq> set (rt_pending s)" and "distinct (map pr_route (pending @ unmatched))"
    and "offer_pending peer d pending unmatched s = Routed s'"
  shows "route_inv associations s'"
  using assms
proof (induction peer d pending unmatched s rule: offer_pending.induct)
  case (1 peer d unmatched s)
  then show ?case using route_inv_weaken [of associations s unmatched "rt_routes s"] by auto
next
  case (2 peer d p rest unmatched s)
  show ?case
  proof (cases "ch_closed (rt_channels s (pr_route p))")
    case True
    from 2(1) [OF refl True 2(3)] 2(4-6) True show ?thesis by (auto simp: Let_def)
  next
    case opened: False
    show ?thesis
    proof (cases "endpoint_matches (pr_requested_endpoint p) (pr_control_ip p) peer")
      case False
      from 2(2) [OF refl opened False 2(3)] 2(4-6) opened False show ?thesis by (auto simp: Let_def)
    next
      case True
      with 2(6) opened have s': "s' = deliver (pr_route p) \<lparr>in_udp_peer = peer, in_datagram = d\<rparr>
          (s\<lparr>rt_routes := (rt_routes s)(peer \<mapsto> pr_route p), rt_pending := rest @ unmatched\<rparr>)"
        by (auto simp: Let_def split: if_splits)
      show ?thesis
        unfolding s' using route_inv_first [OF 2(3), of p "\<lparr>in_udp_peer = peer, in_datagram = d\<rparr>" "rest @ unmatched"]
          2(4,5) True by simp
    qed
  qed
qed

lemma route_inv_routed:
  assumes "route_inv associations s" and "route_mixed_socks5_udp_datagram peer d s = Routed s'"
  shows "route_inv associations s'"
proof (cases "rt_routes s peer")
  case None
  with assms(2) have "offer_pending peer d (rt_pending s) [] s = Routed s'"
    by (simp add: route_mixed_socks5_udp_datagram_def)
  from offer_pending_inv [OF assms(1) _ _ this] route_invD(1) [OF assms(1)] show ?thesis by simp
next
  case (Some n)
  show ?thesis
  proof (cases "ch_closed (rt_channels s n)")
    case True
    let ?s = "s\<lparr>rt_routes := (rt_routes s)(peer := None)\<rparr>"
    have "route_inv associations (s\<lparr>rt_pending := rt_pending s, rt_routes := (rt_routes s)(peer := None)\<rparr>)"
      by (rule route_inv_weaken [OF assms(1) subset_refl route_invD(1) [OF assms(1)]]) (simp split: if_splits)
    then have i: "route_inv associations ?s" by simp
    have "offer_pending peer d (rt_pending s) [] ?s = Routed s'"
      using assms(2) Some True by (simp add: route_mixed_socks5_udp_datagram_def)
    from offer_pending_inv [OF i _ _ this] route_invD(1) [OF assms(1)] show ?thesis by simp
  next
    case False
    with assms(2) Some have "s' = deliver n \<lparr>in_udp_peer = peer, in_datagram = d\<rparr> s"
      by (simp add: route_mixed_socks5_udp_datagram_def split: if_splits)
    with route_inv_deliver [OF assms(1), of "\<lparr>in_udp_peer = peer, in_datagram = d\<rparr>" n] Some show ?thesis by simp
  qed
qed


section \<open>Facts on the loop\<close>

definition loop_inv :: "MixedLoop \<Rightarrow> bool" where
  "loop_inv s \<longleftrightarrow> route_inv (mx_associations s) (mx_routing s)"

text \<open>
  Every accepted connection is counted once as completed or failed, or still runs; \<open>extra\<close> are those
  in a handshake.
\<close>

definition ended_relays :: "MixedTcpLoopReport \<Rightarrow> u64" where
  "ended_relays r = ml_completed_tcp_relays r + ml_failed_tcp_relays r
     + ml_completed_udp_associations r + ml_failed_udp_associations r"

definition accounted :: "u64 \<Rightarrow> MixedLoop \<Rightarrow> bool" where
  "accounted extra s \<longleftrightarrow> ml_accepted_connections (mx_report s) =
     ended_relays (mx_report s) + of_nat (length (mx_tcp_relays s) + length (mx_udp_relays s)) + extra"

fun phase_ok :: "mixed_phase \<Rightarrow> bool" where
  "phase_ok (MixedReady s) = (loop_inv s \<and> accounted 0 s)"
| "phase_ok (MixedSending peer datagram s) = (loop_inv s \<and> accounted 0 s)"
| "phase_ok (MixedHandshaking s) = (loop_inv s \<and> accounted 1 s)"
| "phase_ok (MixedReturned r) = True"

lemmas record_defs = record_mixed_tcp_relay_def record_mixed_tcp_relay_error_def
  record_mixed_udp_relay_def record_mixed_udp_relay_error_def ended_relays_def

lemma ended_tcp_joined [simp]: "ended_relays (record_tcp_joined (Ok e) r) = ended_relays r + 1"
  by (cases e) (simp_all add: record_defs)

lemma ended_udp_joined [simp]: "ended_relays (record_udp_joined (Ok e) r) = ended_relays r + 1"
  by (cases e) (simp_all add: record_defs)

lemma accepted_tcp_joined [simp]: "ml_accepted_connections (record_tcp_joined j r) = ml_accepted_connections r"
  by (induction j r rule: record_tcp_joined.induct) (simp_all add: record_defs)

lemma accepted_udp_joined [simp]: "ml_accepted_connections (record_udp_joined j r) = ml_accepted_connections r"
  by (induction j r rule: record_udp_joined.induct) (simp_all add: record_defs)

lemma length_remove_at: "i < length xs \<Longrightarrow> length xs = Suc (length (remove_at i xs))"
  by (simp add: remove_at_def)

lemma update_report_fields [simp]:
  "mx_routing (update_report f s) = mx_routing s" "mx_associations (update_report f s) = mx_associations s"
  "mx_tcp_relays (update_report f s) = mx_tcp_relays s" "mx_udp_relays (update_report f s) = mx_udp_relays s"
  "mx_report (update_report f s) = f (mx_report s)"
  by (simp_all add: update_report_def)

lemma route_received_ok:
  assumes "loop_inv s" and "accounted 0 s"
  shows "phase_ok (route_received peer datagram s)"
proof (cases "route_mixed_socks5_udp_datagram peer datagram (mx_routing s)")
  case (Routed r)
  with assms route_inv_routed [of "mx_associations s" "mx_routing s" peer datagram r] show ?thesis
    by (simp add: route_received_def loop_inv_def accounted_def)
next
  case (RouteWaits r)
  have offer: "offer_pending q d pending unmatched t = RouteWaits t' \<Longrightarrow> rt_pending t' = rt_pending t
      \<and> rt_channels t' = rt_channels t \<and> rt_routes t' = rt_routes t" for q d pending unmatched t t'
    by (induction q d pending unmatched t rule: offer_pending.induct) (auto simp: Let_def split: if_splits)
  have "route_inv (mx_associations s) r"
  proof (rule route_invI)
    note i = route_invD [OF assms(1) [unfolded loop_inv_def]]
    from RouteWaits offer have f: "rt_pending r = rt_pending (mx_routing s)" "rt_channels r = rt_channels (mx_routing s)"
      "\<And>q n. rt_routes r q = Some n \<Longrightarrow> rt_routes (mx_routing s) q = Some n"
      by (force simp: route_mixed_socks5_udp_datagram_def split: option.splits if_splits)+
    show "distinct (map pr_route (rt_pending r))" using i(1) by (simp add: f)
    show "pending_ok (mx_associations s) (rt_channels r) p" if "p \<in> set (rt_pending r)" for p
      using i(2) that by (simp add: f)
    show "routed_ok (rt_channels r) q n" if "rt_routes r q = Some n" for q n
      using i(3) f(3) [OF that] by (simp add: f)
    show "one_sender (mx_associations s) (rt_channels r) n" for n using i(4) by (simp add: f)
  qed
  with RouteWaits assms show ?thesis by (simp add: route_received_def loop_inv_def accounted_def)
qed

lemma update_channel_ok:
  assumes "loop_inv s" and "accounted 0 s" and "\<And>ch. ch_sent (f ch) = ch_sent ch"
  shows "loop_inv (update_channel n f s) \<and> accounted 0 (update_channel n f s)"
proof -
  note i = route_invD [OF assms(1) [unfolded loop_inv_def]]
  let ?c = "rt_channels (mx_routing s)"
  have "ch_sent ((?c(n := f (?c n))) m) = ch_sent (?c m)" for m by (simp add: assms(3))
  then have c: "pending_ok a (?c(n := f (?c n))) p = pending_ok a ?c p" "routed_ok (?c(n := f (?c n))) q m = routed_ok ?c q m"
    "one_sender a (?c(n := f (?c n))) m = one_sender a ?c m" for a p q m
    by (simp_all only: pending_ok_def routed_ok_def one_sender_def)
  have "route_inv (mx_associations s) ((mx_routing s)\<lparr>rt_channels := ?c(n := f (?c n))\<rparr>)"
    using assms(1) by (simp add: loop_inv_def route_inv_def c list_all_iff del: fun_upd_apply)
  with assms show ?thesis by (simp add: update_channel_def loop_inv_def accounted_def)
qed

lemma may_use_append: "may_use associations n p \<Longrightarrow> may_use (associations @ [a]) n p"
  by (auto simp: may_use_def nth_append)

lemma spawn_relay_ok:
  assumes "loop_inv s" and "accounted 1 s"
  shows "loop_inv (spawn_relay relay s) \<and> accounted 0 (spawn_relay relay s)"
proof (cases relay)
  case (SpawnUdp control peer ep)
  note i = route_invD [OF assms(1) [unfolded loop_inv_def]]
  let ?a = "mx_associations s @ [(peer, ep)]" and ?n = "length (mx_associations s)"
  let ?p = "\<lparr>pr_control_ip = sa_ip peer, pr_requested_endpoint = ep, pr_route = ?n\<rparr>"
  let ?r = "(mx_routing s)\<lparr>rt_pending := rt_pending (mx_routing s) @ [?p]\<rparr>"
  have fresh: "ch_sent (rt_channels (mx_routing s) ?n) = []"
    using i(4) [of ?n] by (cases "ch_sent (rt_channels (mx_routing s) ?n)") (auto simp: one_sender_def may_use_def)
  have "route_inv ?a ?r"
  proof (rule route_invI)
    have "?n \<notin> pr_route ` set (rt_pending (mx_routing s))" using i(2) by (force simp: pending_ok_def)
    then show "distinct (map pr_route (rt_pending ?r))" using i(1) by simp
    show "pending_ok ?a (rt_channels ?r) p" if "p \<in> set (rt_pending ?r)" for p
      using that i(2) [of p] fresh by (auto simp: pending_ok_def nth_append)
    show "routed_ok (rt_channels ?r) q m" if "rt_routes ?r q = Some m" for q m using i(3) that by simp
    show "one_sender ?a (rt_channels ?r) m" for m
      using i(4) [of m] by (auto simp: one_sender_def list_all_iff intro: may_use_append)
  qed
  with assms(2) show ?thesis by (simp add: SpawnUdp spawn_relay_def Let_def loop_inv_def accounted_def)
qed (use assms in \<open>simp_all add: spawn_relay_def loop_inv_def accounted_def\<close>)

lemma spawn_or_handle_ok:
  "loop_inv s \<Longrightarrow> accounted 1 s \<Longrightarrow> phase_ok (spawn_or_handle_mixed_stream udp_local stream peer s)"
  using spawn_relay_ok
  by (auto simp: spawn_or_handle_mixed_stream_def loop_inv_def accounted_def record_defs split: handshake.split)

lemma tcp_relay_joined_ok:
  assumes "loop_inv s" and "accounted 0 s"
  shows "phase_ok (tcp_relay_joined i joined s)"
proof (cases "length (mx_tcp_relays s) \<le> i")
  case False
  then have "length (mx_tcp_relays s) = Suc (length (remove_at i (mx_tcp_relays s)))"
    by (simp add: length_remove_at)
  with False assms show ?thesis
    by (cases joined) (simp_all add: tcp_relay_joined_def loop_inv_def accounted_def)
qed (use assms in \<open>simp add: tcp_relay_joined_def\<close>)

lemma loop_inv_forget_route:
  "loop_inv s \<Longrightarrow> loop_inv (s\<lparr>mx_routing := (mx_routing s)\<lparr>rt_routes := (rt_routes (mx_routing s))(p := None)\<rparr>\<rparr>)"
  unfolding loop_inv_def by (rule route_invI) (auto dest: route_invD split: if_splits)

lemma udp_relay_joined_ok:
  assumes "loop_inv s" and "accounted 0 s"
  shows "phase_ok (udp_relay_joined i joined s)"
proof (cases "length (mx_udp_relays s) \<le> i \<or> \<not> ch_closed (rt_channels (mx_routing s) (mx_udp_relays s ! i))")
  case False
  then have l: "length (mx_udp_relays s) = Suc (length (remove_at i (mx_udp_relays s)))"
    by (simp add: length_remove_at)
  show ?thesis
  proof (cases joined)
    case (Ok ended)
    let ?s = "update_report (record_udp_joined joined) (s\<lparr>mx_udp_relays := remove_at i (mx_udp_relays s)\<rparr>)"
    have "loop_inv ?s" "accounted 0 ?s" using assms l by (simp_all add: loop_inv_def accounted_def Ok)
    then show ?thesis using False loop_inv_forget_route [of ?s]
      by (cases ended) (simp_all add: udp_relay_joined_def Ok Let_def accounted_def)
  qed (use False in \<open>simp add: udp_relay_joined_def\<close>)
qed (use assms in \<open>simp add: udp_relay_joined_def\<close>)

lemma mixed_ready_step_ok:
  assumes "loop_inv s" and "accounted 0 s"
  shows "phase_ok (mixed_ready_step e s)"
proof (cases "(e, s)" rule: mixed_ready_step.cases)
  case (7 local_stream local_peer udp_local)
  have "loop_inv (update_report (\<lambda>r. r\<lparr>ml_accepted_connections := ml_accepted_connections r + 1\<rparr>) s)"
    "accounted 1 (update_report (\<lambda>r. r\<lparr>ml_accepted_connections := ml_accepted_connections r + 1\<rparr>) s)"
    using assms by (simp_all add: loop_inv_def accounted_def ended_relays_def)
  then show ?thesis using 7 by (simp add: spawn_or_handle_ok)
qed (use assms in \<open>auto simp: tcp_relay_joined_ok udp_relay_joined_ok route_received_ok update_channel_ok\<close>)

lemma mixed_step_ok: "phase_ok ph \<Longrightarrow> phase_ok (mixed_step e ph)"
proof (cases ph)
  case (MixedSending peer datagram s)
  assume "phase_ok ph"
  then have "phase_ok (mixed_ready_step e s)" by (simp add: MixedSending mixed_ready_step_ok)
  with \<open>phase_ok ph\<close> show ?thesis
    by (auto simp: MixedSending route_received_ok split: mixed_event.split mixed_phase.split)
qed (simp_all add: mixed_ready_step_ok)

lemma run_mixed_loop_ok: "phase_ok (run_mixed_loop events)"
proof -
  have "phase_ok (fold mixed_step events ph)" if "phase_ok ph" for ph
    using that by (induction events arbitrary: ph) (simp_all add: mixed_step_ok)
  moreover have "phase_ok (MixedReady mixed_start)"
    by (simp add: mixed_start_def loop_inv_def route_inv_def one_sender_def accounted_def channel_new_def
        MixedTcpLoopReport_default_def ended_relays_def)
  ultimately show ?thesis by (simp add: run_mixed_loop_def)
qed

section \<open>What an association sends\<close>

fun inbound :: "'c socks5_assoc_event list \<Rightarrow> Socks5UdpInboundDatagram list" where
  "inbound [] = []"
| "inbound (Incoming (Some received) r # events) = received # inbound events"
| "inbound (_ # events) = inbound events"

definition requested :: "Socks5UdpInboundDatagram \<Rightarrow> (OwnedProxyHeader \<times> bytes) option" where
  "requested d =
     (case decode_socks5_udp_datagram (in_datagram d) of
        Ok request \<Rightarrow> Some (forward_header Udp (sd_target request), sd_payload request)
      | Err _ \<Rightarrow> None)"

definition first_peer :: "'c socks5_assoc_event list \<Rightarrow> SocketAddr option" where
  "first_peer events = (case inbound events of [] \<Rightarrow> None | d # _ \<Rightarrow> Some (in_udp_peer d))"

definition stream_matches_target :: "UdpAssociation \<Rightarrow> bool" where
  "stream_matches_target s \<longleftrightarrow>
     (case ua_stream s of
        None \<Rightarrow> ua_current_target s = None
      | Some stream \<Rightarrow> map_option (forward_header Udp) (ua_current_target s) = Some (us_header stream))"

definition association_inv :: "'c socks5_assoc_event list \<Rightarrow> UdpAssociation \<Rightarrow> bool" where
  "association_inv events s \<longleftrightarrow> stream_matches_target s
     \<and> ua_first_udp_peer s = first_peer events
     \<and> map Some (ua_sent s) = map requested (filter (\<lambda>d. Some (in_udp_peer d) = first_peer events) (inbound events))
     \<and> map (Some \<circ> fst) (ua_replies s) = replicate (length (ua_sent s)) (first_peer events)"

lemma inbound_snoc: "inbound (events @ [e]) = inbound events @ inbound [e]"
  by (induction events rule: inbound.induct) simp_all

lemma stream_for_Ok:
  assumes "stream_for net c target s = Ok s'" and "stream_matches_target s"
  shows "\<exists>stream. ua_stream s' = Some stream \<and> us_header stream = forward_header Udp target
    \<and> ua_current_target s' = Some target \<and> ua_first_udp_peer s' = ua_first_udp_peer s
    \<and> ua_sent s' = ua_sent s \<and> ua_replies s' = ua_replies s"
proof (cases "ua_current_target s = Some target")
  case True
  with assms show ?thesis by (auto simp: stream_for_def stream_matches_target_def split: option.splits)
next
  case False
  with assms(1) show ?thesis by (auto simp: stream_for_def result_simps open_udp_stream_Ok)
qed

lemma relay_inbound_Running:
  assumes "relay_inbound c control_peer r received s = AssocRunning s'" and "stream_matches_target s"
  shows "stream_matches_target s' \<and> ua_first_udp_peer s' = ua_first_udp_peer s
    \<and> (\<exists>frame encoded. requested received = Some frame \<and> ua_sent s' = ua_sent s @ [frame]
         \<and> ua_replies s' = ua_replies s @ [(in_udp_peer received, encoded)])"
proof -
  from assms(1) obtain request s1 stream send where req: "decode_socks5_udp_datagram (in_datagram received) = Ok request"
    and s1: "stream_for (ar_net r) c (sd_target request) s = Ok s1" and st: "ua_stream s1 = Some stream"
    and aw: "await_response control_peer r (in_udp_peer received) (length (sd_payload request)) (stream\<lparr>us_send := send\<rparr>)
        (s1\<lparr>ua_stream := Some (stream\<lparr>us_send := send\<rparr>),
            ua_sent := ua_sent s1 @ [(us_header stream, sd_payload request)]\<rparr>) = AssocRunning s'"
    by (auto simp: relay_inbound_def Let_def split: result.splits option.splits prod.splits)
  from stream_for_Ok [OF s1 assms(2)] st have f: "us_header stream = forward_header Udp (sd_target request)"
    "ua_current_target s1 = Some (sd_target request)" "ua_first_udp_peer s1 = ua_first_udp_peer s"
    "ua_sent s1 = ua_sent s" "ua_replies s1 = ua_replies s" by auto
  from aw obtain response recv encoded where
    "ua_stream s' = Some (stream\<lparr>us_send := send, us_recv := recv\<rparr>)" "ua_current_target s' = ua_current_target s1"
    "ua_first_udp_peer s' = ua_first_udp_peer s1" "ua_sent s' = ua_sent s1 @ [(us_header stream, sd_payload request)]"
    "ua_replies s' = ua_replies s1 @ [(in_udp_peer received, encoded)]"
    by (auto simp: await_response_def control_read_def association_break_def result_simps
        split: response_wait.splits result.splits prod.splits if_splits)
  with f req show ?thesis by (simp add: stream_matches_target_def requested_def)
qed

lemma association_inv_step:
  assumes "association_inv events s" and "association_step c control_peer e s = AssocRunning s'"
  shows "association_inv (events @ [e]) s'"
proof (cases "(c, control_peer, e, s)" rule: association_step.cases)
  case (3 c control_peer received r s2)
  then have e: "e = Incoming (Some received) r" and i: "inbound (events @ [e]) = inbound events @ [received]"
    by (simp_all add: inbound_snoc)
  show ?thesis
  proof (cases "first_peer events")
    case None
    then have n: "inbound events = []" by (simp add: first_peer_def split: list.splits)
    with assms(1) None have s: "stream_matches_target s" "ua_first_udp_peer s = None" "ua_sent s = []" "ua_replies s = []"
      by (auto simp: association_inv_def)
    let ?s = "s\<lparr>ua_first_udp_peer := Some (in_udp_peer received)\<rparr>"
    have "relay_inbound c control_peer r received ?s = AssocRunning s'" using assms(2) 3 e s(2) by simp
    moreover have "stream_matches_target ?s"
      using s(1) by (simp add: stream_matches_target_def split: option.splits)
    ultimately show ?thesis
      using relay_inbound_Running [of c control_peer r received ?s s'] s
      by (auto simp: association_inv_def i n first_peer_def)
  next
    case (Some p)
    then have f: "first_peer (events @ [e]) = Some p"
      by (auto simp: first_peer_def i split: list.splits)
    from assms(1) Some have p: "ua_first_udp_peer s = Some p" by (simp add: association_inv_def)
    show ?thesis
    proof (cases "p = in_udp_peer received")
      case True
      then have "relay_inbound c control_peer r received s = AssocRunning s'" using assms(2) 3 e p by simp
      from relay_inbound_Running [OF this] assms(1) True Some f show ?thesis
        by (auto simp: association_inv_def i replicate_append_same [symmetric])
    next
      case False
      then have "s' = s" using assms(2) 3 e p by simp
      with assms(1) Some f False show ?thesis by (simp add: association_inv_def i)
    qed
  qed
qed (use assms in \<open>auto simp: control_read_def association_break_def split: result.splits if_splits\<close>)

lemma association_inv_run:
  "run_association c control_peer events s = AssocRunning s' \<Longrightarrow> association_inv before s \<Longrightarrow>
     association_inv (before @ events) s'"
proof (induction events arbitrary: s before)
  case (Cons e events)
  from Cons(2) obtain s1 where s1: "association_step c control_peer e s = AssocRunning s1"
    "run_association c control_peer events s1 = AssocRunning s'"
    by (auto split: association_end.splits)
  from Cons(1) [OF s1(2) association_inv_step [OF Cons(3) s1(1)]] show ?case by simp
qed simp

section \<open>Properties\<close>

text \<open>
  C5: the mixed listener never mixes up UDP clients. In every state the loop reaches, the datagrams
  handed to a SOCKS5 association all come from one UDP peer, whose address matches the control
  connection of that association and the endpoint it asked for.
\<close>

theorem mixed_udp_clients_isolated:
  assumes "run_mixed_loop events = MixedReady s \<or> run_mixed_loop events = MixedSending peer datagram s"
  shows "one_sender (mx_associations s) (rt_channels (mx_routing s)) n"
proof -
  have "loop_inv s" using run_mixed_loop_ok [of events] assms by auto
  then show ?thesis by (simp add: loop_inv_def route_invD)
qed

definition demo_associate :: LocalStream where
  "demo_associate =
     \<lparr>ls_input = [5, 1, 0, 5, 3, 0, 1, 0, 0, 0, 0, 0, 0], ls_end = LocalSilent, ls_output = [], ls_write_error = None\<rparr>"

abbreviation demo_client :: SocketAddr where
  "demo_client \<equiv> \<lparr>sa_ip = V4 9, sa_port = 1000\<rparr>"

abbreviation demo_udp_client :: SocketAddr where
  "demo_udp_client \<equiv> \<lparr>sa_ip = V4 9, sa_port = 2000\<rparr>"

lemma dispatch_demo_associate:
  "\<exists>s. dispatch_mixed_stream (Ok demo_client) demo_client demo_associate
     = Got (SpawnUdp s demo_client \<lparr>ep_ip = None, ep_port = 0\<rparr>)"
  by (simp add: dispatch_mixed_stream_def peek_def demo_associate_def from_peeked_byte_def dispatch_socks5_def
      io_then_def read_socks5_greeting_def stream_read_exact_def stream_write_all_def read_socks5_request_header_def io_ok_def
      validate_socks5_command_and_address_type_def read_socks5_udp_client_endpoint_def read_network_port_def
      specified_ip_def io_result_def write_socks5_success_response_def from_be_bytes_def)


lemma demo_mixed_run:
  "\<exists>s. run_mixed_loop [AcceptedStream (Ok (demo_associate, demo_client)) (Ok demo_client),
        UdpReceived (Ok ([1], demo_udp_client))] = MixedReady s
     \<and> mx_associations s = [(demo_client, \<lparr>ep_ip = None, ep_port = 0\<rparr>)]
     \<and> rt_channels (mx_routing s) 0 =
         \<lparr>ch_sent = [\<lparr>in_udp_peer = demo_udp_client, in_datagram = [1]\<rparr>], ch_taken = 0, ch_closed = False\<rparr>
     \<and> rt_routes (mx_routing s) demo_udp_client = Some 0
     \<and> mx_report s = MixedTcpLoopReport_default\<lparr>ml_accepted_connections := 1\<rparr>
     \<and> mx_tcp_relays s = [] \<and> mx_udp_relays s = [0]"
  using dispatch_demo_associate
  by (auto simp: run_mixed_loop_def spawn_or_handle_mixed_stream_def spawn_relay_def Let_def mixed_start_def
      update_report_def route_received_def route_mixed_socks5_udp_datagram_def endpoint_matches_def channel_full_def
      CHANNEL_CAPACITY_def channel_new_def deliver_def MixedTcpLoopReport_default_def)

theorem mixed_udp_clients_isolated_witness:
  "\<exists>s. run_mixed_loop [AcceptedStream (Ok (demo_associate, demo_client)) (Ok demo_client),
        UdpReceived (Ok ([1], demo_udp_client))] = MixedReady s
     \<and> ch_sent (rt_channels (mx_routing s) 0) = [\<lparr>in_udp_peer = demo_udp_client, in_datagram = [1]\<rparr>]
     \<and> one_sender (mx_associations s) (rt_channels (mx_routing s)) 0"
proof -
  obtain s where s: "run_mixed_loop [AcceptedStream (Ok (demo_associate, demo_client)) (Ok demo_client),
        UdpReceived (Ok ([1], demo_udp_client))] = MixedReady s"
    and c: "ch_sent (rt_channels (mx_routing s) 0) = [\<lparr>in_udp_peer = demo_udp_client, in_datagram = [1]\<rparr>]"
    using demo_mixed_run by auto
  from mixed_udp_clients_isolated [OF disjI1 [OF s], of 0] s c show ?thesis by blast
qed


definition demo_inbound :: Socks5UdpInboundDatagram where
  "demo_inbound = \<lparr>in_udp_peer = demo_udp_client,
     in_datagram = [0, 0, 0] @ socks5_address (TargetIp \<lparr>sa_ip = V4 7, sa_port = 53\<rparr>) @ [8]\<rparr>"

lemma decode_demo_inbound [simp]:
  "decode_socks5_udp_datagram (in_datagram demo_inbound) =
     Ok \<lparr>sd_target = TargetIp \<lparr>sa_ip = V4 7, sa_port = 53\<rparr>, sd_payload = [8]\<rparr>"
  using decode_socks5_address [of "TargetIp \<lparr>sa_ip = V4 7, sa_port = 53\<rparr>" "[8]"] by (simp add: demo_inbound_def)

definition demo_assoc_round :: "nat assoc_round" where
  "demo_assoc_round = \<lparr>ar_net = demo_dial_net, ar_wait = ResponseFirst, ar_send_to = Ok ()\<rparr>"


definition join_errors :: "mixed_drained \<Rightarrow> nat" where
  "join_errors d =
     length (filter (\<lambda>j. case j of Err _ \<Rightarrow> True | Ok _ \<Rightarrow> False) (dr_tcp_graceful d @ dr_tcp_aborted d))
     + length (filter (\<lambda>j. case j of Err _ \<Rightarrow> True | Ok _ \<Rightarrow> False) (dr_udp_graceful d @ dr_udp_aborted d))"

lemma fold_tcp_joined:
  "ml_accepted_connections (fold record_tcp_joined js r) = ml_accepted_connections r"
  "ended_relays (fold record_tcp_joined js r)
     + of_nat (length (filter (\<lambda>j. case j of Err _ \<Rightarrow> True | Ok _ \<Rightarrow> False) js)) = ended_relays r + of_nat (length js)"
proof (induction js arbitrary: r)
  case (Cons j js)
  case 1 show ?case using Cons(1) by simp
  case 2 show ?case using Cons(2) [of "record_tcp_joined j r"] by (cases j) (simp_all add: algebra_simps)
qed simp_all

lemma fold_udp_joined:
  "ml_accepted_connections (fold record_udp_joined js r) = ml_accepted_connections r"
  "ended_relays (fold record_udp_joined js r)
     + of_nat (length (filter (\<lambda>j. case j of Err _ \<Rightarrow> True | Ok _ \<Rightarrow> False) js)) = ended_relays r + of_nat (length js)"
proof (induction js arbitrary: r)
  case (Cons j js)
  case 1 show ?case using Cons(1) by simp
  case 2 show ?case using Cons(2) [of "record_udp_joined j r"] by (cases j) (simp_all add: algebra_simps)
qed simp_all

text \<open>
  C22: the counters of the mixed loop account for every connection. At each turn the accepted
  connections are those completed, those failed and those still running; and the report after a
  shutdown, in which every running relay has joined, misses exactly the relays that were cancelled
  or panicked.
\<close>

theorem mixed_loop_accounts_for_connections:
  assumes "run_mixed_loop events = MixedReady s"
  shows "ml_accepted_connections (mx_report s) =
      ended_relays (mx_report s) + of_nat (length (mx_tcp_relays s) + length (mx_udp_relays s))
    \<and> (length (dr_tcp_graceful d) + length (dr_tcp_aborted d) = length (mx_tcp_relays s) \<longrightarrow>
       length (dr_udp_graceful d) + length (dr_udp_aborted d) = length (mx_udp_relays s) \<longrightarrow>
       (\<exists>report. run_mixed_loop (events @ [MixedShutdown d]) = MixedReturned (Ok report)
          \<and> ml_accepted_connections report = ended_relays report + of_nat (join_errors d)))"
proof -
  let ?report = "drain_completed_mixed_relays_after_shutdown d (mx_report s)"
  have a: "ml_accepted_connections (mx_report s) =
      ended_relays (mx_report s) + of_nat (length (mx_tcp_relays s) + length (mx_udp_relays s))"
    using run_mixed_loop_ok [of events] assms by (simp add: accounted_def)
  have "ended_relays ?report + of_nat (join_errors d) = ended_relays (mx_report s)
      + of_nat (length (dr_tcp_graceful d) + length (dr_tcp_aborted d))
      + of_nat (length (dr_udp_graceful d) + length (dr_udp_aborted d))"
    by (simp add: drain_completed_mixed_relays_after_shutdown_def drain_gracefully_completed_mixed_tcp_relays_def
        drain_gracefully_completed_mixed_udp_relays_def join_errors_def
        fold_tcp_joined(2) [unfolded eq_diff_eq [symmetric]] fold_udp_joined(2) [unfolded eq_diff_eq [symmetric]])
  moreover have "ml_accepted_connections ?report = ml_accepted_connections (mx_report s)"
    by (simp add: drain_completed_mixed_relays_after_shutdown_def drain_gracefully_completed_mixed_tcp_relays_def
        drain_gracefully_completed_mixed_udp_relays_def fold_tcp_joined fold_udp_joined)
  moreover have "run_mixed_loop (events @ [MixedShutdown d]) = MixedReturned (Ok ?report)"
    using assms by (simp add: run_mixed_loop_def)
  ultimately show ?thesis using a by (simp del: of_nat_add) simp
qed

theorem mixed_loop_accounts_for_connections_witness:
  "\<exists>report. run_mixed_loop [AcceptedStream (Ok (demo_associate, demo_client)) (Ok demo_client),
        UdpReceived (Ok ([1], demo_udp_client)),
        MixedShutdown \<lparr>dr_tcp_graceful = [], dr_udp_graceful = [], dr_tcp_aborted = [],
          dr_udp_aborted = [Err JoinCancelled]\<rparr>] = MixedReturned (Ok report)
     \<and> ml_accepted_connections report = ended_relays report + 1"
proof -
  obtain s where s: "run_mixed_loop [AcceptedStream (Ok (demo_associate, demo_client)) (Ok demo_client),
        UdpReceived (Ok ([1], demo_udp_client))] = MixedReady s" "mx_tcp_relays s = []" "mx_udp_relays s = [0]"
    using demo_mixed_run by auto
  from mixed_loop_accounts_for_connections [OF s(1), of "\<lparr>dr_tcp_graceful = [], dr_udp_graceful = [],
      dr_tcp_aborted = [], dr_udp_aborted = [Err JoinCancelled]\<rparr>"] s(2,3)
  show ?thesis by (simp add: join_errors_def)
qed

text \<open>
  C37: a local connection can hold up the mixed listener. The first byte and the SOCKS5 handshake
  are read inside the accept loop, without a timeout: a program that connects and sends nothing, or
  nothing after the byte 5, leaves the loop in that read, whatever else happens, the shutdown included.
\<close>

theorem silent_connection_blocks_mixed_loop:
  assumes "run_mixed_loop before = MixedReady s"
    and "ls_end stream = LocalSilent" and "ls_input stream = [] \<or> ls_input stream = [5]"
  shows "\<exists>s'. run_mixed_loop (before @ AcceptedStream (Ok (stream, local_peer)) udp_local # later) = MixedHandshaking s'"
proof -
  have "dispatch_mixed_stream udp_local local_peer stream = Waiting"
    using assms(2,3)
    by (auto simp: dispatch_mixed_stream_def peek_def from_peeked_byte_def dispatch_socks5_def io_then_def
        read_socks5_greeting_def stream_read_exact_def)
  moreover have "fold mixed_step later (MixedHandshaking s') = MixedHandshaking s'" for s'
    by (induction later) simp_all
  ultimately show ?thesis using assms(1)
    by (simp add: run_mixed_loop_def spawn_or_handle_mixed_stream_def)
qed

theorem silent_connection_blocks_mixed_loop_witness:
  "\<exists>s'. run_mixed_loop [AcceptedStream (Ok (\<lparr>ls_input = [], ls_end = LocalSilent, ls_output = [],
          ls_write_error = None\<rparr>, demo_client)) (Ok demo_client),
        MixedShutdown \<lparr>dr_tcp_graceful = [], dr_udp_graceful = [], dr_tcp_aborted = [], dr_udp_aborted = []\<rparr>]
      = MixedHandshaking s'"
proof -
  have "run_mixed_loop [] = MixedReady mixed_start" by (simp add: run_mixed_loop_def)
  from silent_connection_blocks_mixed_loop [OF this, of "\<lparr>ls_input = [], ls_end = LocalSilent, ls_output = [],
          ls_write_error = None\<rparr>" demo_client "Ok demo_client"
        "[MixedShutdown \<lparr>dr_tcp_graceful = [], dr_udp_graceful = [], dr_tcp_aborted = [], dr_udp_aborted = []\<rparr>]"]
  show ?thesis by simp
qed

text \<open>
  C38: a UDP target that does not answer can hold up the mixed listener. Its association takes no
  datagram while it waits for the reply, so the channel to it fills up; the datagram after the 32nd
  that waits there leaves the loop in the send, and until the association moves nothing else is
  handled, neither new connections nor the shutdown.
\<close>

fun moves_channel :: "mixed_event \<Rightarrow> bool" where
  "moves_channel (AssociationTakes _) = True"
| "moves_channel (AssociationCloses _) = True"
| "moves_channel _ = False"

lemma sending_stays:
  "list_all (\<lambda>e. \<not> moves_channel e) later \<Longrightarrow>
     fold mixed_step later (MixedSending p d s) = MixedSending p d s"
  by (induction later) (auto split: mixed_event.split)

theorem full_channel_blocks_mixed_loop:
  assumes "run_mixed_loop before = MixedReady s"
    and "rt_routes (mx_routing s) peer = Some n" and "\<not> ch_closed (rt_channels (mx_routing s) n)"
    and "length (ch_sent (rt_channels (mx_routing s) n)) + length datagrams
      = ch_taken (rt_channels (mx_routing s) n) + 32"
    and "list_all (\<lambda>e. \<not> moves_channel e) later"
  shows "\<exists>s'. run_mixed_loop (before @ map (\<lambda>d. UdpReceived (Ok (d, peer))) datagrams
      @ UdpReceived (Ok (datagram, peer)) # later) = MixedSending peer (take 65535 datagram) s'"
proof -
  have "\<exists>s'. fold mixed_step (map (\<lambda>d. UdpReceived (Ok (d, peer))) datagrams @ UdpReceived (Ok (datagram, peer)) # later)
      (MixedReady s) = MixedSending peer (take 65535 datagram) s'"
    using assms(2-4)
  proof (induction datagrams arbitrary: s)
    case Nil
    then have "route_mixed_socks5_udp_datagram peer (take 65535 datagram) (mx_routing s) = RouteWaits (mx_routing s)"
      by (simp add: route_mixed_socks5_udp_datagram_def channel_full_def CHANNEL_CAPACITY_def)
    then show ?case by (simp add: route_received_def sending_stays [OF assms(5)])
  next
    case (Cons d ds)
    let ?r = "deliver n \<lparr>in_udp_peer = peer, in_datagram = take 65535 d\<rparr> (mx_routing s)"
    have "route_mixed_socks5_udp_datagram peer (take 65535 d) (mx_routing s) = Routed ?r"
      using Cons(2-4) by (simp add: route_mixed_socks5_udp_datagram_def channel_full_def CHANNEL_CAPACITY_def)
    moreover have "\<not> ch_closed (rt_channels ?r n)" "ch_taken (rt_channels ?r n) = ch_taken (rt_channels (mx_routing s) n)"
      using Cons(3) by (simp_all add: deliver_def)
    ultimately show ?case
      using Cons(1) [of "s\<lparr>mx_routing := ?r\<rparr>"] Cons(2-4) by (simp add: route_received_def sent_deliver)
  qed
  with assms(1) show ?thesis by (simp add: run_mixed_loop_def)
qed

theorem full_channel_blocks_mixed_loop_witness:
  "\<exists>s'. run_mixed_loop ([AcceptedStream (Ok (demo_associate, demo_client)) (Ok demo_client),
        UdpReceived (Ok ([1], demo_udp_client))]
      @ map (\<lambda>d. UdpReceived (Ok (d, demo_udp_client))) (replicate 31 [2])
      @ UdpReceived (Ok ([3], demo_udp_client))
      # [MixedShutdown \<lparr>dr_tcp_graceful = [], dr_udp_graceful = [], dr_tcp_aborted = [], dr_udp_aborted = []\<rparr>])
    = MixedSending demo_udp_client [3] s'"
proof -
  obtain s where s: "run_mixed_loop [AcceptedStream (Ok (demo_associate, demo_client)) (Ok demo_client),
        UdpReceived (Ok ([1], demo_udp_client))] = MixedReady s" "rt_routes (mx_routing s) demo_udp_client = Some 0"
    and c: "rt_channels (mx_routing s) 0 =
      \<lparr>ch_sent = [\<lparr>in_udp_peer = demo_udp_client, in_datagram = [1]\<rparr>], ch_taken = 0, ch_closed = False\<rparr>"
    using demo_mixed_run by auto
  from full_channel_blocks_mixed_loop [OF s, of "replicate 31 [2]"
      "[MixedShutdown \<lparr>dr_tcp_graceful = [], dr_udp_graceful = [], dr_tcp_aborted = [], dr_udp_aborted = []\<rparr>]" "[3]"]
  show ?thesis by (simp add: c del: replicate.simps map_replicate)
qed

end
