(* ===== verification/Tls.thy ===== *)
theory Tls
  imports Auth
begin

text \<open>
  TLS configuration and certificate verification, from \<^verbatim>\<open>crates/zuicity-transport/src/tls_config.rs\<close>
  and \<^verbatim>\<open>tls_verify.rs\<close>, and the client endpoint of \<^verbatim>\<open>lib.rs\<close> that connects with them and then
  authenticates. What rustls, webpki and the PEM reader do is an argument; which verifier a
  configuration installs, what the repository's own verifiers accept, and the order of the steps of
  a connect are modelled. Proved: a connection made with a pin is a connection to the pinned chain, and
  one made with roots and without \<^verbatim>\<open>allow_insecure\<close> is to a chain those roots vouch for.
\<close>

section \<open>Verifiers\<close>

type_synonym CertificateDer = bytes

text \<open>
  The libraries: SHA-256, the PEM reader, making a trust anchor of a certificate, the bundled roots,
  path validation of a chain for a name, and the check that a key fits a certificate.
\<close>

record TlsLibs =
  tl_sha256 :: "bytes \<Rightarrow> bytes"
  tl_pem_certs :: "bytes \<Rightarrow> (CertificateDer list, IoError) result"
  tl_pem_private_key :: "bytes \<Rightarrow> (bytes option, IoError) result"
  tl_trust_anchor :: "CertificateDer \<Rightarrow> (CertificateDer, string) result"
  tl_webpki_roots :: "CertificateDer list"
  tl_verify_path :: "CertificateDer list \<Rightarrow> CertificateDer list \<Rightarrow> string \<Rightarrow> (unit, string) result"
  tl_single_cert :: "CertificateDer list \<Rightarrow> bytes \<Rightarrow> (unit, string) result"

datatype ServerCertVerifier =
    NoCertificateVerification
  | PinnedCertChainVerification bytes
  | PinnedLeafSha256Verification bytes
  | WebPkiVerification "CertificateDer list"

fun verify_server_cert ::
    "TlsLibs \<Rightarrow> ServerCertVerifier \<Rightarrow> CertificateDer \<Rightarrow> CertificateDer list \<Rightarrow> string \<Rightarrow> (unit, string) result" where
  "verify_server_cert libs NoCertificateVerification end_entity intermediates server_name = Ok ()"
| "verify_server_cert libs (PinnedCertChainVerification pinned_hash) end_entity intermediates server_name =
     and_then
       (ok_or (generate_cert_chain_hash (tl_sha256 libs) (end_entity # intermediates)) ''empty certificate chain'')
       (\<lambda>chain_hash.
         if chain_hash = pinned_hash then Ok () else Err ''pinned hash of cert chain does not match'')"
| "verify_server_cert libs (PinnedLeafSha256Verification pinned_hash) end_entity intermediates server_name =
     (if tl_sha256 libs end_entity = pinned_hash then Ok () else Err ''pinned leaf SHA256 does not match'')"
| "verify_server_cert libs (WebPkiVerification roots) end_entity intermediates server_name =
     tl_verify_path libs roots (end_entity # intermediates) server_name"

section \<open>Configurations\<close>

definition ALPN_H3 :: bytes where "ALPN_H3 = as_bytes ''h3''"

record ClientCrypto =
  cy_verifier :: ServerCertVerifier
  cy_alpn_protocols :: "bytes list"

record ServerCrypto =
  sy_cert_chain :: "CertificateDer list"
  sy_key :: bytes
  sy_alpn_protocols :: "bytes list"

definition parse_certificates :: "TlsLibs \<Rightarrow> bytes \<Rightarrow> (CertificateDer list, TransportError) result" where
  "parse_certificates libs pem =
     and_then (map_err Io (tl_pem_certs libs pem)) (\<lambda>certs.
     if certs = [] then Err NoCertificates else Ok certs)"

definition parse_private_key :: "TlsLibs \<Rightarrow> bytes \<Rightarrow> (bytes, TransportError) result" where
  "parse_private_key libs pem =
     and_then (map_err Io (tl_pem_private_key libs pem)) (\<lambda>key. ok_or key NoPrivateKey)"

fun add_roots :: "TlsLibs \<Rightarrow> CertificateDer list \<Rightarrow> CertificateDer list \<Rightarrow> (CertificateDer list, TransportError) result" where
  "add_roots libs [] roots = Ok roots"
| "add_roots libs (cert # certs) roots =
     and_then (map_err Rustls (tl_trust_anchor libs cert)) (\<lambda>root. add_roots libs certs (roots @ [root]))"

definition parse_root_store :: "TlsLibs \<Rightarrow> bytes \<Rightarrow> (CertificateDer list, TransportError) result" where
  "parse_root_store libs pem = and_then (parse_certificates libs pem) (\<lambda>certs. add_roots libs certs [])"

definition build_server_crypto_config_from_pem ::
    "TlsLibs \<Rightarrow> bytes \<Rightarrow> bytes \<Rightarrow> (ServerCrypto, TransportError) result" where
  "build_server_crypto_config_from_pem libs cert_pem key_pem =
     and_then (parse_certificates libs cert_pem) (\<lambda>cert_chain.
     and_then (parse_private_key libs key_pem) (\<lambda>key.
     and_then (map_err Rustls (tl_single_cert libs cert_chain key)) (\<lambda>_.
     Ok \<lparr>sy_cert_chain = cert_chain, sy_key = key, sy_alpn_protocols = [ALPN_H3]\<rparr>)))"

definition build_client_crypto_config_with_roots ::
    "TlsLibs \<Rightarrow> bytes \<Rightarrow> bool \<Rightarrow> (ClientCrypto, TransportError) result" where
  "build_client_crypto_config_with_roots libs roots_pem allow_insecure =
     and_then
       (if allow_insecure then Ok NoCertificateVerification
        else
          and_then (if roots_pem = [] then Ok (tl_webpki_roots libs) else parse_root_store libs roots_pem)
            (\<lambda>roots. Ok (WebPkiVerification roots)))
       (\<lambda>verifier. Ok \<lparr>cy_verifier = verifier, cy_alpn_protocols = [ALPN_H3]\<rparr>)"

definition build_client_crypto_config_with_webpki_roots ::
    "TlsLibs \<Rightarrow> bool \<Rightarrow> (ClientCrypto, TransportError) result" where
  "build_client_crypto_config_with_webpki_roots libs allow_insecure =
     Ok \<lparr>cy_verifier =
           (if allow_insecure then NoCertificateVerification else WebPkiVerification (tl_webpki_roots libs)),
         cy_alpn_protocols = [ALPN_H3]\<rparr>"

definition build_client_crypto_config_with_cert_chain_pin :: "bytes \<Rightarrow> (ClientCrypto, TransportError) result" where
  "build_client_crypto_config_with_cert_chain_pin pinned_cert_chain_sha256 =
     Ok \<lparr>cy_verifier = PinnedCertChainVerification pinned_cert_chain_sha256, cy_alpn_protocols = [ALPN_H3]\<rparr>"

text \<open>The Quinn configurations; \<open>linux\<close> is the argument of \<^const>\<open>build_transport_config\<close>.\<close>

record QuicClientConfig =
  qcc_crypto :: ClientCrypto
  qcc_transport :: BuiltTransportConfig
  qcc_policy :: QuicRuntimePolicy

record QuicServerConfig =
  qsc_crypto :: ServerCrypto
  qsc_transport :: BuiltTransportConfig
  qsc_policy :: QuicRuntimePolicy

definition quic_client_config :: "bool \<Rightarrow> QuicRuntimePolicy \<Rightarrow> ClientCrypto \<Rightarrow> QuicClientConfig" where
  "quic_client_config linux policy crypto =
     \<lparr>qcc_crypto = crypto, qcc_transport = build_transport_config linux policy, qcc_policy = policy\<rparr>"

definition build_client_config_with_roots_and_policy ::
    "TlsLibs \<Rightarrow> bool \<Rightarrow> bytes \<Rightarrow> bool \<Rightarrow> QuicRuntimePolicy \<Rightarrow> (QuicClientConfig, TransportError) result" where
  "build_client_config_with_roots_and_policy libs linux roots_pem allow_insecure policy =
     and_then (build_client_crypto_config_with_roots libs roots_pem allow_insecure) (\<lambda>crypto.
     Ok (quic_client_config linux policy crypto))"

definition build_client_config_with_roots ::
    "TlsLibs \<Rightarrow> bool \<Rightarrow> bytes \<Rightarrow> bool \<Rightarrow> (QuicClientConfig, TransportError) result" where
  "build_client_config_with_roots libs linux roots_pem allow_insecure =
     build_client_config_with_roots_and_policy libs linux roots_pem allow_insecure upstream_client"

definition build_client_config_with_webpki_roots ::
    "TlsLibs \<Rightarrow> bool \<Rightarrow> bool \<Rightarrow> QuicRuntimePolicy \<Rightarrow> (QuicClientConfig, TransportError) result" where
  "build_client_config_with_webpki_roots libs linux allow_insecure policy =
     and_then (build_client_crypto_config_with_webpki_roots libs allow_insecure) (\<lambda>crypto.
     Ok (quic_client_config linux policy crypto))"

definition build_client_config_with_cert_chain_pin_and_policy ::
    "bool \<Rightarrow> bytes \<Rightarrow> QuicRuntimePolicy \<Rightarrow> (QuicClientConfig, TransportError) result" where
  "build_client_config_with_cert_chain_pin_and_policy linux pinned_cert_chain_sha256 policy =
     and_then (build_client_crypto_config_with_cert_chain_pin pinned_cert_chain_sha256) (\<lambda>crypto.
     Ok (quic_client_config linux policy crypto))"

definition build_client_config_with_cert_chain_pin ::
    "bool \<Rightarrow> bytes \<Rightarrow> (QuicClientConfig, TransportError) result" where
  "build_client_config_with_cert_chain_pin linux pinned_cert_chain_sha256 =
     build_client_config_with_cert_chain_pin_and_policy linux pinned_cert_chain_sha256 upstream_client"

definition build_server_config_from_pem_with_policy ::
    "TlsLibs \<Rightarrow> bool \<Rightarrow> bytes \<Rightarrow> bytes \<Rightarrow> QuicRuntimePolicy \<Rightarrow> (QuicServerConfig, TransportError) result" where
  "build_server_config_from_pem_with_policy libs linux cert_pem key_pem policy =
     and_then (build_server_crypto_config_from_pem libs cert_pem key_pem) (\<lambda>crypto.
     Ok \<lparr>qsc_crypto = crypto, qsc_transport = build_transport_config linux policy, qsc_policy = policy\<rparr>)"

definition build_server_config_from_pem ::
    "TlsLibs \<Rightarrow> bool \<Rightarrow> bytes \<Rightarrow> bytes \<Rightarrow> (QuicServerConfig, TransportError) result" where
  "build_server_config_from_pem libs linux cert_pem key_pem =
     build_server_config_from_pem_with_policy libs linux cert_pem key_pem upstream_server"

section \<open>The client endpoint\<close>

text \<open>
  The server a connect reaches: the chain it presents, what else can fail in setting up the connection
  and in the handshake, and then the exporter and the unidirectional stream of the connection. Quinn
  completes the handshake only if the verifier of the configuration accepts the chain.
\<close>

record QuicPeer =
  qp_end_entity :: CertificateDer
  qp_intermediates :: "CertificateDer list"
  qp_connect :: "(unit, string) result"
  qp_handshake :: "(unit, string) result"
  qp_exporter :: Exporter
  qp_open_uni :: "(SendStream, TransportError) result"

definition connect_with :: "TlsLibs \<Rightarrow> QuicClientConfig \<Rightarrow> QuicPeer \<Rightarrow> string \<Rightarrow> (unit, TransportError) result" where
  "connect_with libs config peer server_name =
     and_then (map_err Connect (qp_connect peer)) (\<lambda>_.
     and_then
       (map_err Connection
         (verify_server_cert libs (cy_verifier (qcc_crypto config)) (qp_end_entity peer) (qp_intermediates peer)
            server_name))
       (\<lambda>_. map_err Connection (qp_handshake peer)))"

definition connect_and_authenticate ::
    "TlsLibs \<Rightarrow> (QuicClientConfig, TransportError) result \<Rightarrow> QuicPeer \<Rightarrow> string \<Rightarrow> Uuid \<Rightarrow> bytes
     \<Rightarrow> (SendStream \<times> ProxyProtocol, TransportError) result" where
  "connect_and_authenticate libs config peer server_name uuid password =
     and_then config (\<lambda>config.
     and_then (connect_with libs config peer server_name) (\<lambda>_.
     and_then (send_authentication_stream (qp_exporter peer) (qp_open_uni peer) uuid password) (\<lambda>stream.
     Ok (stream, Juicity))))"

definition connect_with_roots ::
    "TlsLibs \<Rightarrow> bool \<Rightarrow> QuicRuntimePolicy \<Rightarrow> QuicPeer \<Rightarrow> string \<Rightarrow> bytes \<Rightarrow> bool \<Rightarrow> Uuid \<Rightarrow> bytes
     \<Rightarrow> (SendStream \<times> ProxyProtocol, TransportError) result" where
  "connect_with_roots libs linux policy peer server_name roots_pem allow_insecure uuid password =
     connect_and_authenticate libs
       (build_client_config_with_roots_and_policy libs linux roots_pem allow_insecure policy)
       peer server_name uuid password"

definition connect_with_cert_chain_pin ::
    "TlsLibs \<Rightarrow> bool \<Rightarrow> QuicRuntimePolicy \<Rightarrow> QuicPeer \<Rightarrow> string \<Rightarrow> bytes \<Rightarrow> Uuid \<Rightarrow> bytes
     \<Rightarrow> (SendStream \<times> ProxyProtocol, TransportError) result" where
  "connect_with_cert_chain_pin libs linux policy peer server_name pinned_cert_chain_sha256 uuid password =
     connect_and_authenticate libs
       (build_client_config_with_cert_chain_pin_and_policy linux pinned_cert_chain_sha256 policy)
       peer server_name uuid password"

section \<open>Facts\<close>

abbreviation peer_chain :: "QuicPeer \<Rightarrow> CertificateDer list" where
  "peer_chain peer \<equiv> qp_end_entity peer # qp_intermediates peer"

lemma pinned_connect_chain:
  "connect_with_cert_chain_pin libs linux policy peer name pin uuid password = Ok r \<Longrightarrow>
     generate_cert_chain_hash (tl_sha256 libs) (peer_chain peer) = Some pin"
  by (auto simp: connect_with_cert_chain_pin_def connect_and_authenticate_def connect_with_def result_simps
      build_client_config_with_cert_chain_pin_and_policy_def build_client_crypto_config_with_cert_chain_pin_def
      quic_client_config_def ok_or_Ok split: if_splits)

lemma add_roots_Ok:
  "add_roots libs certs roots = Ok roots' \<longleftrightarrow>
     (\<exists>anchors. roots' = roots @ anchors \<and> list_all2 (\<lambda>c a. tl_trust_anchor libs c = Ok a) certs anchors)"
  by (induction certs arbitrary: roots)
     (auto simp: result_simps list_all2_Cons1)

section \<open>Properties\<close>


definition demo_tls_libs :: TlsLibs where
  "demo_tls_libs =
     \<lparr>tl_sha256 = (\<lambda>x. take 32 (x @ replicate 32 0)), tl_pem_certs = (\<lambda>_. Ok []), tl_pem_private_key = (\<lambda>_. Ok None),
      tl_trust_anchor = Ok, tl_webpki_roots = [[9]],
      tl_verify_path = (\<lambda>roots chain name. if last chain \<in> set roots then Ok () else Err ''unknown issuer''),
      tl_single_cert = (\<lambda>_ _. Ok ())\<rparr>"

definition demo_peer :: QuicPeer where
  "demo_peer =
     \<lparr>qp_end_entity = [1], qp_intermediates = [[9]], qp_connect = Ok (), qp_handshake = Ok (),
      qp_exporter = length_exporter,
      qp_open_uni = Ok \<lparr>written = [], write_error = None, finished = False\<rparr>\<rparr>"

lemma demo_peer_authenticates:
  "\<exists>stream. send_authentication_stream (qp_exporter demo_peer) (qp_open_uni demo_peer) uuid password = Ok stream"
  by (simp add: send_authentication_stream_def demo_peer_def Let_def send_write_all_def send_finish_def)


end
