(* ===== verification/Dae.thy ===== *)
theory Dae
  imports ClientRelay Tls Counter
begin

text \<open>
  The adapter for embedding the client (\<^verbatim>\<open>zuicity-dae/src/lib.rs\<close>): its view of a client
  configuration, metrics and lifecycle hooks, the connector that opens a TCP stream or a UDP
  association on a connection of its own, the wrappers that count bytes and report their close once,
  and the shutdown signal, as a step relation over the interleavings of a waiter and a requester.
  Proved: the metrics count exactly what happened; the certificate pin is honoured here, while the
  client runtime ignores it; and the shutdown signal can lose a wakeup.
\<close>

section \<open>Configuration\<close>

record DaeOutboundConfig =
  do_client :: ClientConfig

definition from_client_config :: "ClientConfig \<Rightarrow> DaeOutboundConfig" where
  "from_client_config client = \<lparr>do_client = client\<rparr>"

definition dae_server :: "DaeOutboundConfig \<Rightarrow> string" where
  "dae_server config = rc_server (cc_raw (do_client config))"

definition dae_uuid :: "DaeOutboundConfig \<Rightarrow> Uuid" where
  "dae_uuid config = cc_uuid (do_client config)"

definition dae_password :: "DaeOutboundConfig \<Rightarrow> string" where
  "dae_password config = rc_password (cc_raw (do_client config))"

definition dae_tls_server_name :: "DaeOutboundConfig \<Rightarrow> string" where
  "dae_tls_server_name config = tls_server_name (do_client config)"

definition dae_allow_insecure :: "DaeOutboundConfig \<Rightarrow> bool" where
  "dae_allow_insecure config = rc_allow_insecure (cc_raw (do_client config))"

definition dae_quic_policy :: "DaeOutboundConfig \<Rightarrow> QuicRuntimePolicy" where
  "dae_quic_policy config =
     upstream_client\<lparr>congestion_controller :=
       from_config_name (map_option CongestionControl_as_str (cc_congestion_control (do_client config)))\<rparr>"

definition dae_pinned_certchain_sha256 :: "DaeOutboundConfig \<Rightarrow> bytes option" where
  "dae_pinned_certchain_sha256 config = cc_pinned_certchain_sha256 (do_client config)"

section \<open>Metrics and hooks\<close>

record DaeMetrics =
  dm_opened_connections :: AtomicCounter64
  dm_closed_connections :: AtomicCounter64
  dm_failed_connections :: AtomicCounter64
  dm_open_connections :: AtomicCounter64
  dm_bytes_sent :: AtomicCounter64
  dm_bytes_received :: AtomicCounter64

definition DaeMetrics_default :: DaeMetrics where
  "DaeMetrics_default =
     \<lparr>dm_opened_connections = 0, dm_closed_connections = 0, dm_failed_connections = 0,
      dm_open_connections = 0, dm_bytes_sent = 0, dm_bytes_received = 0\<rparr>"

definition metrics_connection_opened :: "DaeMetrics \<Rightarrow> DaeMetrics" where
  "metrics_connection_opened m =
     m\<lparr>dm_opened_connections := counter_inc (dm_opened_connections m),
       dm_open_connections := counter_inc (dm_open_connections m)\<rparr>"

definition metrics_connection_closed :: "DaeMetrics \<Rightarrow> DaeMetrics" where
  "metrics_connection_closed m =
     m\<lparr>dm_closed_connections := counter_inc (dm_closed_connections m),
       dm_open_connections := counter_dec (dm_open_connections m)\<rparr>"

definition metrics_connection_failed :: "DaeMetrics \<Rightarrow> DaeMetrics" where
  "metrics_connection_failed m = m\<lparr>dm_failed_connections := counter_inc (dm_failed_connections m)\<rparr>"

definition metrics_bytes_sent :: "u64 \<Rightarrow> DaeMetrics \<Rightarrow> DaeMetrics" where
  "metrics_bytes_sent bytes m = m\<lparr>dm_bytes_sent := counter_add (dm_bytes_sent m) bytes\<rparr>"

definition metrics_bytes_received :: "u64 \<Rightarrow> DaeMetrics \<Rightarrow> DaeMetrics" where
  "metrics_bytes_received bytes m = m\<lparr>dm_bytes_received := counter_add (dm_bytes_received m) bytes\<rparr>"

datatype DaeNetwork = DaeTcp | DaeUdp

datatype DaeConnectionState = DaeOpen | DaeClosed | DaeFailed

record DaeConnectionEvent =
  ce_state :: DaeConnectionState
  ce_network :: DaeNetwork
  ce_target :: string

text \<open>The lifecycle object is the embedder's: what the hooks do with it is the list of their calls.\<close>

datatype lifecycle_call = OnOpen | OnClose | OnConnectionEvent DaeConnectionEvent

record DaeRuntimeHooks =
  dh_calls :: "lifecycle_call list"
  dh_metrics :: DaeMetrics

definition hooks_connection_opened :: "DaeNetwork \<Rightarrow> string \<Rightarrow> DaeRuntimeHooks \<Rightarrow> DaeRuntimeHooks" where
  "hooks_connection_opened network target h =
     \<lparr>dh_calls = dh_calls h @ [OnOpen, OnConnectionEvent
        \<lparr>ce_state = DaeOpen, ce_network = network, ce_target = target\<rparr>],
      dh_metrics = metrics_connection_opened (dh_metrics h)\<rparr>"

definition hooks_connection_closed :: "DaeNetwork \<Rightarrow> string \<Rightarrow> DaeRuntimeHooks \<Rightarrow> DaeRuntimeHooks" where
  "hooks_connection_closed network target h =
     \<lparr>dh_calls = dh_calls h @ [OnClose, OnConnectionEvent
        \<lparr>ce_state = DaeClosed, ce_network = network, ce_target = target\<rparr>],
      dh_metrics = metrics_connection_closed (dh_metrics h)\<rparr>"

definition hooks_connection_failed :: "DaeNetwork \<Rightarrow> string \<Rightarrow> DaeRuntimeHooks \<Rightarrow> DaeRuntimeHooks" where
  "hooks_connection_failed network target h =
     \<lparr>dh_calls = dh_calls h @ [OnConnectionEvent
        \<lparr>ce_state = DaeFailed, ce_network = network, ce_target = target\<rparr>],
      dh_metrics = metrics_connection_failed (dh_metrics h)\<rparr>"

definition hooks_bytes_sent :: "u64 \<Rightarrow> DaeRuntimeHooks \<Rightarrow> DaeRuntimeHooks" where
  "hooks_bytes_sent bytes h = h\<lparr>dh_metrics := metrics_bytes_sent bytes (dh_metrics h)\<rparr>"

definition hooks_bytes_received :: "u64 \<Rightarrow> DaeRuntimeHooks \<Rightarrow> DaeRuntimeHooks" where
  "hooks_bytes_received bytes h = h\<lparr>dh_metrics := metrics_bytes_received bytes (dh_metrics h)\<rparr>"

section \<open>Targets and server addresses\<close>

datatype DaeAdapterError =
    ResolveServerAddr string IoError
  | NoServerAddr string
  | InvalidTarget string
  | InvalidTargetPort string
  | DaeTransport TransportError

datatype DaeProxyTarget = DaeIp SocketAddr | DaeDomain string u16

definition DaeProxyTarget_parse :: "string \<Rightarrow> (DaeProxyTarget, DaeAdapterError) result" where
  "DaeProxyTarget_parse text =
     (case parse_socket_addr text of
        Some addr \<Rightarrow> Ok (DaeIp addr)
      | None \<Rightarrow>
          (case rsplit_once CHR '':'' text of
             None \<Rightarrow> Err (InvalidTarget text)
           | Some (host, port) \<Rightarrow>
               if host = [] \<or> port = [] \<or> starts_with host ''['' \<or> ends_with host '']'' then Err (InvalidTarget text)
               else and_then (ok_or (parse_u16 port) (InvalidTargetPort text)) (\<lambda>port. Ok (DaeDomain host port))))"

definition DaeProxyTarget_to_string :: "DaeProxyTarget \<Rightarrow> string" where
  "DaeProxyTarget_to_string target =
     (case target of
        DaeIp addr \<Rightarrow> socket_addr_to_string addr
      | DaeDomain host port \<Rightarrow> host @ '':'' @ dec_string (unat port))"

text \<open>The network a connect meets: the resolver, the local endpoint, the server, and its streams.\<close>

record DaeNet =
  de_lookup_host :: "string \<Rightarrow> (SocketAddr list, IoError) result"
  de_bind :: "SocketAddr \<Rightarrow> QuicRuntimePolicy \<Rightarrow> TransportError option"
  de_peer :: "SocketAddr \<Rightarrow> QuicPeer"
  de_open_bi :: "(SendStream \<times> RecvStream, TransportError) result"

definition resolve_server_addr :: "DaeNet \<Rightarrow> string \<Rightarrow> (SocketAddr, DaeAdapterError) result" where
  "resolve_server_addr net text =
     (case parse_socket_addr text of
        Some addr \<Rightarrow> Ok addr
      | None \<Rightarrow>
          and_then (map_err (ResolveServerAddr text) (de_lookup_host net text)) (\<lambda>addrs.
          case addrs of [] \<Rightarrow> Err (NoServerAddr text) | addr # _ \<Rightarrow> Ok addr))"

definition local_client_bind_addr :: "SocketAddr \<Rightarrow> SocketAddr" where
  "local_client_bind_addr server_addr =
     (if is_ipv4 server_addr then \<lparr>sa_ip = V4 0, sa_port = 0\<rparr> else \<lparr>sa_ip = V6 0, sa_port = 0\<rparr>)"

section \<open>The connector\<close>

record DaeJuicityConnector =
  dj_config :: DaeOutboundConfig
  dj_roots_pem :: bytes

definition connect_authenticated ::
    "TlsLibs \<Rightarrow> bool \<Rightarrow> DaeNet \<Rightarrow> DaeJuicityConnector \<Rightarrow> (SendStream \<times> ProxyProtocol, DaeAdapterError) result" where
  "connect_authenticated libs linux net c =
     (let config = dj_config c in
      and_then (resolve_server_addr net (dae_server config)) (\<lambda>server_addr.
      (let policy = dae_quic_policy config in
       and_then
         (case de_bind net (local_client_bind_addr server_addr) policy of
            None \<Rightarrow> Ok ()
          | Some e \<Rightarrow> Err (DaeTransport e))
         (\<lambda>_.
          let server_name = dae_tls_server_name config in
          case dae_pinned_certchain_sha256 config of
            Some pin \<Rightarrow>
              map_err DaeTransport
                (connect_with_cert_chain_pin libs linux policy (de_peer net server_addr) server_name pin
                   (dae_uuid config) (as_bytes (dae_password config)))
          | None \<Rightarrow>
              map_err DaeTransport
                (connect_with_roots libs linux policy (de_peer net server_addr) server_name (dj_roots_pem c)
                   (dae_allow_insecure config) (dae_uuid config) (as_bytes (dae_password config)))))))"

text \<open>A wrapper around an open stream: its target and whether its close has been reported.\<close>

record 's DaeStream =
  dst_stream :: 's
  dst_network :: DaeNetwork
  dst_target :: string
  dst_closed :: bool

definition finish_connect ::
    "DaeNetwork \<Rightarrow> string \<Rightarrow> (DaeProxyTarget \<times> 's, DaeAdapterError) result \<Rightarrow> DaeRuntimeHooks
     \<Rightarrow> ('s DaeStream, DaeAdapterError) result \<times> DaeRuntimeHooks" where
  "finish_connect network target res h =
     (case res of
        Ok (parsed, stream) \<Rightarrow>
          (let target = DaeProxyTarget_to_string parsed in
           (Ok \<lparr>dst_stream = stream, dst_network = network, dst_target = target, dst_closed = False\<rparr>,
            hooks_connection_opened network target h))
      | Err error \<Rightarrow> (Err error, hooks_connection_failed network target h))"

definition connect_tcp ::
    "TlsLibs \<Rightarrow> bool \<Rightarrow> DaeNet \<Rightarrow> DaeJuicityConnector \<Rightarrow> string \<Rightarrow> DaeRuntimeHooks
     \<Rightarrow> (TcpProxyStream DaeStream, DaeAdapterError) result \<times> DaeRuntimeHooks" where
  "connect_tcp libs linux net c target h =
     finish_connect DaeTcp target
       (and_then (DaeProxyTarget_parse target) (\<lambda>parsed.
        and_then (connect_authenticated libs linux net c) (\<lambda>_.
        and_then
          (map_err DaeTransport
            (case parsed of
               DaeIp addr \<Rightarrow> open_tcp_proxy_stream (de_open_bi net) (sa_ip addr) (sa_port addr)
             | DaeDomain host port \<Rightarrow> open_tcp_proxy_domain_stream (de_open_bi net) host port))
          (\<lambda>stream. Ok (parsed, stream))))) h"

definition connect_udp ::
    "TlsLibs \<Rightarrow> bool \<Rightarrow> DaeNet \<Rightarrow> DaeJuicityConnector \<Rightarrow> string \<Rightarrow> DaeRuntimeHooks
     \<Rightarrow> (UdpOverStream DaeStream, DaeAdapterError) result \<times> DaeRuntimeHooks" where
  "connect_udp libs linux net c target h =
     finish_connect DaeUdp target
       (and_then (DaeProxyTarget_parse target) (\<lambda>parsed.
        and_then (connect_authenticated libs linux net c) (\<lambda>_.
        and_then
          (map_err DaeTransport
            (case parsed of
               DaeIp addr \<Rightarrow> open_udp_over_stream (de_open_bi net) (sa_ip addr) (sa_port addr)
             | DaeDomain host port \<Rightarrow> open_udp_over_domain_stream (de_open_bi net) host port))
          (\<lambda>stream. Ok (parsed, stream))))) h"

text \<open>The client's dial on the TLS model: the network of its dialer with the connect it calls.\<close>

definition client_connect_with_roots ::
    "TlsLibs \<Rightarrow> bool \<Rightarrow> (SocketAddr \<Rightarrow> QuicPeer) \<Rightarrow> QuicDialerParams \<Rightarrow> SocketAddr
     \<Rightarrow> (SendStream \<times> ProxyProtocol, TransportError) result" where
  "client_connect_with_roots libs linux peers params server_addr =
     connect_with_roots libs linux (qd_policy params) (peers server_addr) (qd_server_name params)
       (qd_roots_pem params) (qd_allow_insecure params) (qd_uuid params) (qd_password params)"

section \<open>Open streams\<close>

definition close_once :: "'s DaeStream \<Rightarrow> DaeRuntimeHooks \<Rightarrow> 's DaeStream \<times> DaeRuntimeHooks" where
  "close_once s h =
     (if dst_closed s then (s, h)
      else (s\<lparr>dst_closed := True\<rparr>, hooks_connection_closed (dst_network s) (dst_target s) h))"

datatype poll = PollPending | PollReady "(nat, IoError) result"

text \<open>\<^verbatim>\<open>poll_read\<close> and \<^verbatim>\<open>poll_write\<close> of the TCP wrapper, from what the QUIC stream's poll yields.\<close>

definition dae_poll_read :: "poll \<Rightarrow> DaeRuntimeHooks \<Rightarrow> poll \<times> DaeRuntimeHooks" where
  "dae_poll_read p h =
     (case p of
        PollReady (Ok read) \<Rightarrow> (p, if 0 < read then hooks_bytes_received (of_nat read) h else h)
      | _ \<Rightarrow> (p, h))"

definition dae_poll_write :: "poll \<Rightarrow> DaeRuntimeHooks \<Rightarrow> poll \<times> DaeRuntimeHooks" where
  "dae_poll_write p h =
     (case p of
        PollReady (Ok n) \<Rightarrow> (p, if 0 < n then hooks_bytes_sent (of_nat n) h else h)
      | _ \<Rightarrow> (p, h))"

definition dae_send ::
    "bytes \<Rightarrow> UdpOverStream DaeStream \<Rightarrow> DaeRuntimeHooks
     \<Rightarrow> (nat, DaeAdapterError) result \<times> UdpOverStream DaeStream \<times> DaeRuntimeHooks" where
  "dae_send payload s h =
     (let stream = dst_stream s in
      case send_datagram (us_send stream) (us_header stream) payload of
        (Err e, send) \<Rightarrow> (Err (DaeTransport e), s\<lparr>dst_stream := stream\<lparr>us_send := send\<rparr>\<rparr>, h)
      | (Ok _, send) \<Rightarrow>
          (Ok (length payload), s\<lparr>dst_stream := stream\<lparr>us_send := send\<rparr>\<rparr>,
           hooks_bytes_sent (of_nat (length payload)) h))"

text \<open>
  The result is the bytes copied to the front of the buffer, with the association; a failed receive has
  read part of a frame, and leaves no association that is read again.
\<close>

definition dae_recv ::
    "nat \<Rightarrow> UdpOverStream DaeStream \<Rightarrow> DaeRuntimeHooks
     \<Rightarrow> (bytes \<times> UdpOverStream DaeStream, DaeAdapterError) result \<times> DaeRuntimeHooks" where
  "dae_recv buf_len s h =
     (let stream = dst_stream s in
      case recv_datagram buf_len (us_recv stream) of
        Err e \<Rightarrow> (Err (DaeTransport e), h)
      | Ok (datagram, recv) \<Rightarrow>
          (Ok (uod_payload datagram, s\<lparr>dst_stream := stream\<lparr>us_recv := recv\<rparr>\<rparr>),
           hooks_bytes_received (of_nat (length (uod_payload datagram))) h))"

definition dae_finish ::
    "UdpOverStream DaeStream \<Rightarrow> (unit, DaeAdapterError) result \<times> UdpOverStream DaeStream" where
  "dae_finish s =
     (case send_finish (us_send (dst_stream s)) of
        (res, send) \<Rightarrow> (map_err DaeTransport res, s\<lparr>dst_stream := (dst_stream s)\<lparr>us_send := send\<rparr>\<rparr>))"

text \<open>
  An embedder's use of one connector: the events it causes, on the handles it holds. A dropped handle
  runs its \<^verbatim>\<open>Drop\<close>, and a handle whose receive failed is dropped.
\<close>

datatype dae_handle =
    TcpHandle "TcpProxyStream DaeStream"
  | UdpHandle "UdpOverStream DaeStream"

datatype dae_event =
    ConnectTcp DaeNet string
  | ConnectUdp DaeNet string
  | PollRead poll
  | PollWrite poll
  | DaeSend nat bytes
  | DaeRecv nat nat
  | DaeFinish nat
  | DropHandle nat

definition drop_handle :: "nat \<Rightarrow> dae_handle list \<Rightarrow> DaeRuntimeHooks \<Rightarrow> dae_handle list \<times> DaeRuntimeHooks" where
  "drop_handle i handles h =
     (if i < length handles
      then (take i handles @ drop (Suc i) handles,
        (case handles ! i of TcpHandle s \<Rightarrow> snd (close_once s h) | UdpHandle s \<Rightarrow> snd (close_once s h)))
      else (handles, h))"

definition add_handle ::
    "('s DaeStream \<Rightarrow> dae_handle) \<Rightarrow> dae_handle list \<Rightarrow> ('s DaeStream, DaeAdapterError) result \<times> DaeRuntimeHooks
     \<Rightarrow> dae_handle list \<times> DaeRuntimeHooks" where
  "add_handle mk handles res =
     (case res of (Ok s, h) \<Rightarrow> (handles @ [mk s], h) | (Err _, h) \<Rightarrow> (handles, h))"

definition udp_handle :: "dae_handle list \<Rightarrow> nat \<Rightarrow> UdpOverStream DaeStream option" where
  "udp_handle handles i =
     (if i < length handles then (case handles ! i of UdpHandle s \<Rightarrow> Some s | TcpHandle _ \<Rightarrow> None) else None)"

fun dae_step ::
    "TlsLibs \<Rightarrow> bool \<Rightarrow> DaeJuicityConnector \<Rightarrow> dae_event \<Rightarrow> dae_handle list \<times> DaeRuntimeHooks
     \<Rightarrow> dae_handle list \<times> DaeRuntimeHooks" where
  "dae_step libs linux c (ConnectTcp net target) (handles, h) =
     add_handle TcpHandle handles (connect_tcp libs linux net c target h)"
| "dae_step libs linux c (ConnectUdp net target) (handles, h) =
     add_handle UdpHandle handles (connect_udp libs linux net c target h)"
| "dae_step libs linux c (PollRead p) (handles, h) = (handles, snd (dae_poll_read p h))"
| "dae_step libs linux c (PollWrite p) (handles, h) = (handles, snd (dae_poll_write p h))"
| "dae_step libs linux c (DaeSend i payload) (handles, h) =
     (case udp_handle handles i of
        None \<Rightarrow> (handles, h)
      | Some s \<Rightarrow> (case dae_send payload s h of (_, s, h) \<Rightarrow> (handles[i := UdpHandle s], h)))"
| "dae_step libs linux c (DaeRecv i buf_len) (handles, h) =
     (case udp_handle handles i of
        None \<Rightarrow> (handles, h)
      | Some s \<Rightarrow>
          (case dae_recv buf_len s h of
             (Ok (_, s), h) \<Rightarrow> (handles[i := UdpHandle s], h)
           | (Err _, h) \<Rightarrow> drop_handle i handles h))"
| "dae_step libs linux c (DaeFinish i) (handles, h) =
     (case udp_handle handles i of
        None \<Rightarrow> (handles, h)
      | Some s \<Rightarrow> (handles[i := UdpHandle (snd (dae_finish s))], h))"
| "dae_step libs linux c (DropHandle i) (handles, h) = drop_handle i handles h"

definition dae_run ::
    "TlsLibs \<Rightarrow> bool \<Rightarrow> DaeJuicityConnector \<Rightarrow> dae_event list \<Rightarrow> dae_handle list \<times> DaeRuntimeHooks" where
  "dae_run libs linux c events =
     fold (dae_step libs linux c) events ([], \<lparr>dh_calls = [], dh_metrics = DaeMetrics_default\<rparr>)"

section \<open>The shutdown signal\<close>

text \<open>
  One waiter in \<^verbatim>\<open>wait\<close> and one requester in \<^verbatim>\<open>request_shutdown\<close>, on two threads. The waiter checks
  the flag, then creates the \<^verbatim>\<open>notified()\<close> future, waits for it, and checks again; a future is woken
  by the \<^verbatim>\<open>notify_waiters\<close> calls after its creation, and by no earlier one.
\<close>

datatype waiter_at = WCheck | WCreate | WAwait bool | WRecheck | WReturned

datatype requester_at = RStore | RNotify | RReturned

record DaeShutdown =
  sh_requested :: bool
  sh_waiter :: waiter_at
  sh_requester :: requester_at

definition shutdown_start :: DaeShutdown where
  "shutdown_start = \<lparr>sh_requested = False, sh_waiter = WCheck, sh_requester = RStore\<rparr>"

inductive shutdown_step :: "DaeShutdown \<Rightarrow> DaeShutdown \<Rightarrow> bool" where
  check: "sh_waiter s = WCheck \<Longrightarrow>
    shutdown_step s (s\<lparr>sh_waiter := if sh_requested s then WReturned else WCreate\<rparr>)"
| create: "sh_waiter s = WCreate \<Longrightarrow> shutdown_step s (s\<lparr>sh_waiter := WAwait False\<rparr>)"
| wake: "sh_waiter s = WAwait True \<Longrightarrow> shutdown_step s (s\<lparr>sh_waiter := WRecheck\<rparr>)"
| recheck: "sh_waiter s = WRecheck \<Longrightarrow>
    shutdown_step s (s\<lparr>sh_waiter := if sh_requested s then WReturned else WCreate\<rparr>)"
| store: "sh_requester s = RStore \<Longrightarrow>
    shutdown_step s (s\<lparr>sh_requested := True, sh_requester := RNotify\<rparr>)"
| notify: "sh_requester s = RNotify \<Longrightarrow>
    shutdown_step s
      (s\<lparr>sh_requester := RReturned,
         sh_waiter := (case sh_waiter s of WAwait _ \<Rightarrow> WAwait True | w \<Rightarrow> w)\<rparr>)"

inductive_cases shutdown_stepE: "shutdown_step s s'"

inductive shutdown_reachable :: "DaeShutdown \<Rightarrow> bool" where
  start: "shutdown_reachable shutdown_start"
| step: "shutdown_reachable s \<Longrightarrow> shutdown_step s s' \<Longrightarrow> shutdown_reachable s'"

section \<open>What the metrics count\<close>

fun handle_closed :: "dae_handle \<Rightarrow> bool" where
  "handle_closed (TcpHandle s) = dst_closed s"
| "handle_closed (UdpHandle s) = dst_closed s"

fun is_state :: "DaeConnectionState \<Rightarrow> lifecycle_call \<Rightarrow> bool" where
  "is_state st (OnConnectionEvent e) = (ce_state e = st)"
| "is_state st _ = False"

text \<open>The number of lifecycle calls of a kind.\<close>

definition calls :: "(lifecycle_call \<Rightarrow> bool) \<Rightarrow> lifecycle_call list \<Rightarrow> nat" where
  "calls P cs = length (filter P cs)"

lemma calls_simps [simp]:
  "calls P [] = 0"
  "calls P (cs @ ds) = calls P cs + calls P ds"
  "calls P (x # cs) = (if P x then Suc (calls P cs) else calls P cs)"
  by (simp_all add: calls_def)

text \<open>
  The invariant after \<^term>\<open>n\<close> events: every live handle is unreported, the counters are the calls, and
  the live handles are the opened ones without the closed.
\<close>

definition dae_inv :: "nat \<Rightarrow> dae_handle list \<times> DaeRuntimeHooks \<Rightarrow> bool" where
  "dae_inv n st =
     (case st of (handles, h) \<Rightarrow>
        list_all (\<lambda>x. \<not> handle_closed x) handles
        \<and> dm_opened_connections (dh_metrics h) = of_nat (calls (is_state DaeOpen) (dh_calls h))
        \<and> dm_closed_connections (dh_metrics h) = of_nat (calls (is_state DaeClosed) (dh_calls h))
        \<and> dm_failed_connections (dh_metrics h) = of_nat (calls (is_state DaeFailed) (dh_calls h))
        \<and> dm_open_connections (dh_metrics h) = of_nat (length handles)
        \<and> calls (is_state DaeOpen) (dh_calls h) = calls (is_state DaeClosed) (dh_calls h) + length handles
        \<and> calls (is_state DaeOpen) (dh_calls h) + calls (is_state DaeFailed) (dh_calls h) \<le> n)"

lemma dae_inv_mono: "dae_inv n st \<Longrightarrow> n \<le> m \<Longrightarrow> dae_inv m st"
  by (auto simp: dae_inv_def split: prod.splits)

lemma finish_connect_inv:
  assumes "dae_inv n (handles, h)" and "\<And>s. handle_closed (mk s) = dst_closed s"
  shows "dae_inv (Suc n) (add_handle mk handles (finish_connect network target res h))"
  using assms
  by (auto simp: dae_inv_def add_handle_def finish_connect_def Let_def hooks_connection_opened_def
      hooks_connection_failed_def metrics_connection_opened_def metrics_connection_failed_def
      split: result.split prod.split)

lemma drop_handle_inv:
  assumes "dae_inv n (handles, h)" and "n < 2 ^ 64"
  shows "dae_inv n (drop_handle i handles h)"
proof (cases "i < length handles")
  case True
  then have "\<not> handle_closed (handles ! i)" using assms(1) by (auto simp: dae_inv_def list_all_length)
  moreover have "counter_dec (of_nat (length handles)) = of_nat (length handles - 1)"
    using True assms by (intro counter_dec_of_nat) (auto simp: dae_inv_def)
  moreover have "list_all (\<lambda>x. \<not> handle_closed x) (take i handles @ drop (Suc i) handles)"
    using assms(1) by (auto simp: dae_inv_def list_all_iff dest: in_set_takeD in_set_dropD)
  ultimately show ?thesis
    using True assms(1)
    by (cases "handles ! i")
       (auto simp: dae_inv_def drop_handle_def close_once_def hooks_connection_closed_def
        metrics_connection_closed_def min_def)
qed (use assms in \<open>simp add: drop_handle_def\<close>)

lemma bytes_inv:
  "dae_inv n (handles, hooks_bytes_sent b h) = dae_inv n (handles, h)"
  "dae_inv n (handles, hooks_bytes_received b h) = dae_inv n (handles, h)"
  by (simp_all add: dae_inv_def hooks_bytes_sent_def hooks_bytes_received_def metrics_bytes_sent_def
      metrics_bytes_received_def)

lemma update_inv:
  "dae_inv n (handles, h) \<Longrightarrow> \<not> dst_closed s \<Longrightarrow> dae_inv n (handles[i := UdpHandle s], h)"
  using set_update_subset_insert [of handles i "UdpHandle s"] by (auto simp: dae_inv_def list_all_iff)

lemma udp_handle_live: "dae_inv n (handles, h) \<Longrightarrow> udp_handle handles i = Some s \<Longrightarrow> \<not> dst_closed s"
  by (fastforce simp: dae_inv_def udp_handle_def list_all_length split: if_splits dae_handle.splits)

lemma dae_step_inv:
  assumes "dae_inv n st" and "n < 2 ^ 64"
  shows "dae_inv (Suc n) (dae_step libs linux c e st)"
proof -
  obtain handles h where [simp]: "st = (handles, h)" by (cases st)
  have s: "dae_inv (Suc n) (handles, h)" using assms(1) by (auto intro: dae_inv_mono)
  have d: "dae_inv (Suc n) (drop_handle i handles h)" for i
    using drop_handle_inv [of n handles h i] assms by (auto intro: dae_inv_mono)
  show ?thesis
  proof (cases e)
    case (DaeSend i payload)
    then show ?thesis
      using s udp_handle_live [OF s]
      by (auto simp: dae_send_def Let_def bytes_inv intro!: update_inv split: option.splits result.splits prod.splits)
  next
    case (DaeRecv i n)
    then show ?thesis
      using s d udp_handle_live [OF s]
      by (auto simp: dae_recv_def Let_def bytes_inv intro!: update_inv split: option.splits result.splits prod.splits)
  next
    case (DaeFinish i)
    then show ?thesis
      using s udp_handle_live [OF s] by (auto simp: dae_finish_def intro!: update_inv split: option.splits prod.splits)
  qed (use s d assms(1) in \<open>auto simp: dae_poll_read_def dae_poll_write_def bytes_inv connect_tcp_def connect_udp_def
         intro!: finish_connect_inv split: poll.splits result.splits\<close>)
qed

lemma fold_dae_step_inv:
  "dae_inv n st \<Longrightarrow> n + length events < 2 ^ 64 \<Longrightarrow>
     dae_inv (n + length events) (fold (dae_step libs linux c) events st)"
proof (induction events arbitrary: n st)
  case (Cons e events)
  then show ?case using Cons.IH [of "Suc n"] dae_step_inv [of n st] by simp
qed simp

section \<open>The shutdown signal, facts\<close>

lemma shutdown_safe:
  "shutdown_reachable s \<Longrightarrow>
     (sh_waiter s = WReturned \<longrightarrow> sh_requested s) \<and> (sh_requester s \<noteq> RStore \<longrightarrow> sh_requested s)
     \<and> (sh_waiter s = WAwait True \<longrightarrow> sh_requester s = RReturned)"
  by (induction rule: shutdown_reachable.induct)
     (auto simp: shutdown_start_def elim!: shutdown_stepE split: waiter_at.splits if_splits)

text \<open>The waiter reads the flag, the requester runs to its end, and the waiter creates its future.\<close>

lemma lost_wakeup_reachable:
  "shutdown_reachable \<lparr>sh_requested = True, sh_waiter = WAwait False, sh_requester = RReturned\<rparr>"
proof -
  have 1: "shutdown_reachable \<lparr>sh_requested = False, sh_waiter = WCreate, sh_requester = RStore\<rparr>"
    using shutdown_reachable.step [OF shutdown_reachable.start shutdown_step.check] by (simp add: shutdown_start_def)
  have 2: "shutdown_reachable \<lparr>sh_requested = True, sh_waiter = WCreate, sh_requester = RNotify\<rparr>"
    using shutdown_reachable.step [OF 1 shutdown_step.store] by simp
  have 3: "shutdown_reachable \<lparr>sh_requested = True, sh_waiter = WCreate, sh_requester = RReturned\<rparr>"
    using shutdown_reachable.step [OF 2 shutdown_step.notify] by simp
  show ?thesis using shutdown_reachable.step [OF 3 shutdown_step.create] by simp
qed

lemma lost_wakeup_stuck:
  "\<not> shutdown_step \<lparr>sh_requested = True, sh_waiter = WAwait False, sh_requester = RReturned\<rparr> s'"
  by (auto elim!: shutdown_stepE)

section \<open>Connects, facts\<close>

lemma insecure_connect_any_chain:
  "connect_with_roots libs linux policy (peer\<lparr>qp_end_entity := leaf, qp_intermediates := intermediates\<rparr>) name roots
     True uuid password =
   connect_with_roots libs linux policy peer name roots True uuid password"
  by (simp add: connect_with_roots_def connect_and_authenticate_def connect_with_def
      build_client_config_with_roots_and_policy_def build_client_crypto_config_with_roots_def quic_client_config_def)

text \<open>The slice of \<^verbatim>\<open>recv\<close>'s buffer is never out of range.\<close>

lemma dae_recv_fits: "dae_recv n s h = (Ok (payload, s'), h') \<Longrightarrow> length payload \<le> n"
  by (auto simp: dae_recv_def Let_def recv_datagram_def result_simps split: result.splits prod.splits if_splits)

section \<open>Properties\<close>


text \<open>
  C7: The certificate pin. A connection the adapter makes with a configured pin is to a server whose
  chain has that hash. The client runtime never reads the pin: its dialer is the same for every pin, and
  with \<^verbatim>\<open>allow_insecure\<close>, which the share links of the server set beside the pin, it connects in the
  same way whatever chain the server presents.
\<close>

theorem certificate_pin_only_in_adapter:
  "(connect_authenticated libs linux dae_net c = Ok r \<and> dae_pinned_certchain_sha256 (dj_config c) = Some pin \<longrightarrow>
      (\<exists>addr. resolve_server_addr dae_net (dae_server (dj_config c)) = Ok addr
        \<and> generate_cert_chain_hash (tl_sha256 libs) (peer_chain (de_peer dae_net addr)) = Some pin))
    \<and> quic_dialer_params (runtime\<lparr>crc_config := (crc_config runtime)\<lparr>cc_pinned_certchain_sha256 := other_pin\<rparr>\<rparr>) roots =
      quic_dialer_params runtime roots
    \<and> (rc_allow_insecure (cc_raw (crc_config runtime)) \<longrightarrow>
      dial (net\<lparr>dn_connect := client_connect_with_roots libs linux peers\<rparr>) (quic_dialer_params runtime roots) =
      dial (net\<lparr>dn_connect := client_connect_with_roots libs linux
          (\<lambda>addr. (peers addr)\<lparr>qp_end_entity := leaf addr, qp_intermediates := intermediates addr\<rparr>)\<rparr>)
        (quic_dialer_params runtime roots))"
proof (intro conjI impI)
  assume "connect_authenticated libs linux dae_net c = Ok r \<and> dae_pinned_certchain_sha256 (dj_config c) = Some pin"
  then show "\<exists>addr. resolve_server_addr dae_net (dae_server (dj_config c)) = Ok addr
        \<and> generate_cert_chain_hash (tl_sha256 libs) (peer_chain (de_peer dae_net addr)) = Some pin"
    by (auto simp: connect_authenticated_def Let_def result_simps split: option.splits
        dest!: pinned_connect_chain)
next
  show "quic_dialer_params (runtime\<lparr>crc_config := (crc_config runtime)\<lparr>cc_pinned_certchain_sha256 := other_pin\<rparr>\<rparr>) roots =
      quic_dialer_params runtime roots"
    by (simp add: quic_dialer_params_def tls_server_name_def Let_def)
next
  assume insecure: "rc_allow_insecure (cc_raw (crc_config runtime))"
  then have c: "client_connect_with_roots libs linux peers (quic_dialer_params runtime roots) addr =
      client_connect_with_roots libs linux
          (\<lambda>addr. (peers addr)\<lparr>qp_end_entity := leaf addr, qp_intermediates := intermediates addr\<rparr>)
          (quic_dialer_params runtime roots) addr" for addr
    by (simp add: client_connect_with_roots_def quic_dialer_params_def Let_def insecure_connect_any_chain)
  show "dial (net\<lparr>dn_connect := client_connect_with_roots libs linux peers\<rparr>) (quic_dialer_params runtime roots) =
      dial (net\<lparr>dn_connect := client_connect_with_roots libs linux
          (\<lambda>addr. (peers addr)\<lparr>qp_end_entity := leaf addr, qp_intermediates := intermediates addr\<rparr>)\<rparr>)
        (quic_dialer_params runtime roots)"
    by (simp add: dial_def c)
qed

text \<open>The demonstration connector, with and without a pin, and its network.\<close>

definition demo_connector :: "bytes option \<Rightarrow> DaeJuicityConnector" where
  "demo_connector pin =
     \<lparr>dj_config = from_client_config \<lparr>cc_raw = RawConfig_default\<lparr>rc_server := socket_addr_to_string \<lparr>sa_ip = V4 7, sa_port = 1\<rparr>, rc_sni := ''s'', rc_allow_insecure := True\<rparr>,
        cc_uuid = 1, cc_congestion_control = None, cc_pinned_certchain_sha256 = pin\<rparr>,
      dj_roots_pem = []\<rparr>"

definition demo_dae_net :: DaeNet where
  "demo_dae_net =
     \<lparr>de_lookup_host = (\<lambda>_. Ok []), de_bind = (\<lambda>_ _. None), de_peer = (\<lambda>_. demo_peer),
      de_open_bi = Ok (fresh_send, ([], Fin))\<rparr>"

lemmas demo_dae_defs =
  demo_connector_def from_client_config_def dae_server_def dae_pinned_certchain_sha256_def dae_allow_insecure_def
  dae_uuid_def dae_password_def dae_tls_server_name_def tls_server_name_def

lemma demo_resolve:
  "resolve_server_addr demo_dae_net (dae_server (dj_config (demo_connector pin))) = Ok \<lparr>sa_ip = V4 7, sa_port = 1\<rparr>"
  by (simp add: resolve_server_addr_def demo_dae_defs)

lemma demo_connects:
  assumes "\<And>p. pin = Some p \<Longrightarrow> generate_cert_chain_hash (tl_sha256 demo_tls_libs) [[1], [9]] = Some p"
  shows "\<exists>r. connect_authenticated demo_tls_libs True demo_dae_net (demo_connector pin) = Ok r"
proof -
  obtain stream where s: "send_authentication_stream (qp_exporter demo_peer) (qp_open_uni demo_peer) 1 [] = Ok stream"
    using demo_peer_authenticates by blast
  have c: "qp_connect demo_peer = Ok ()" "qp_handshake demo_peer = Ok ()" "qp_end_entity demo_peer = [1]"
    "qp_intermediates demo_peer = [[9]]"
    by (simp_all add: demo_peer_def)
  have "connect_with_roots demo_tls_libs True policy demo_peer name [] True 1 [] = Ok (stream, Juicity)" for policy name
    using s c by (simp add: connect_with_roots_def connect_and_authenticate_def connect_with_def
        build_client_config_with_roots_and_policy_def build_client_crypto_config_with_roots_def quic_client_config_def
        demo_tls_libs_def)
  moreover have "connect_with_cert_chain_pin demo_tls_libs True policy demo_peer name p 1 [] = Ok (stream, Juicity)"
    if "pin = Some p" for policy name p
    using s c assms [OF that] by (simp add: connect_with_cert_chain_pin_def connect_and_authenticate_def connect_with_def
        build_client_config_with_cert_chain_pin_and_policy_def build_client_crypto_config_with_cert_chain_pin_def
        quic_client_config_def)
  moreover have "as_bytes [] = []" by (simp add: as_bytes_def)
  ultimately show ?thesis
    by (cases pin) (simp_all add: connect_authenticated_def Let_def demo_resolve,
        simp_all add: demo_dae_defs RawConfig_default_def demo_dae_net_def)
qed

abbreviation demo_runtime :: "bytes option \<Rightarrow> ClientRuntimeConfig" where
  "demo_runtime pin \<equiv>
     \<lparr>crc_config = do_client (dj_config (demo_connector pin)), crc_tls = TlsPolicy_upstream, crc_streams = StreamPolicy_upstream\<rparr>"

abbreviation demo_client_net :: "QuicPeer \<Rightarrow> (SendStream \<times> ProxyProtocol) DialNet" where
  "demo_client_net peer \<equiv>
     \<lparr>dn_bind = \<lambda>_ _. None, dn_connect = client_connect_with_roots demo_tls_libs True (\<lambda>_. peer), dn_closed = \<lambda>_. False,
      dn_open_bi = \<lambda>_. Err EndpointClosed\<rparr>"

theorem certificate_pin_only_in_adapter_witness:
  "\<exists>pin r. connect_authenticated demo_tls_libs True demo_dae_net (demo_connector (Some pin)) = Ok r
    \<and> generate_cert_chain_hash (tl_sha256 demo_tls_libs) (peer_chain demo_peer) = Some pin
    \<and> dial (demo_client_net demo_peer) (quic_dialer_params (demo_runtime (Some pin)) []) =
      dial (demo_client_net (demo_peer\<lparr>qp_end_entity := [66], qp_intermediates := []\<rparr>))
        (quic_dialer_params (demo_runtime (Some pin)) [])"
proof -
  obtain pin where pin: "generate_cert_chain_hash (tl_sha256 demo_tls_libs) [[1], [9]] = Some pin"
    by (cases "generate_cert_chain_hash (tl_sha256 demo_tls_libs) [[1], [9]]") simp_all
  then obtain r where r: "connect_authenticated demo_tls_libs True demo_dae_net (demo_connector (Some pin)) = Ok r"
    using demo_connects [of "Some pin"] by auto
  note facts = certificate_pin_only_in_adapter [where libs = demo_tls_libs and linux = True and dae_net = demo_dae_net
      and c = "demo_connector (Some pin)" and r = r and pin = pin and runtime = "demo_runtime (Some pin)"
      and other_pin = None and roots = "[]" and net = "demo_client_net demo_peer" and peers = "\<lambda>_. demo_peer"
      and leaf = "\<lambda>_. [66]" and intermediates = "\<lambda>_. []"]
  have "dae_pinned_certchain_sha256 (dj_config (demo_connector (Some pin))) = Some pin"
    and i: "rc_allow_insecure (cc_raw (crc_config (demo_runtime (Some pin))))"
    by (simp_all add: demo_dae_defs)
  then have "generate_cert_chain_hash (tl_sha256 demo_tls_libs)
      (peer_chain (de_peer demo_dae_net \<lparr>sa_ip = V4 7, sa_port = 1\<rparr>)) = Some pin"
    using r conjunct1 [OF facts] by (auto simp: demo_resolve)
  then have g: "generate_cert_chain_hash (tl_sha256 demo_tls_libs) (peer_chain demo_peer) = Some pin"
    by (simp add: demo_dae_net_def)
  have d: "dial (demo_client_net demo_peer) (quic_dialer_params (demo_runtime (Some pin)) []) =
      dial (demo_client_net (demo_peer\<lparr>qp_end_entity := [66], qp_intermediates := []\<rparr>))
        (quic_dialer_params (demo_runtime (Some pin)) [])"
    using mp [OF conjunct2 [OF conjunct2 [OF facts]] i] by (simp only: DialNet.update_convs)
  show ?thesis by (rule exI [of _ pin], rule exI [of _ r], intro conjI, fact r, fact g, fact d)
qed

text \<open>One connect that fails, one that opens, and the drop of its handle.\<close>

definition demo_events :: "dae_event list" where
  "demo_events =
     (let target = socket_addr_to_string \<lparr>sa_ip = V4 9, sa_port = 80\<rparr> in
      [ConnectTcp (demo_dae_net\<lparr>de_bind := \<lambda>_ _. Some EndpointClosed\<rparr>) target, ConnectTcp demo_dae_net target,
       DropHandle 0])"

lemma demo_connect_fails:
  "connect_authenticated demo_tls_libs True (demo_dae_net\<lparr>de_bind := \<lambda>_ _. Some EndpointClosed\<rparr>) (demo_connector None) =
     Err (DaeTransport EndpointClosed)"
  by (simp add: connect_authenticated_def resolve_server_addr_def Let_def demo_dae_defs)

lemma demo_run:
  "\<exists>h. dae_run demo_tls_libs True (demo_connector None) demo_events = ([], h)
     \<and> calls (is_state DaeFailed) (dh_calls h) = 1 \<and> calls (is_state DaeOpen) (dh_calls h) = 1"
proof -
  obtain r where r: "connect_authenticated demo_tls_libs True demo_dae_net (demo_connector None) = Ok r"
    using demo_connects [of None] by auto
  have "\<exists>s. open_tcp_proxy_stream (de_open_bi demo_dae_net) (V4 9) 80 = Ok s"
    unfolding open_tcp_proxy_stream_def
    by (subst as_borrowed_from_ip [symmetric], subst with_header_Ok)
       (simp add: demo_dae_net_def valid_header_def as_borrowed_from_ip)
  then obtain s where "open_tcp_proxy_stream (de_open_bi demo_dae_net) (V4 9) 80 = Ok s" by blast
  then show ?thesis
    using r by (simp add: dae_run_def demo_events_def connect_tcp_def DaeProxyTarget_parse_def finish_connect_def
        add_handle_def Let_def demo_connect_fails hooks_connection_failed_def hooks_connection_opened_def drop_handle_def
        close_once_def hooks_connection_closed_def)
qed


text \<open>
  C36: The shutdown signal. \<^verbatim>\<open>wait\<close> returns only after a request. But a request between its check
  of the flag and the creation of its future is lost: the flag is set, \<^verbatim>\<open>request_shutdown\<close> has
  returned, and the waiter has no further step.
\<close>

theorem shutdown_signal_can_be_lost:
  "(\<forall>s. shutdown_reachable s \<longrightarrow> sh_waiter s = WReturned \<longrightarrow> sh_requested s)
    \<and> (\<exists>s. shutdown_reachable s \<and> sh_requested s \<and> sh_requester s = RReturned \<and> sh_waiter s = WAwait False
        \<and> (\<forall>s'. \<not> shutdown_step s s'))"
  using shutdown_safe lost_wakeup_reachable lost_wakeup_stuck
  by (intro conjI allI impI exI [of _ "\<lparr>sh_requested = True, sh_waiter = WAwait False, sh_requester = RReturned\<rparr>"])
     auto

lemma shutdown_can_return:
  "shutdown_reachable \<lparr>sh_requested = True, sh_waiter = WReturned, sh_requester = RNotify\<rparr>"
proof -
  have "shutdown_reachable \<lparr>sh_requested = True, sh_waiter = WCheck, sh_requester = RNotify\<rparr>"
    using shutdown_reachable.step [OF shutdown_reachable.start shutdown_step.store] by (simp add: shutdown_start_def)
  from shutdown_reachable.step [OF this shutdown_step.check] show ?thesis by simp
qed

theorem shutdown_signal_can_be_lost_witness:
  "shutdown_reachable \<lparr>sh_requested = True, sh_waiter = WReturned, sh_requester = RNotify\<rparr>
    \<and> sh_requested \<lparr>sh_requested = True, sh_waiter = WReturned, sh_requester = RNotify\<rparr>"
  using conjunct1 [OF shutdown_signal_can_be_lost] shutdown_can_return by (metis DaeShutdown.select_convs(2))

end
