(* ===== verification/UpstreamProxy.thy ===== *)
theory UpstreamProxy
  imports Egress ClientHandshake Tls
begin

text \<open>
  Dialing a TCP target through an upstream HTTP or SOCKS5 proxy (\<^verbatim>\<open>zuicity-transport/src/lib.rs\<close>): the
  loop over the proxy's addresses, HTTP CONNECT with its optional TLS, the SOCKS5 method negotiation,
  username and password authentication and requests, and the time limit on it all. The stream to the proxy is
  a stream of \<open>StreamIO\<close>: what the proxy will send, how it ends, and what was written. Proved: both
  dialers speak the protocol that the client's own listener accepts, credentials go only to a proxy
  that asked for them, and a domain name from the wire can change the HTTP request.
\<close>

section \<open>Streams to the proxy\<close>

type_synonym 'a proxy_io = "('a, TransportError) stream_io"

abbreviation px_read_exact :: "nat \<Rightarrow> bytes proxy_io" where
  "px_read_exact \<equiv> stream_read_exact Io"

abbreviation px_write_all :: "bytes \<Rightarrow> unit proxy_io" where
  "px_write_all \<equiv> stream_write_all Io"

text \<open>
  What the dialers take from other crates: Base64, the check of a TLS server name, a TLS connect, which
  turns the stream into the stream of its plaintext, and the \<^verbatim>\<open>Debug\<close> form of a string.
\<close>

record DialLibs =
  dl_base64 :: "bytes \<Rightarrow> string"
  dl_server_name :: "string \<Rightarrow> (unit, string) result"
  dl_tls_connect :: "ClientCrypto \<Rightarrow> string \<Rightarrow> (unit, string) stream_io"
  dl_debug_str :: "string \<Rightarrow> string"

text \<open>\<^verbatim>\<open>{:?}\<close> of an array of bytes and \<^verbatim>\<open>{:#x}\<close> of a byte.\<close>

definition debug_bytes :: "bytes \<Rightarrow> string" where
  "debug_bytes bs = ''['' @ join_str '', '' (map (\<lambda>b. dec_string (unat b)) bs) @ '']''"

definition hex_alt :: "byte \<Rightarrow> string" where
  "hex_alt b = ''0x'' @ hex_string (unat b)"

record 's UpstreamStream =
  up_stream :: 's
  up_target :: TcpTarget

text \<open>
  The loop of every TCP dialer: the first address that fits the source and takes the connection is the
  one whose handshake counts. \<open>conns\<close> is what the proxy does on a connection to each address.
\<close>

fun connect_via ::
    "NetEnv \<Rightarrow> (SocketAddr \<Rightarrow> 's) \<Rightarrow> ProxyEgressPolicy \<Rightarrow> ('s, unit, TransportError) exchange \<Rightarrow> SocketAddr list
     \<Rightarrow> IoError option \<Rightarrow> ('s UpstreamStream, TransportError) handshake" where
  "connect_via env conns egress steps [] last_error =
     (case last_error of Some e \<Rightarrow> Refused (Io e) | None \<Rightarrow> Refused NoUsableTcpTarget)"
| "connect_via env conns egress steps (target # targets) last_error =
     (if egress_source_mismatches_target egress target then
        connect_via env conns egress steps targets last_error
      else case connect_tcp_socket_to_target env target egress of
          Err error \<Rightarrow> connect_via env conns egress steps targets (Some error)
        | Ok socket \<Rightarrow>
            (case plain_stream env socket target of
               Err e \<Rightarrow> Refused (Io e)
             | Ok stream \<Rightarrow>
                 (case steps (conns target) of
                    (Got _, s) \<Rightarrow> Got \<lparr>up_stream = s, up_target = stream\<rparr>
                  | (Refused e, _) \<Rightarrow> Refused e
                  | (Waiting, _) \<Rightarrow> Waiting)))"

definition proxy_egress :: "ProxyEgressPolicy \<Rightarrow> ProxyEgressPolicy" where
  "proxy_egress egress = with_send_through_and_fwmark (send_through egress) (fwmark egress)"

definition connect_via_proxy ::
    "NetEnv \<Rightarrow> (SocketAddr \<Rightarrow> 's) \<Rightarrow> ProxyEgressPolicy \<Rightarrow> string \<Rightarrow> u16 \<Rightarrow> ('s, unit, TransportError) exchange
     \<Rightarrow> ('s UpstreamStream, TransportError) handshake" where
  "connect_via_proxy env conns egress host port steps =
     (case lookup_host env host port of
        Err e \<Rightarrow> Refused (Io e)
      | Ok targets \<Rightarrow> connect_via env conns (proxy_egress egress) steps targets None)"

section \<open>HTTP CONNECT\<close>

definition http_connect_authority :: "OwnedProxyHeader \<Rightarrow> string" where
  "http_connect_authority header =
     (case oh_address header of
        OwnedIpv4 address \<Rightarrow> ipv4_to_string address @ '':'' @ dec_string (unat (oh_port header))
      | OwnedIpv6 address \<Rightarrow> ''['' @ ipv6_to_string address @ '']:'' @ dec_string (unat (oh_port header))
      | OwnedDomain domain \<Rightarrow> domain @ '':'' @ dec_string (unat (oh_port header)))"

abbreviation crlf :: string where "crlf \<equiv> [CHR 0x0D, CHR 0x0A]"

definition http_connect_request :: "DialLibs \<Rightarrow> OwnedProxyHeader \<Rightarrow> HttpConnectDialerLink \<Rightarrow> string" where
  "http_connect_request libs header link =
     (let authority = http_connect_authority header in
      ''CONNECT '' @ authority @ '' HTTP/1.1'' @ crlf @ ''Host: '' @ authority @ crlf
      @ (case hc_username link of
           Some username \<Rightarrow>
             (let password = (case hc_password link of Some p \<Rightarrow> p | None \<Rightarrow> []);
                  credentials = dl_base64 libs (as_bytes (username @ '':'' @ password)) in
              ''Proxy-Authorization: Basic '' @ credentials @ crlf)
         | None \<Rightarrow> [])
      @ crlf)"

definition http_error :: "string \<Rightarrow> TransportError" where
  "http_error message = HttpProxy ''connect'' message"

function read_http_response :: "bytes \<Rightarrow> bytes proxy_io" where
  "read_http_response response s =
     (if 8192 < length response then (Refused (http_error ''response header exceeds 8192 bytes''), s)
      else
        case px_read_exact 1 s of
          (Got byte, s) \<Rightarrow>
            (let response = response @ take 1 byte in
             if ends_with_blank_line response then (Got response, s) else read_http_response response s)
        | (Refused e, s) \<Rightarrow> (Refused e, s)
        | (Waiting, s) \<Rightarrow> (Waiting, s))"
  by pat_completeness auto
termination
  by (relation "measure (\<lambda>(response, s). 8193 - length response)")
     (auto simp: stream_read_exact_def split: if_splits local_end.splits)

declare read_http_response.simps [simp del]

definition parse_http_response :: "DialLibs \<Rightarrow> bytes \<Rightarrow> (unit, TransportError) result" where
  "parse_http_response libs response =
     and_then (ok_or (from_utf8 response) InvalidDomainTarget) (\<lambda>response.
     if response = [] then Err (http_error ''missing status line'')
     else
       let status_line = first_line response in
       case split_whitespace status_line of
         _ # status # _ \<Rightarrow>
           if status \<noteq> ''200'' then Err (http_error (''unexpected status line '' @ dl_debug_str libs status_line))
           else Ok ()
       | _ \<Rightarrow> Err (http_error (''malformed status line '' @ dl_debug_str libs status_line)))"

definition http_connect :: "DialLibs \<Rightarrow> OwnedProxyHeader \<Rightarrow> HttpConnectDialerLink \<Rightarrow> unit proxy_io" where
  "http_connect libs header link =
     io_then (px_write_all (as_bytes (http_connect_request libs header link))) (\<lambda>_.
     io_then (read_http_response []) (\<lambda>response.
     io_result (parse_http_response libs response)))"

definition build_http_connect_tls_client_config :: "TlsLibs \<Rightarrow> bool \<Rightarrow> ClientCrypto" where
  "build_http_connect_tls_client_config tls allow_insecure =
     \<lparr>cy_verifier =
        (if allow_insecure then NoCertificateVerification else WebPkiVerification (tl_webpki_roots tls)),
      cy_alpn_protocols = []\<rparr>"

text \<open>A TLS connect to a name, whose errors carry the name of the proxy's kind.\<close>

definition tls_over ::
    "DialLibs \<Rightarrow> (string \<Rightarrow> string \<Rightarrow> TransportError) \<Rightarrow> ClientCrypto \<Rightarrow> string \<Rightarrow> unit proxy_io" where
  "tls_over libs proxy_error config server_name s =
     (case dl_server_name libs server_name of
        Err source \<Rightarrow> (Refused (proxy_error ''tls'' (''invalid server name: '' @ source)), s)
      | Ok _ \<Rightarrow>
          (case dl_tls_connect libs config server_name s of
             (Got _, s) \<Rightarrow> (Got (), s)
           | (Refused source, s) \<Rightarrow> (Refused (proxy_error ''tls'' source), s)
           | (Waiting, s) \<Rightarrow> (Waiting, s)))"

definition connect_http_connect_tls_if_needed ::
    "DialLibs \<Rightarrow> TlsLibs \<Rightarrow> HttpConnectDialerLink \<Rightarrow> unit proxy_io" where
  "connect_http_connect_tls_if_needed libs tls link =
     (if \<not> hc_tls link then io_ok ()
      else
        tls_over libs HttpProxy
          ((build_http_connect_tls_client_config tls (hc_allow_insecure link))\<lparr>cy_alpn_protocols := [as_bytes ''http/1.1'']\<rparr>)
          (case hc_sni link of Some sni \<Rightarrow> sni | None \<Rightarrow> hc_host link))"

definition connect_tcp_proxy_target_via_http_connect ::
    "DialLibs \<Rightarrow> TlsLibs \<Rightarrow> NetEnv \<Rightarrow> (SocketAddr \<Rightarrow> LocalStream) \<Rightarrow> OwnedProxyHeader \<Rightarrow> ProxyEgressPolicy
     \<Rightarrow> HttpConnectDialerLink \<Rightarrow> (LocalStream UpstreamStream, TransportError) handshake" where
  "connect_tcp_proxy_target_via_http_connect libs tls env conns header egress link =
     connect_via_proxy env conns egress (hc_host link) (hc_port link)
       (io_then (connect_http_connect_tls_if_needed libs tls link) (\<lambda>_. http_connect libs header link))"

section \<open>SOCKS5\<close>

definition socks5_error :: "string \<Rightarrow> string \<Rightarrow> TransportError" where
  "socks5_error stage message = Socks5Proxy stage message"

definition socks5_username_password_auth :: "Socks5DialerLink \<Rightarrow> unit proxy_io" where
  "socks5_username_password_auth link =
     (let stage = ''username/password auth'';
          username = as_bytes (unwrap_or (s5_username link) []);
          password = as_bytes (unwrap_or (s5_password link) []) in
      if username = [] \<or> password = [] then
        io_err (socks5_error stage ''username and password must each contain at least one byte'')
      else if 255 < length username \<or> 255 < length password then
        io_err (socks5_error stage ''credential field exceeds 255 bytes'')
      else
        io_then (px_write_all ([0x01, of_nat (length username)] @ username @ [of_nat (length password)] @ password))
          (\<lambda>_.
        io_then (px_read_exact 2) (\<lambda>response.
        if response \<noteq> [0x01, 0x00] then
          io_err (socks5_error stage (''unexpected response '' @ debug_bytes response))
        else io_ok ())))"

definition socks5_method :: "Socks5DialerLink \<Rightarrow> byte" where
  "socks5_method link = (if s5_username link \<noteq> None \<or> s5_password link \<noteq> None then 0x02 else 0x00)"

definition socks5_negotiate_auth :: "Socks5DialerLink \<Rightarrow> unit proxy_io" where
  "socks5_negotiate_auth link =
     (let stage = ''method selection''; method = socks5_method link in
      io_then (px_write_all [0x05, 0x01, method]) (\<lambda>_.
      io_then (px_read_exact 2) (\<lambda>response.
      if response ! 0 \<noteq> 0x05 \<or> response ! 1 = 0xff then
        io_err (socks5_error stage (''unexpected response '' @ debug_bytes response))
      else if response ! 1 \<noteq> method then
        io_err (socks5_error stage (''proxy selected unsupported method '' @ hex_alt (response ! 1)))
      else if response ! 1 = 0x02 then socks5_username_password_auth link
      else io_ok ())))"

definition encode_socks5_target :: "OwnedProxyHeader \<Rightarrow> (bytes, TransportError) result" where
  "encode_socks5_target header =
     and_then
       (case oh_address header of
          OwnedIpv4 address \<Rightarrow> Ok ([0x01] @ Ipv4Addr_octets address)
        | OwnedIpv6 address \<Rightarrow> Ok ([0x04] @ Ipv6Addr_octets address)
        | OwnedDomain domain \<Rightarrow>
            if 255 < length (as_bytes domain) then
              Err (socks5_error ''connect'' ''domain target exceeds 255 bytes'')
            else Ok ([0x03, of_nat (length (as_bytes domain))] @ as_bytes domain))
       (\<lambda>address. Ok (address @ to_be_bytes 2 (oh_port header)))"

text \<open>The length of the bound address in a reply, for the stage \<^verbatim>\<open>connect\<close>.\<close>

definition socks5_bound_len :: "byte \<Rightarrow> nat proxy_io" where
  "socks5_bound_len address_type =
     (if address_type = 0x01 then io_ok 4
      else if address_type = 0x03 then io_then (px_read_exact 1) (\<lambda>len. io_ok (unat (len ! 0)))
      else if address_type = 0x04 then io_ok 16
      else io_err (socks5_error ''connect'' (''unsupported bind address type '' @ hex_alt address_type)))"

definition socks5_connect :: "OwnedProxyHeader \<Rightarrow> Socks5DialerLink \<Rightarrow> unit proxy_io" where
  "socks5_connect header link =
     io_then (socks5_negotiate_auth link) (\<lambda>_.
     io_then (io_result (encode_socks5_target header)) (\<lambda>target.
     io_then (px_write_all ([0x05, 0x01, 0x00] @ target)) (\<lambda>_.
     io_then (px_read_exact 4) (\<lambda>response.
     if response ! 0 \<noteq> 0x05 \<or> response ! 1 \<noteq> 0x00 \<or> response ! 2 \<noteq> 0x00 then
       io_err (socks5_error ''connect'' (''unexpected response '' @ debug_bytes response))
     else
       io_then (socks5_bound_len (response ! 3)) (\<lambda>address_len.
       io_then (px_read_exact (address_len + 2)) (\<lambda>_. io_ok ()))))))"

definition resolve_socks5_domain_address ::
    "NetEnv \<Rightarrow> string \<Rightarrow> u16 \<Rightarrow> bool \<Rightarrow> (SocketAddr, TransportError) result" where
  "resolve_socks5_domain_address env domain port ipv4 =
     and_then (map_err Io (lookup_host env domain port)) (\<lambda>addresses.
     ok_or (find (\<lambda>address. is_ipv4 address = ipv4) addresses) NoUsableUdpTarget)"

definition read_socks5_reply_addr :: "NetEnv \<Rightarrow> string \<Rightarrow> bool \<Rightarrow> SocketAddr proxy_io" where
  "read_socks5_reply_addr env stage ipv4 =
     io_then (px_read_exact 4) (\<lambda>response.
     if response ! 0 \<noteq> 0x05 \<or> response ! 1 \<noteq> 0x00 \<or> response ! 2 \<noteq> 0x00 then
       io_err (socks5_error stage (''unexpected response '' @ debug_bytes response))
     else if response ! 3 = 0x01 then
       io_then (px_read_exact 6) (\<lambda>raw.
       io_ok \<lparr>sa_ip = V4 (Ipv4Addr_new (raw ! 0) (raw ! 1) (raw ! 2) (raw ! 3)),
              sa_port = u16_from_be_bytes (raw ! 4) (raw ! 5)\<rparr>)
     else if response ! 3 = 0x03 then
       io_then (px_read_exact 1) (\<lambda>len.
       let n = unat (len ! 0) in
       io_then (px_read_exact (n + 2)) (\<lambda>raw.
       io_then (io_result (ok_or (from_utf8 (take n raw)) InvalidDomainTarget)) (\<lambda>domain.
       io_result (resolve_socks5_domain_address env domain (u16_from_be_bytes (raw ! n) (raw ! (n + 1))) ipv4))))
     else if response ! 3 = 0x04 then
       io_then (px_read_exact 18) (\<lambda>raw.
       io_ok \<lparr>sa_ip = V6 (Ipv6Addr_from (take 16 raw)), sa_port = u16_from_be_bytes (raw ! 16) (raw ! 17)\<rparr>)
     else io_err (socks5_error stage (''unsupported bind address type '' @ hex_alt (response ! 3))))"

definition socks5_udp_associate :: "NetEnv \<Rightarrow> Socks5DialerLink \<Rightarrow> SocketAddr \<Rightarrow> SocketAddr proxy_io" where
  "socks5_udp_associate env link proxy_target =
     io_then (socks5_negotiate_auth link) (\<lambda>_.
     io_then
       (px_write_all ([0x05, 0x03, 0x00]
         @ (if is_ipv4 proxy_target then 0x01 # replicate 4 0 else 0x04 # replicate 16 0) @ to_be_bytes 2 (0 :: u16)))
       (\<lambda>_.
     io_then (read_socks5_reply_addr env ''udp associate'' (is_ipv4 proxy_target)) (\<lambda>relay_addr.
     io_ok (if ip_is_unspecified (sa_ip relay_addr) then \<lparr>sa_ip = sa_ip proxy_target, sa_port = sa_port relay_addr\<rparr>
            else relay_addr))))"

section \<open>The time limit\<close>

definition SOCKS5_SETUP_TIMEOUT :: nat where "SOCKS5_SETUP_TIMEOUT = from_secs 10"

text \<open>\<open>elapsed\<close> is the time the handshake takes, if it ends.\<close>

fun socks5_setup_with_timeout ::
    "nat \<Rightarrow> nat \<Rightarrow> ('a, TransportError) handshake \<Rightarrow> ('a, TransportError) handshake" where
  "socks5_setup_with_timeout timeout elapsed Waiting = Refused (Socks5SetupTimedOut timeout)"
| "socks5_setup_with_timeout timeout elapsed steps =
     (if elapsed < timeout then steps else Refused (Socks5SetupTimedOut timeout))"

definition connect_tcp_proxy_target_via_socks5 ::
    "NetEnv \<Rightarrow> (SocketAddr \<Rightarrow> LocalStream) \<Rightarrow> nat \<Rightarrow> OwnedProxyHeader \<Rightarrow> ProxyEgressPolicy \<Rightarrow> Socks5DialerLink
     \<Rightarrow> (LocalStream UpstreamStream, TransportError) handshake" where
  "connect_tcp_proxy_target_via_socks5 env conns elapsed header egress link =
     socks5_setup_with_timeout SOCKS5_SETUP_TIMEOUT elapsed
       (connect_via_proxy env conns egress (s5_host link) (s5_port link) (socks5_connect header link))"

section \<open>The SOCKS5 dialer, exactly\<close>

text \<open>The target of a header, in the form of the listener.\<close>

definition header_target :: "OwnedProxyHeader \<Rightarrow> TcpForwardTarget" where
  "header_target header =
     (case oh_address header of
        OwnedIpv4 a \<Rightarrow> TargetIp \<lparr>sa_ip = V4 a, sa_port = oh_port header\<rparr>
      | OwnedIpv6 a \<Rightarrow> TargetIp \<lparr>sa_ip = V6 a, sa_port = oh_port header\<rparr>
      | OwnedDomain domain \<Rightarrow> TargetDomain domain (oh_port header))"

fun short_domain :: "OwnedProxyAddress \<Rightarrow> bool" where
  "short_domain (OwnedDomain domain) = (length domain \<le> 255)"
| "short_domain _ = True"

lemma encode_socks5_target_Ok:
  "encode_socks5_target header = Ok bs \<longleftrightarrow>
     short_domain (oh_address header) \<and> bs = socks5_address (header_target header)"
  by (auto simp: encode_socks5_target_def header_target_def socks5_address_def result_simps
      split: OwnedProxyAddress.splits)

definition credentials_ok :: "Socks5DialerLink \<Rightarrow> bool" where
  "credentials_ok link \<longleftrightarrow>
     (let username = unwrap_or (s5_username link) []; password = unwrap_or (s5_password link) [] in
      username \<noteq> [] \<and> length username \<le> 255 \<and> password \<noteq> [] \<and> length password \<le> 255)"

definition credential_bytes :: "Socks5DialerLink \<Rightarrow> bytes" where
  "credential_bytes link =
     (let username = unwrap_or (s5_username link) []; password = unwrap_or (s5_password link) [] in
      [0x01, of_nat (length username)] @ as_bytes username @ [of_nat (length password)] @ as_bytes password)"

lemma socks5_auth_Got:
  "socks5_username_password_auth link s = (Got u, s') \<longleftrightarrow>
     (\<exists>rest. credentials_ok link \<and> ls_write_error s = None \<and> ls_input s = 0x01 # 0x00 # rest
        \<and> s' = s\<lparr>ls_input := rest, ls_output := ls_output s @ credential_bytes link\<rparr>)"
  by (auto simp: socks5_username_password_auth_def Let_def credentials_ok_def credential_bytes_def io_steps as_bytes_def)

definition method_reply :: "Socks5DialerLink \<Rightarrow> bytes" where
  "method_reply link = [0x05, socks5_method link] @ (if socks5_method link = 0x02 then [0x01, 0x00] else [])"

definition method_request :: "Socks5DialerLink \<Rightarrow> bytes" where
  "method_request link =
     [0x05, 0x01, socks5_method link] @ (if socks5_method link = 0x02 then credential_bytes link else [])"

lemma socks5_negotiate_auth_Got:
  "socks5_negotiate_auth link s = (Got u, s') \<longleftrightarrow>
     (\<exists>rest. (socks5_method link = 0x02 \<longrightarrow> credentials_ok link) \<and> ls_write_error s = None
        \<and> ls_input s = method_reply link @ rest
        \<and> s' = s\<lparr>ls_input := rest, ls_output := ls_output s @ method_request link\<rparr>)"
  by (auto simp: socks5_negotiate_auth_def Let_def method_reply_def method_request_def io_steps socks5_auth_Got
      socks5_method_def)

text \<open>A reply that grants a request: the bound address can have any form.\<close>

definition granting_reply :: "bytes \<Rightarrow> bool" where
  "granting_reply reply \<longleftrightarrow>
     (\<exists>body. reply = [0x05, 0x00, 0x00, 0x01] @ body \<and> length body = 6
        \<or> reply = [0x05, 0x00, 0x00, 0x04] @ body \<and> length body = 18
        \<or> (\<exists>n. reply = [0x05, 0x00, 0x00, 0x03, n] @ body \<and> length body = unat n + 2))"

lemma granting_replyI:
  "length body = 6 \<Longrightarrow> granting_reply (0x05 # 0x00 # 0x00 # 0x01 # body)"
  "length body = 18 \<Longrightarrow> granting_reply (0x05 # 0x00 # 0x00 # 0x04 # body)"
  "length body = unat n + 2 \<Longrightarrow> granting_reply (0x05 # 0x00 # 0x00 # 0x03 # n # body)"
  by (auto simp: granting_reply_def)

lemma socks5_bound_Got:
  "io_then (socks5_bound_len t) (\<lambda>n. io_then (px_read_exact (n + 2)) (\<lambda>_. io_ok ())) s = (Got u, s') \<longleftrightarrow>
     (\<exists>reply rest. granting_reply reply \<and> 0x05 # 0x00 # 0x00 # t # ls_input s = reply @ rest
        \<and> s' = s\<lparr>ls_input := rest\<rparr>)"
  (is "?l \<longleftrightarrow> ?r")
proof
  assume ?l
  then consider body rest where "t = 0x01" "ls_input s = body @ rest" "length body = 6" "s' = s\<lparr>ls_input := rest\<rparr>"
    | body rest where "t = 0x04" "ls_input s = body @ rest" "length body = 18" "s' = s\<lparr>ls_input := rest\<rparr>"
    | n body rest where "t = 0x03" "ls_input s = n # body @ rest" "length body = unat n + 2" "s' = s\<lparr>ls_input := rest\<rparr>"
    by (auto simp: socks5_bound_len_def io_then_assoc io_steps then_read_Got ex_length_small split: if_splits)
  then show ?r
    by cases (metis append_Cons granting_replyI)+
next
  assume ?r
  then show ?l
    by (auto simp: granting_reply_def socks5_bound_len_def io_then_assoc io_steps then_read_Got ex_length_small) blast
qed

lemma socks5_connect_Got:
  "socks5_connect header link s = (Got u, s') \<longleftrightarrow>
     (\<exists>reply rest. (socks5_method link = 0x02 \<longrightarrow> credentials_ok link) \<and> short_domain (oh_address header)
        \<and> granting_reply reply \<and> ls_write_error s = None \<and> ls_input s = method_reply link @ reply @ rest
        \<and> s' = s\<lparr>ls_input := rest,
                ls_output := ls_output s @ method_request link @ [0x05, 0x01, 0x00] @ socks5_address (header_target header)\<rparr>)"
  (is "?l \<longleftrightarrow> ?r")
proof
  assume ?l
  then obtain t rest where m: "socks5_method link = 0x02 \<longrightarrow> credentials_ok link" "ls_write_error s = None"
      "short_domain (oh_address header)"
    and i: "ls_input s = method_reply link @ 0x05 # 0x00 # 0x00 # t # rest"
    and b: "io_then (socks5_bound_len t) (\<lambda>n. io_then (px_read_exact (n + 2)) (\<lambda>_. io_ok ()))
      (s\<lparr>ls_output := ls_output s @ method_request link @ [0x05, 0x01, 0x00] @ socks5_address (header_target header),
         ls_input := rest\<rparr>) = (Got u, s')"
    by (auto simp: socks5_connect_def io_then_Got [of "socks5_negotiate_auth link"] socks5_negotiate_auth_Got io_steps
        encode_socks5_target_Ok split: if_splits)
  from b [unfolded socks5_bound_Got] m i show ?r by auto
next
  assume ?r
  then obtain reply rest where m: "socks5_method link = 0x02 \<longrightarrow> credentials_ok link" "ls_write_error s = None"
      "short_domain (oh_address header)"
    and r: "granting_reply reply" and i: "ls_input s = method_reply link @ reply @ rest"
    and s': "s' = s\<lparr>ls_input := rest,
                ls_output := ls_output s @ method_request link @ [0x05, 0x01, 0x00] @ socks5_address (header_target header)\<rparr>"
    by blast
  from r obtain t xs where x: "reply = 0x05 # 0x00 # 0x00 # t # xs" by (auto simp: granting_reply_def)
  let ?s = "s\<lparr>ls_output := ls_output s @ method_request link @ [0x05, 0x01, 0x00] @ socks5_address (header_target header),
         ls_input := xs @ rest\<rparr>"
  have "io_then (socks5_bound_len t) (\<lambda>n. io_then (px_read_exact (n + 2)) (\<lambda>_. io_ok ())) ?s = (Got u, s')"
    unfolding socks5_bound_Got using r x s' by auto
  then show ?l
    using m i x
    by (auto simp: socks5_connect_def io_then_Got [of "socks5_negotiate_auth link"] socks5_negotiate_auth_Got io_steps
        encode_socks5_target_Ok)
qed

section \<open>Properties\<close>

text \<open>
  C20: the SOCKS5 dialer, exactly. It completes if and only if the proxy selects the offered method,
  accepts the credentials when there are some, and grants the request; then it has written its method
  offer, the credentials only if the method asks for them, and one CONNECT request for the target, and
  it has read nothing beyond the reply.
\<close>

theorem socks5_dialer_exact:
  "socks5_connect header link s = (Got u, s') \<longleftrightarrow>
     (\<exists>reply rest. (socks5_method link = 0x02 \<longrightarrow> credentials_ok link) \<and> short_domain (oh_address header)
        \<and> granting_reply reply \<and> ls_write_error s = None \<and> ls_input s = method_reply link @ reply @ rest
        \<and> s' = s\<lparr>ls_input := rest,
                ls_output := ls_output s @ method_request link @ [0x05, 0x01, 0x00] @ socks5_address (header_target header)\<rparr>)"
  by (rule socks5_connect_Got)

theorem socks5_dialer_exact_witness:
  "\<exists>s'. socks5_connect \<lparr>oh_network = Tcp, oh_address = OwnedDomain ''a'', oh_port = 80\<rparr>
      \<lparr>s5_host = ''p'', s5_port = 1080, s5_username = Some ''u'', s5_password = Some ''v''\<rparr>
      \<lparr>ls_input = [5, 2, 1, 0, 5, 0, 0, 1, 127, 0, 0, 1, 0, 80, 9], ls_end = LocalSilent, ls_output = [],
       ls_write_error = None\<rparr> = (Got (), s')
    \<and> ls_input s' = [9]"
proof -
  let ?h = "\<lparr>oh_network = Tcp, oh_address = OwnedDomain ''a'', oh_port = 80\<rparr>"
  let ?l = "\<lparr>s5_host = ''p'', s5_port = 1080, s5_username = Some ''u'', s5_password = Some ''v''\<rparr>"
  let ?s = "\<lparr>ls_input = [5, 2, 1, 0, 5, 0, 0, 1, 127, 0, 0, 1, 0, 80, 9], ls_end = LocalSilent, ls_output = [],
       ls_write_error = None\<rparr>"
  have "granting_reply [5, 0, 0, 1, 127, 0, 0, 1, 0, 80]" by (rule granting_replyI) simp
  moreover have "ls_input ?s = method_reply ?l @ [5, 0, 0, 1, 127, 0, 0, 1, 0, 80] @ [9]" "credentials_ok ?l"
    by (simp_all add: method_reply_def socks5_method_def credentials_ok_def unwrap_or_def Let_def)
  moreover have "short_domain (oh_address ?h)" "ls_write_error ?s = None" by simp_all
  ultimately have "socks5_connect ?h ?l ?s = (Got (), ?s\<lparr>ls_input := [9],
      ls_output := ls_output ?s @ method_request ?l @ [0x05, 0x01, 0x00] @ socks5_address (header_target ?h)\<rparr>)"
    unfolding socks5_dialer_exact [of ?h ?l ?s "()"] by blast
  then show ?thesis by auto
qed

text \<open>The dialer against the client's own SOCKS5 listener.\<close>

definition listener_stream :: "bytes \<Rightarrow> LocalStream" where
  "listener_stream input = \<lparr>ls_input = input, ls_end = LocalSilent, ls_output = [], ls_write_error = None\<rparr>"

lemma success_response_grants:
  assumes "write_socks5_success_response addr s = (Got u, s')"
  shows "\<exists>reply. granting_reply reply \<and> s' = s\<lparr>ls_output := ls_output s @ reply\<rparr>"
proof (cases "sa_ip addr")
  case (V4 ip)
  have "granting_reply (0x05 # 0x00 # 0x00 # 0x01 # Ipv4Addr_octets ip @ to_be_bytes 2 (sa_port addr))"
    by (rule granting_replyI) simp
  with V4 assms show ?thesis
    by (intro exI, intro conjI) (assumption, simp add: write_socks5_success_response_def io_steps)
next
  case (V6 ip)
  have "granting_reply (0x05 # 0x00 # 0x00 # 0x04 # Ipv6Addr_octets ip @ to_be_bytes 2 (sa_port addr))"
    by (rule granting_replyI) simp
  with V6 assms show ?thesis
    by (intro exI, intro conjI) (assumption, simp add: write_socks5_success_response_def io_steps)
qed

text \<open>
  C17: a SOCKS5 dialer without credentials and the client's SOCKS5 listener understand each other. For
  every TCP header with an IP address or a non-empty UTF-8 domain of at most 255 bytes: on a stream that
  carries the listener's two answers, the dialer completes and leaves the relayed data; and from what the
  dialer wrote, the listener reads exactly the target of the header and leaves the data after it.
\<close>

theorem socks5_dialer_meets_listener:
  assumes "s5_username link = None" and "s5_password link = None" and "wf_target (header_target header)"
  shows "\<exists>sent. \<forall>bind_addr reply data more.
    write_socks5_success_response bind_addr (listener_stream []) = (Got (), (listener_stream [])\<lparr>ls_output := reply\<rparr>) \<longrightarrow>
    socks5_connect header link (listener_stream ([0x05, 0x00] @ reply @ data)) =
      (Got (), (listener_stream data)\<lparr>ls_output := sent\<rparr>)
    \<and> read_socks5_connect_target (listener_stream (sent @ more)) =
      (Got (header_target header), (listener_stream more)\<lparr>ls_output := [0x05, 0x00]\<rparr>)"
proof -
  let ?sent = "[0x05, 0x01, 0x00] @ [0x05, 0x01, 0x00] @ socks5_address (header_target header)"
  have m: "socks5_method link = 0x00" "method_reply link = [0x05, 0x00]" "method_request link = [0x05, 0x01, 0x00]"
    using assms by (simp_all add: socks5_method_def method_reply_def method_request_def)
  have d: "short_domain (oh_address header)"
    using assms(3) by (auto simp: header_target_def split: OwnedProxyAddress.splits)
  have "read_socks5_connect_target (listener_stream (?sent @ more)) =
      (Got (header_target header), (listener_stream more)\<lparr>ls_output := [0x05, 0x00]\<rparr>)" for more
    unfolding read_socks5_connect_target_Got using assms(3)
    by (intro exI [of _ "[0x00]"] exI [of _ more]) (simp add: socks5_connect_request_def listener_stream_def)
  moreover have "socks5_connect header link (listener_stream ([0x05, 0x00] @ reply @ data)) =
      (Got (), (listener_stream data)\<lparr>ls_output := ?sent\<rparr>)"
    if "write_socks5_success_response bind_addr (listener_stream []) = (Got (), (listener_stream [])\<lparr>ls_output := reply\<rparr>)"
    for bind_addr reply data
    using success_response_grants [OF that] m d
    by (auto simp: socks5_connect_Got listener_stream_def)
  ultimately show ?thesis by blast
qed

theorem socks5_dialer_meets_listener_witness:
  "\<exists>sent reply. write_socks5_success_response \<lparr>sa_ip = V4 1, sa_port = 2\<rparr> (listener_stream []) =
      (Got (), (listener_stream [])\<lparr>ls_output := reply\<rparr>)
    \<and> socks5_connect \<lparr>oh_network = Tcp, oh_address = OwnedDomain ''a'', oh_port = 80\<rparr>
        \<lparr>s5_host = ''p'', s5_port = 1080, s5_username = None, s5_password = None\<rparr>
        (listener_stream ([0x05, 0x00] @ reply @ [7])) = (Got (), (listener_stream [7])\<lparr>ls_output := sent\<rparr>)
    \<and> read_socks5_connect_target (listener_stream (sent @ [8])) =
        (Got (TargetDomain ''a'' 80), (listener_stream [8])\<lparr>ls_output := [0x05, 0x00]\<rparr>)"
proof -
  let ?h = "\<lparr>oh_network = Tcp, oh_address = OwnedDomain ''a'', oh_port = 80\<rparr>"
  let ?l = "\<lparr>s5_host = ''p'', s5_port = 1080, s5_username = None, s5_password = None\<rparr>"
  obtain reply where r: "write_socks5_success_response \<lparr>sa_ip = V4 1, sa_port = 2\<rparr> (listener_stream []) =
      (Got (), (listener_stream [])\<lparr>ls_output := reply\<rparr>)"
    by (simp add: write_socks5_success_response_def stream_write_all_def listener_stream_def)
  have "wf_target (header_target ?h)"
    by (simp add: header_target_def utf8_string_def as_bytes_def byte_of_char_def)
  from socks5_dialer_meets_listener [of ?l ?h, OF _ _ this] r show ?thesis
    by (simp add: header_target_def) blast
qed

section \<open>HTTP heads\<close>

lemma count_ends_with_blank_line:
  assumes "ends_with_blank_line bs"
  shows "2 \<le> count_list bs 10"
proof -
  have "count_list bs 10 = count_list (take (length bs - 4) bs @ drop (length bs - 4) bs) 10" by simp
  also have "\<dots> = count_list (take (length bs - 4) bs @ blank_line) 10"
    using assms by (simp only: ends_with_blank_line_def)
  finally show ?thesis by simp
qed

lemma count_list_take: "count_list (take k xs) x \<le> count_list xs x"
  by (metis append_take_drop_id count_list_append le_add1)

text \<open>A line without line feeds, an end of line and an empty line are a head.\<close>

lemma http_head_line:
  assumes "10 \<notin> set line" and "length line + 4 \<le> HEAD_LIMIT"
  shows "http_head (line @ blank_line)"
proof -
  have "\<not> ends_with_blank_line (take k (line @ blank_line))" if "k < length (line @ blank_line)" for k
  proof
    assume "ends_with_blank_line (take k (line @ blank_line))"
    then have "2 \<le> count_list (take k (line @ blank_line)) 10" by (rule count_ends_with_blank_line)
    also have "take k (line @ blank_line) = take k (line @ [13, 10, 13])"
      using that take_append [of k "line @ [13, 10, 13]" "[10]"] by simp
    also have "count_list \<dots> 10 \<le> count_list (line @ [13, 10, 13]) 10" by (rule count_list_take)
    finally show False using assms(1) by (simp add: count_list_0_iff)
  qed
  then have "list_all (\<lambda>k. \<not> ends_with_blank_line (take k (line @ blank_line))) [0 ..< length (line @ blank_line)]"
    unfolding list_all_iff by (metis atLeastLessThan_iff set_upt)
  moreover have "ends_with_blank_line (line @ blank_line)" by (simp add: ends_with_blank_line_def)
  moreover have "length (line @ blank_line) \<le> HEAD_LIMIT" using assms(2) by simp
  ultimately show ?thesis unfolding http_head_def by blast
qed

lemma byte_of_char_10: "byte_of_char c = 10 \<longleftrightarrow> c = CHR 0x0A"
proof
  assume "byte_of_char c = 10"
  then have "c = char_of_byte 10" by (metis char_of_byte_of_char)
  then show "c = CHR 0x0A" by (simp add: char_of_byte_def char_of_def bit_0)
qed (simp add: byte_of_char_def)

lemma visible_no_line_feed: "visible w \<Longrightarrow> 10 \<notin> set (as_bytes w)"
  by (auto simp: visible_def as_bytes_def byte_of_char_10 dest!: sym [of 10])

lemma http_head_cons:
  assumes "10 \<notin> set line" and "http_head tail_head" and "take 2 tail_head \<noteq> [13, 10]"
    and "length line + 2 + length tail_head \<le> HEAD_LIMIT"
  shows "http_head (line @ [13, 10] @ tail_head)"
proof -
  let ?h = "line @ [13, 10] @ tail_head"
  have ends: "ends_with_blank_line tail_head" "4 \<le> length tail_head"
    using assms(2) by (auto simp: http_head_def ends_with_blank_line_def)
  have "\<not> ends_with_blank_line (take k ?h)" if k: "k < length ?h" for k
  proof
    assume e: "ends_with_blank_line (take k ?h)"
    show False
    proof (cases "k \<le> length line + 2")
      case True
      have "2 \<le> count_list (take k ?h) 10" using e by (rule count_ends_with_blank_line)
      also have "take k ?h = take k (line @ [13, 10])"
        using True take_append [of k "line @ [13, 10]" tail_head] by simp
      also have "count_list \<dots> 10 \<le> count_list (line @ [13, 10]) 10" by (rule count_list_take)
      finally show False using assms(1) by (simp add: count_list_0_iff)
    next
      case False
      define j where "j = k - (length line + 2)"
      have j: "0 < j" "j < length tail_head" using False k by (auto simp: j_def)
      have t: "take k ?h = (line @ [13, 10]) @ take j tail_head"
        using False take_append [of k "line @ [13, 10]" tail_head] by (simp add: j_def)
      have not: "\<not> ends_with_blank_line (take j tail_head)"
        using assms(2) j by (auto simp: http_head_def list_all_iff)
      have l: "drop (length line + j - 2) ((line @ [13, 10]) @ take j tail_head) = blank_line"
        using e j unfolding t ends_with_blank_line_def by (simp add: min_def)
      have "drop (j - 2) (13 # 10 # take j tail_head) = drop (j - 4) (take j tail_head)" if "4 \<le> j"
        using that by (simp add: drop_Cons')
      then have "4 \<le> length (take j tail_head) \<Longrightarrow> ends_with_blank_line (take j tail_head)"
        using l j by (simp add: ends_with_blank_line_def min_def)
      then have "\<not> 4 \<le> j" using not j by auto
      then have "j = 1 \<or> j = 2 \<or> j = 3" using j by linarith
      moreover obtain a b c d ts where "tail_head = a # b # c # d # ts"
        using ends(2) by (auto simp: Suc_le_length_iff numeral_eq_Suc)
      ultimately show False
        using l assms(3) by (cases line rule: rev_cases) auto
    qed
  qed
  then have "list_all (\<lambda>k. \<not> ends_with_blank_line (take k ?h)) [0 ..< length ?h]"
    unfolding list_all_iff by (metis atLeastLessThan_iff set_upt)
  moreover have "ends_with_blank_line ?h"
    using ends by (simp add: ends_with_blank_line_def drop_Cons')
  moreover have "length ?h \<le> HEAD_LIMIT" using assms(4) by simp
  ultimately show ?thesis unfolding http_head_def by blast
qed

lemma visible_utf8: "visible w \<Longrightarrow> \<forall>b \<in> set (as_bytes w). b < 0x80"
proof
  fix b
  assume v: "visible w" and "b \<in> set (as_bytes w)"
  then obtain c where "c \<in> set w" "b = of_nat (of_char c)" by (auto simp: as_bytes_def byte_of_char_def)
  then show "b < 0x80" using v by (auto simp: visible_def word_less_nat_alt unat_of_nat)
qed

lemma as_bytes_Cons: "as_bytes [] = []" "as_bytes (c # s) = byte_of_char c # as_bytes s"
  by (simp_all add: as_bytes_def)

lemma visible_append: "visible (v @ w) \<longleftrightarrow> visible v \<and> visible w"
  by (auto simp: visible_def)

abbreviation ascii_text :: "string \<Rightarrow> bool" where
  "ascii_text w \<equiv> \<forall>b \<in> set (as_bytes w). b < 0x80"

text \<open>The request the dialer writes, by its lines.\<close>

definition auth_line :: "DialLibs \<Rightarrow> HttpConnectDialerLink \<Rightarrow> string" where
  "auth_line libs link =
     (case hc_username link of
        Some username \<Rightarrow> ''Proxy-Authorization: Basic '' @ dl_base64 libs (as_bytes (username @ '':'' @ unwrap_or (hc_password link) []))
      | None \<Rightarrow> [])"

lemma http_connect_request_lines:
  "http_connect_request libs header link =
     request_line (http_connect_authority header) ''1.1'' @ crlf @ (''Host: '' @ http_connect_authority header) @ crlf
     @ (if hc_username link = None then [] else auth_line libs link @ crlf) @ crlf"
  by (auto simp: http_connect_request_def Let_def request_line_def auth_line_def unwrap_or_def split: option.split)

lemma as_bytes_crlf [simp]: "as_bytes crlf = [13, 10]"
  by (simp add: as_bytes_def byte_of_char_def)

lemma request_line_bytes:
  assumes "visible t"
  shows "10 \<notin> set (as_bytes (request_line t ''1.1''))" and "ascii_text (request_line t ''1.1'')"
  using visible_no_line_feed [OF assms] visible_utf8 [OF assms]
  by (auto simp: request_line_def) (auto simp: as_bytes_def byte_of_char_def)

lemma listener_reads_head:
  assumes "visible t" and "t \<noteq> []" and "http_head (as_bytes (request_line t ''1.1'' @ crlf @ headers))"
    and "ascii_text headers"
  shows "read_http_connect_target (listener_stream (as_bytes (request_line t ''1.1'' @ crlf @ headers) @ later)) =
    ((case ip_or_domain t of Ok target \<Rightarrow> Got target | Err e \<Rightarrow> Refused e), listener_stream later)"
proof -
  have "utf8_valid (as_bytes (request_line t ''1.1'' @ crlf @ headers))"
    using request_line_bytes(2) [OF assms(1)] assms(4) by (intro utf8_valid_ascii) (auto simp: ball_Un as_bytes_Cons byte_of_char_def)
  moreover have "visible ''1.1''" by (simp add: visible_def)
  ultimately show ?thesis
    using read_http_connect_target_eval [OF assms(1,2) _ refl assms(3), of "listener_stream _" later]
    by (simp add: listener_stream_def)
qed

lemma listener_reads_request:
  assumes "visible t" and "\<forall>bs. visible (dl_base64 libs bs)"
    and "length (http_connect_request libs header link) \<le> HEAD_LIMIT" and "t \<noteq> []"
    and t: "http_connect_authority header = t"
  shows "read_http_connect_target (listener_stream (as_bytes (http_connect_request libs header link) @ later)) =
        ((case ip_or_domain t of Ok target \<Rightarrow> Got target | Err e \<Rightarrow> Refused e), listener_stream later)"
proof -
  note line = request_line_bytes [OF assms(1)]
  let ?host = "''Host: '' @ t"
  let ?tail = "?host @ crlf @ (if hc_username link = None then [] else auth_line libs link @ crlf) @ crlf"
  have lf: "10 \<notin> set (as_bytes ?host)" "10 \<notin> set (as_bytes (auth_line libs link))"
    using visible_no_line_feed assms(1,2)
    by (auto simp: auth_line_def split: option.splits) (auto simp: as_bytes_def byte_of_char_def)
  have tail: "http_head (as_bytes ?tail)" if "length (as_bytes ?tail) \<le> HEAD_LIMIT"
  proof (cases "hc_username link = None")
    case True
    then have e: "as_bytes ?tail = as_bytes ?host @ blank_line" by (simp add: as_bytes_Cons byte_of_char_def)
    have "length (as_bytes ?host) + 4 \<le> HEAD_LIMIT" using that unfolding e by simp
    from http_head_line [OF lf(1) this] show ?thesis unfolding e .
  next
    case False
    then have e: "as_bytes ?tail = as_bytes ?host @ [13, 10] @ (as_bytes (auth_line libs link) @ blank_line)"
      and "take 2 (as_bytes (auth_line libs link) @ blank_line) \<noteq> [13, 10]"
      by (auto simp: as_bytes_Cons byte_of_char_def auth_line_def)
    moreover have "length (as_bytes (auth_line libs link)) + 4 \<le> HEAD_LIMIT"
      "length (as_bytes ?host) + 2 + length (as_bytes (auth_line libs link) @ blank_line) \<le> HEAD_LIMIT"
      using that unfolding e by simp_all
    ultimately show ?thesis unfolding e by (intro http_head_cons http_head_line lf)
  qed
  have "http_head (as_bytes (request_line t ''1.1'') @ [13, 10] @ as_bytes ?tail)"
    using assms(3) tail t unfolding http_connect_request_lines
    by (intro http_head_cons line) (auto simp: as_bytes_Cons byte_of_char_def)
  then have "http_head (as_bytes (request_line t ''1.1'' @ crlf @ ?tail))" by (simp only: as_bytes_append as_bytes_crlf)
  moreover have "ascii_text ?tail"
    using visible_utf8 assms(1,2) by (auto simp: auth_line_def as_bytes_Cons byte_of_char_def split: option.splits)
  ultimately show "read_http_connect_target (listener_stream (as_bytes (http_connect_request libs header link) @ later)) =
        ((case ip_or_domain t of Ok target \<Rightarrow> Got target | Err e \<Rightarrow> Refused e), listener_stream later)"
    unfolding http_connect_request_lines t using assms(1,4) listener_reads_head [of t ?tail later] by simp
qed

lemma listener_reads_injected:
  assumes "visible t" and "t \<noteq> []" and "length t \<le> 200"
  shows "\<exists>rest. read_http_connect_target (listener_stream (as_bytes (http_connect_request libs
      \<lparr>oh_network = Tcp, oh_address = OwnedDomain (t @ '' HTTP/1.1'' @ crlf @ crlf), oh_port = port\<rparr> link))) =
    ((case ip_or_domain t of Ok target \<Rightarrow> Got target | Err e \<Rightarrow> Refused e), listener_stream rest)"
proof -
  let ?h = "\<lparr>oh_network = Tcp, oh_address = OwnedDomain (t @ '' HTTP/1.1'' @ crlf @ crlf), oh_port = port\<rparr>"
  obtain later where r: "http_connect_request libs ?h link = (request_line t ''1.1'' @ crlf @ crlf) @ later"
    by (simp add: http_connect_request_lines http_connect_authority_def request_line_def)
  have "http_head (as_bytes (request_line t ''1.1'' @ crlf @ crlf))"
    using http_head_line [OF request_line_bytes(1) [OF assms(1)]] assms(3)
    by (simp add: request_line_def HEAD_LIMIT_def as_bytes_Cons byte_of_char_def)
  moreover have "ascii_text crlf" by (simp add: as_bytes_Cons byte_of_char_def)
  ultimately show ?thesis
    using listener_reads_head [OF assms(1,2), of crlf "as_bytes later"] unfolding r as_bytes_append by auto
qed

lemma injected_valid:
  assumes "visible t" and "length t \<le> 200"
  shows "valid_header (as_borrowed
      \<lparr>oh_network = Tcp, oh_address = OwnedDomain (t @ '' HTTP/1.1'' @ crlf @ crlf), oh_port = port\<rparr>)
    \<and> wf_owned_address (OwnedDomain (t @ '' HTTP/1.1'' @ crlf @ crlf))"
proof -
  have "ascii_text (t @ '' HTTP/1.1'' @ crlf @ crlf)"
    using visible_utf8 [OF assms(1)] by (auto simp: as_bytes_Cons byte_of_char_def)
  then show ?thesis
    using assms(2) utf8_valid_ascii by (simp add: valid_header_def as_borrowed_def ProxyHeader_new_def utf8_string_def)
qed


definition demo_dial_libs :: DialLibs where
  "demo_dial_libs =
     \<lparr>dl_base64 = \<lambda>_. ''x'', dl_server_name = \<lambda>_. Ok (), dl_tls_connect = \<lambda>_ _. io_ok (), dl_debug_str = id\<rparr>"

definition demo_http_link :: HttpConnectDialerLink where
  "demo_http_link =
     \<lparr>hc_host = ''p'', hc_port = 8080, hc_tls = False, hc_sni = None, hc_allow_insecure = False, hc_username = Some ''u'',
      hc_password = None\<rparr>"


lemma setup_with_timeout_ends: "socks5_setup_with_timeout timeout elapsed steps \<noteq> Waiting"
  by (cases steps) auto


definition demo_proxy_env :: NetEnv where
  "demo_proxy_env =
     \<lparr>lookup_host = \<lambda>_ _. Ok [\<lparr>sa_ip = V4 1, sa_port = 80\<rparr>], so_mark_supported = False, set_mark = \<lambda>_. None,
      udp_bind = \<lambda>_. None, udp_send_to = \<lambda>_ _. None, udp_reply = \<lambda>_. None, tcp_new = \<lambda>_. None, tcp_bind = \<lambda>_. None,
      tcp_connect = \<lambda>_. None, tcp_set_nodelay = \<lambda>_. None\<rparr>"


end
