(* ===== verification/DialedSession.thy ===== *)
theory DialedSession
  imports UdpSession
begin

text \<open>
  The UDP session through a dialer link (\<^verbatim>\<open>relay_udp_over_stream_session\<close>), for every relay: what a
  completed session has read, relayed, and written, and how the session ends at a datagram that the
  relay does not answer. The locale states what a relay over a cached association promises; the
  dialers interpret it.
\<close>

section \<open>Datagrams relayed one after the other\<close>

type_synonym answer = "SocketAddr \<times> SocketAddr \<times> bytes"
type_synonym 'st datagram_relay = "'st \<Rightarrow> OwnedProxyHeader \<Rightarrow> bytes \<Rightarrow> (answer, TransportError) handshake \<times> 'st"

definition client_frame :: "UdpFrame \<Rightarrow> bytes" where
  "client_frame f = udp_frame_bytes (as_borrowed (uf_header f), uf_payload f)"

definition sendable :: "OwnedProxyHeader \<Rightarrow> bytes \<Rightarrow> bool" where
  "sendable h p \<longleftrightarrow>
     oh_network h = Udp \<and> wf_owned_address (oh_address h) \<and> wf_address (ph_address (as_borrowed h)) \<and> length p \<le> 65535"

abbreviation frame_ok :: "UdpFrame \<Rightarrow> bool" where
  "frame_ok f \<equiv> sendable (uf_header f) (uf_payload f)"

lemma read_frame_iff:
  "read_udp_datagram_frame recv = Ok (f, recv') \<longleftrightarrow>
     frame_ok f \<and> fst recv = client_frame f @ fst recv' \<and> snd recv' = snd recv"
  by (auto simp: read_udp_datagram_frame_Ok sendable_def valid_udp_frame_def client_frame_def)

inductive relayed :: "'st datagram_relay \<Rightarrow> 'st \<Rightarrow> UdpFrame list \<Rightarrow> answer list \<Rightarrow> 'st \<Rightarrow> bool"
  for relay where
  relayed_none: "relayed relay st [] [] st"
| relayed_step: "relay st (uf_header f) (uf_payload f) = (Got a, st1) \<Longrightarrow> relayed relay st1 fs as st2
    \<Longrightarrow> relayed relay st (f # fs) (a # as) st2"

definition answer_bytes :: "answer \<Rightarrow> bytes" where
  "answer_bytes a = reply_bytes (snd a)"

definition session_total :: "LinkSession \<Rightarrow> UdpFrame list \<Rightarrow> answer list \<Rightarrow> LinkSession" where
  "session_total s fs as =
     \<lparr>ls_first_target = (case ls_first_target s of Some t \<Rightarrow> Some t | None \<Rightarrow> (case as of [] \<Rightarrow> None | a # _ \<Rightarrow> Some (fst a))),
      ls_bytes_from_client = ls_bytes_from_client s + of_nat (sum_list (map (\<lambda>f. length (uf_payload f)) fs)),
      ls_bytes_from_target = ls_bytes_from_target s + of_nat (sum_list (map (\<lambda>a. length (snd (snd a))) as))\<rparr>"

lemma session_total_nil [simp]: "session_total s [] [] = s"
  by (simp add: session_total_def split: option.splits)

lemma session_total_answered:
  "ls_first_target s = None \<Longrightarrow> ls_first_target (session_total s fs as) = Some t \<Longrightarrow> as \<noteq> []"
  by (auto simp: session_total_def)

lemma write_response_Ok:
  "write_udp_over_stream_response send peer r = (Ok u, send') \<longleftrightarrow>
     length r \<le> 65535 \<and> write_error send = None \<and> send' = send\<lparr>written := written send @ reply_bytes (peer, r)\<rparr>"
  by (cases "length r \<le> 65535")
     (auto simp: response_frame_bytes send_write_all_Ok reply_bytes_def,
      auto simp: write_udp_over_stream_response_def encode_udp_datagram_eq Let_def)

definition link_round :: "LinkSession \<Rightarrow> UdpFrame \<Rightarrow> answer \<Rightarrow> LinkSession" where
  "link_round s f a = session_total s [f] [a]"

lemma session_total_Cons [simp]: "session_total s (f # fs) (a # as) = session_total (link_round s f a) fs as"
  by (simp add: session_total_def link_round_def algebra_simps split: option.splits)

lemma link_round_eq:
  "link_round s f a = s\<lparr>ls_first_target := (case ls_first_target s of None \<Rightarrow> Some (fst a) | Some t \<Rightarrow> Some t),
     ls_bytes_from_client := ls_bytes_from_client s + of_nat (length (uf_payload f)),
     ls_bytes_from_target := ls_bytes_from_target s + of_nat (length (snd (snd a)))\<rparr>"
  by (simp add: link_round_def session_total_def split: option.splits)

text \<open>One round: the frame is read, relayed, and its answer written.\<close>

lemma link_round_answered:
  assumes "read_udp_datagram_frame recv = Ok (f, recv')" "relay st (uf_header f) (uf_payload f) = (Got a, st')"
    "write_udp_over_stream_response send (fst (snd a)) (snd (snd a)) = (Ok u, send')"
  shows "link_session_loop relay st (False # idles) s send recv =
    link_session_loop relay st' idles (link_round s f a) send' recv'"
  using assms by (cases a; cases "ls_first_target s") (simp_all add: link_round_eq)

lemma end_link_session_Ok:
  "end_link_session s b send st = (Ok report, send', st') \<longleftrightarrow>
     (\<exists>t. ls_first_target s = Some t \<and> st' = st
        \<and> report = \<lparr>ur_target = t, ur_bytes_from_client = ls_bytes_from_client s, ur_bytes_from_target = ls_bytes_from_target s\<rparr>
        \<and> (if b then send' = send else send_finish send = (Ok (), send')))"
  by (auto simp: end_link_session_def Let_def send_finish_def split: option.splits if_splits)

lemma finish_written: "send_finish send = (r, send') \<Longrightarrow> written send' = written send"
  by (auto simp: send_finish_def split: if_splits)

lemma link_session_completed:
  "link_session_loop relay st idles s send recv = Some (Ok report, send', st') \<Longrightarrow>
   \<exists>fs as rest. list_all frame_ok fs \<and> fst recv = concat (map client_frame fs) @ rest
     \<and> relayed relay st fs as st' \<and> written send' = written send @ concat (map answer_bytes as)
     \<and> (\<exists>t. ls_first_target (session_total s fs as) = Some t
          \<and> report = \<lparr>ur_target = t, ur_bytes_from_client = ls_bytes_from_client (session_total s fs as),
                      ur_bytes_from_target = ls_bytes_from_target (session_total s fs as)\<rparr>)"
proof (induction idles arbitrary: st s send recv)
  case (Cons idle idles)
  show ?case
  proof (cases "\<exists>b. end_link_session s b send st = (Ok report, send', st')")
    case True
    then show ?thesis
      by (intro exI [of _ "[] :: UdpFrame list"] exI [of _ "[] :: answer list"] exI [of _ "fst recv"])
         (auto simp: end_link_session_Ok finish_written intro: relayed_none split: if_splits)
  next
    case False
    with Cons.prems have nidle: "\<not> idle" by (cases idle) auto
    with Cons.prems False obtain f recv1 where f: "read_udp_datagram_frame recv = Ok (f, recv1)"
      by (cases "read_udp_datagram_frame recv") (auto split: if_splits)
    with Cons.prems nidle obtain a st1 where a: "relay st (uf_header f) (uf_payload f) = (Got a, st1)"
      by (cases "relay st (uf_header f) (uf_payload f)"; cases "fst (relay st (uf_header f) (uf_payload f))") auto
    with Cons.prems nidle f obtain u send1
      where w: "write_udp_over_stream_response send (fst (snd a)) (snd (snd a)) = (Ok u, send1)"
      by (cases a; cases "write_udp_over_stream_response send (fst (snd a)) (snd (snd a))";
          cases "fst (write_udp_over_stream_response send (fst (snd a)) (snd (snd a)))") auto
    have "link_session_loop relay st1 idles (link_round s f a) send1 recv1 = Some (Ok report, send', st')"
      using Cons.prems link_round_answered [where relay = relay, OF f a w, of idles s] nidle by simp
    from Cons.IH [OF this] obtain fs as rest where "list_all frame_ok fs" "fst recv1 = concat (map client_frame fs) @ rest"
     "relayed relay st1 fs as st'" "written send' = written send1 @ concat (map answer_bytes as)"
     "\<exists>t. ls_first_target (session_total (link_round s f a) fs as) = Some t
          \<and> report = \<lparr>ur_target = t, ur_bytes_from_client = ls_bytes_from_client (session_total (link_round s f a) fs as),
                      ur_bytes_from_target = ls_bytes_from_target (session_total (link_round s f a) fs as)\<rparr>"
      by blast
    moreover from w have "written send1 = written send @ answer_bytes a"
      by (simp add: write_response_Ok answer_bytes_def)
    ultimately show ?thesis
      using f relayed_step [of relay, OF a]
      by (intro exI [of _ "f # fs"] exI [of _ "a # as"] exI [of _ rest]) (simp add: read_frame_iff)
  qed
qed simp

text \<open>The datagrams before are answered, one is not: the session ends there with the relay's error.\<close>

definition answers_sent :: "SendStream \<Rightarrow> answer list \<Rightarrow> SendStream" where
  "answers_sent send as = send\<lparr>written := written send @ concat (map answer_bytes as)\<rparr>"

lemma answers_sent_simps [simp]:
  "answers_sent send [] = send" "write_error (answers_sent send as) = write_error send"
  "answers_sent (send\<lparr>written := written send @ answer_bytes a\<rparr>) as = answers_sent send (a # as)"
  by (simp_all add: answers_sent_def)

lemma link_session_stops:
  "relayed relay st fs as st1 \<Longrightarrow> relay st1 (uf_header f) (uf_payload f) = (Refused e, st2) \<Longrightarrow>
   list_all frame_ok (fs @ [f]) \<Longrightarrow> list_all (\<lambda>a. length (snd (snd a)) \<le> 65535) as \<Longrightarrow> write_error send = None \<Longrightarrow>
   link_session_loop relay st (replicate (Suc (length fs)) False @ idles) s send
     (concat (map client_frame (fs @ [f])) @ rest, eos) = Some (Err e, answers_sent send as, st2)"
proof (induction arbitrary: s send rule: relayed.induct)
  case (relayed_none st)
  then have "read_udp_datagram_frame (client_frame f @ rest, eos) = Ok (f, rest, eos)" by (simp add: read_frame_iff)
  with relayed_none show ?case by simp
next
  case (relayed_step st g a st1 fs as st2')
  then have g: "read_udp_datagram_frame (concat (map client_frame ((g # fs) @ [f])) @ rest, eos) =
      Ok (g, concat (map client_frame (fs @ [f])) @ rest, eos)" by (simp add: read_frame_iff)
  have w: "write_udp_over_stream_response send (fst (snd a)) (snd (snd a)) =
      (Ok (), send\<lparr>written := written send @ answer_bytes a\<rparr>)"
    using relayed_step.prems by (simp add: write_response_Ok answer_bytes_def)
  show ?case
    using relayed_step.IH [of "send\<lparr>written := written send @ answer_bytes a\<rparr>" "link_round s g a"] relayed_step.prems
      link_round_answered [where relay = relay, OF g relayed_step.hyps(1) w]
    by simp
qed

section \<open>Relays over an association\<close>

text \<open>
  What a dialer's relay promises while its association is \<open>ready\<close> for a header: an answered datagram has
  put one frame on the \<open>wire\<close> to the proxy and taken one answer off what the proxy sends, and the
  association stays ready; with a \<open>late\<close> proxy the datagram is not answered. A state in which the relay
  answers has or \<open>opened\<close> such an association.
\<close>

locale dialed_link =
  fixes relay :: "'st datagram_relay"
    and wire :: "'st \<Rightarrow> bytes"
    and heard :: "'st \<Rightarrow> bytes"
    and frame :: "OwnedProxyHeader \<Rightarrow> bytes \<Rightarrow> bytes"
    and reply :: "OwnedProxyHeader \<Rightarrow> answer \<Rightarrow> bytes \<Rightarrow> bool"
    and ready :: "'st \<Rightarrow> OwnedProxyHeader \<Rightarrow> bool"
    and late :: "'st \<Rightarrow> bool"
    and opened :: "'st \<Rightarrow> OwnedProxyHeader \<Rightarrow> 'st \<Rightarrow> bool"
  assumes answered: "ready st h \<Longrightarrow> relay st h p = (Got a, st') \<Longrightarrow>
      wire st' = wire st @ frame h p \<and> (\<exists>c. reply h a c \<and> heard st = c @ heard st')"
    and stays_ready: "ready st h \<Longrightarrow> relay st h p = (Got a, st') \<Longrightarrow> ready st h' \<Longrightarrow> ready st' h'"
    and unanswered: "ready st h \<Longrightarrow> late st \<Longrightarrow> sendable h p \<Longrightarrow> fst (relay st h p) = Refused NoUsableUdpTarget"
    and opens: "relay st h p = (Got a, st') \<Longrightarrow>
      \<exists>st0. opened st h st0 \<and> relay st0 h p = (Got a, st')"
begin

lemma relayed_frames:
  "relayed relay st fs as st' \<Longrightarrow> list_all (\<lambda>f. ready st (uf_header f)) fs \<Longrightarrow>
   wire st' = wire st @ concat (map (\<lambda>f. frame (uf_header f) (uf_payload f)) fs)
   \<and> (\<exists>cs. list_all2 (\<lambda>(f, a) c. reply (uf_header f) a c) (zip fs as) cs \<and> heard st = concat cs @ heard st')
   \<and> length as = length fs"
proof (induction rule: relayed.induct)
  case (relayed_step st f a st1 fs as st2)
  then have ready: "list_all (\<lambda>f. ready st1 (uf_header f)) fs"
    by (auto simp: list_all_iff intro: stays_ready [OF _ relayed_step.hyps(1)])
  with relayed_step.IH obtain cs where cs: "list_all2 (\<lambda>(f, a) c. reply (uf_header f) a c) (zip fs as) cs"
    "heard st1 = concat cs @ heard st2" by blast
  from answered [OF _ relayed_step.hyps(1)] relayed_step.prems obtain c where
    "reply (uf_header f) a c" "heard st = c @ heard st1" by auto
  with cs have "list_all2 (\<lambda>(f, a) c. reply (uf_header f) a c) (zip (f # fs) (a # as)) (c # cs)"
    "heard st = concat (c # cs) @ heard st2" by simp_all
  moreover have "wire st1 = wire st @ frame (uf_header f) (uf_payload f)"
    using answered [OF _ relayed_step.hyps(1)] relayed_step.prems by simp
  moreover have "wire st2 = wire st1 @ concat (map (\<lambda>f. frame (uf_header f) (uf_payload f)) fs)" "length as = length fs"
    using relayed_step.IH ready by simp_all
  ultimately show ?case by (intro conjI exI [of _ "c # cs"]) simp_all
qed simp

lemma relayed_ready:
  "relayed relay st fs as st' \<Longrightarrow> list_all (\<lambda>f. ready st (uf_header f)) fs \<Longrightarrow> ready st h \<Longrightarrow> ready st' h"
proof (induction rule: relayed.induct)
  case (relayed_step st f a st1 fs as st2)
  then have "list_all (\<lambda>f. ready st1 (uf_header f)) fs" "ready st1 h"
    by (auto simp: list_all_iff intro: stays_ready [OF _ relayed_step.hyps(1)])
  then show ?case using relayed_step.IH by simp
qed simp

lemma session_exact:
  assumes "link_session_loop relay st idles \<lparr>ls_first_target = None, ls_bytes_from_client = n, ls_bytes_from_target = m\<rparr>
      send recv = Some (Ok report, send', st')"
  shows "\<exists>fs as rest st0. fs \<noteq> [] \<and> list_all frame_ok fs \<and> opened st (uf_header (hd fs)) st0
     \<and> fst recv = concat (map client_frame fs) @ rest
     \<and> written send' = written send @ concat (map answer_bytes as)
     \<and> (list_all (\<lambda>f. ready st0 (uf_header f)) fs \<longrightarrow>
          wire st' = wire st0 @ concat (map (\<lambda>f. frame (uf_header f) (uf_payload f)) fs)
          \<and> (\<exists>cs. list_all2 (\<lambda>(f, a) c. reply (uf_header f) a c) (zip fs as) cs \<and> heard st0 = concat cs @ heard st')
          \<and> length as = length fs \<and> ready st' (uf_header (hd fs)))"
proof -
  from link_session_completed [OF assms] obtain fs as rest t where fs: "list_all frame_ok fs"
    "fst recv = concat (map client_frame fs) @ rest" "relayed relay st fs as st'"
    "written send' = written send @ concat (map answer_bytes as)"
    and t: "ls_first_target (session_total \<lparr>ls_first_target = None, ls_bytes_from_client = n, ls_bytes_from_target = m\<rparr> fs as) = Some t"
    by blast
  from session_total_answered [OF _ t] have "as \<noteq> []" by simp
  with fs(3) obtain f gs a bs st1 where f: "fs = f # gs" "as = a # bs"
    "relay st (uf_header f) (uf_payload f) = (Got a, st1)" "relayed relay st1 gs bs st'"
    by (cases rule: relayed.cases) auto
  from opens [OF f(3)] obtain st0 where st0: "opened st (uf_header f) st0"
    "relay st0 (uf_header f) (uf_payload f) = (Got a, st1)" by blast
  with f have "relayed relay st0 fs as st'" by (auto intro: relayed_step)
  from relayed_frames [OF this] relayed_ready [OF this, of "uf_header f"] fs f st0 show ?thesis
    by (intro exI [of _ fs] exI [of _ as] exI [of _ rest] exI [of _ st0]) simp
qed

lemma session_ends_unanswered:
  assumes "relayed relay st fs as st1" "ready st1 (uf_header f)" "late st1" "list_all frame_ok (fs @ [f])"
    "list_all (\<lambda>a. length (snd (snd a)) \<le> 65535) as" "write_error send = None"
  shows "\<exists>st2. link_session_loop relay st (replicate (Suc (length fs)) False @ idles) s send
     (concat (map client_frame (fs @ [f])) @ rest, eos) = Some (Err NoUsableUdpTarget, answers_sent send as, st2)"
proof -
  from unanswered [OF assms(2,3), of "uf_payload f"] assms(4)
  obtain st2 where "relay st1 (uf_header f) (uf_payload f) = (Refused NoUsableUdpTarget, st2)"
    by (cases "relay st1 (uf_header f) (uf_payload f)") auto
  from link_session_stops [OF assms(1) this assms(4,5,6)] show ?thesis by blast
qed

end

end
