(* ===== verification/StreamDialers.thy ===== *)
theory StreamDialers
  imports UpstreamProxy DialedSession
begin

text \<open>
  The Trojan and VLESS dialers (\<^verbatim>\<open>zuicity-transport/src/lib.rs\<close>): their request headers, the VLESS
  response header that is stripped while the stream is polled, the UDP frames of both, and the relay of
  one datagram at a time over a cached association. Proved: the frames read back, the polled VLESS
  stream delivers exactly what follows the response header however the bytes arrive in pieces, and a
  UDP session through such a link ends with the first datagram that is not answered in time.
\<close>

section \<open>Trojan\<close>

definition trojan_error :: "string \<Rightarrow> string \<Rightarrow> TransportError" where
  "trojan_error stage message = TrojanProxy stage message"

text \<open>\<open>sha224\<close> is the digest of the \<^verbatim>\<open>sha2\<close> crate.\<close>

definition trojan_password_sha224_hex :: "(bytes \<Rightarrow> bytes) \<Rightarrow> string \<Rightarrow> bytes" where
  "trojan_password_sha224_hex sha224 password =
     concat (map (\<lambda>b. map byte_of_char [digit_char (unat (drop_bit 4 b)), digit_char (unat (and b 0x0f))])
       (sha224 (as_bytes password)))"

fun trojan_network_byte :: "Network \<Rightarrow> byte" where
  "trojan_network_byte Tcp = 1"
| "trojan_network_byte Udp = 3"

definition encode_trojan_metadata :: "OwnedProxyHeader \<Rightarrow> (bytes, TransportError) result" where
  "encode_trojan_metadata header =
     and_then
       (case oh_address header of
          OwnedIpv4 address \<Rightarrow> Ok (1 # Ipv4Addr_octets address)
        | OwnedIpv6 address \<Rightarrow> Ok (4 # Ipv6Addr_octets address)
        | OwnedDomain domain \<Rightarrow>
            if 255 < length domain then
              Err (trojan_error ''request'' ''domain target exceeds Trojan metadata length'')
            else Ok (3 # of_nat (length domain) # as_bytes domain))
       (\<lambda>address. Ok (address @ to_be_bytes 2 (oh_port header)))"

abbreviation CRLF :: bytes where "CRLF \<equiv> [13, 10]"

definition write_trojan_tcp_request_header ::
    "(bytes \<Rightarrow> bytes) \<Rightarrow> OwnedProxyHeader \<Rightarrow> TrojanDialerLink \<Rightarrow> unit proxy_io" where
  "write_trojan_tcp_request_header sha224 header link =
     io_then (io_result (encode_trojan_metadata header)) (\<lambda>metadata.
     px_write_all (trojan_password_sha224_hex sha224 (tj_password link) @ CRLF
       @ [trojan_network_byte (oh_network header)] @ metadata @ CRLF))"

definition connect_trojan_stream ::
    "DialLibs \<Rightarrow> TlsLibs \<Rightarrow> (bytes \<Rightarrow> bytes) \<Rightarrow> OwnedProxyHeader \<Rightarrow> TrojanDialerLink \<Rightarrow> unit proxy_io" where
  "connect_trojan_stream libs tls sha224 header link =
     io_then
       (tls_over libs TrojanProxy (build_http_connect_tls_client_config tls (tj_allow_insecure link)) (tj_sni link))
       (\<lambda>_. write_trojan_tcp_request_header sha224 header link)"

definition connect_tcp_proxy_target_via_trojan ::
    "DialLibs \<Rightarrow> TlsLibs \<Rightarrow> (bytes \<Rightarrow> bytes) \<Rightarrow> NetEnv \<Rightarrow> (SocketAddr \<Rightarrow> LocalStream) \<Rightarrow> OwnedProxyHeader
     \<Rightarrow> ProxyEgressPolicy \<Rightarrow> TrojanDialerLink \<Rightarrow> (LocalStream UpstreamStream, TransportError) handshake" where
  "connect_tcp_proxy_target_via_trojan libs tls sha224 env conns header egress link =
     connect_via_proxy env conns egress (tj_host link) (tj_port link) (connect_trojan_stream libs tls sha224 header link)"

definition write_trojan_udp_packet_frame :: "OwnedProxyHeader \<Rightarrow> bytes \<Rightarrow> unit proxy_io" where
  "write_trojan_udp_packet_frame header payload =
     (if 65535 < length payload then
        io_err (trojan_error ''udp packet'' ''UDP payload exceeds Trojan packet length'')
      else
        io_then (io_result (encode_trojan_metadata header)) (\<lambda>metadata.
        px_write_all (metadata @ to_be_bytes 2 (of_nat (length payload) :: u16) @ CRLF @ payload)))"

definition read_trojan_udp_port :: "u16 proxy_io" where
  "read_trojan_udp_port = io_then (px_read_exact 2) (\<lambda>port. io_ok (u16_from_be_bytes (port ! 0) (port ! 1)))"

definition first_address :: "NetEnv \<Rightarrow> string \<Rightarrow> u16 \<Rightarrow> (SocketAddr, TransportError) result" where
  "first_address env domain port =
     and_then (map_err Io (lookup_host env domain port)) (\<lambda>addresses.
     case addresses of [] \<Rightarrow> Err NoUsableUdpTarget | address # _ \<Rightarrow> Ok address)"

definition read_trojan_udp_metadata :: "NetEnv \<Rightarrow> string \<Rightarrow> SocketAddr proxy_io" where
  "read_trojan_udp_metadata env stage =
     io_then (px_read_exact 1) (\<lambda>address_type.
     if address_type ! 0 = 1 then
       io_then (px_read_exact 4) (\<lambda>raw.
       io_then read_trojan_udp_port (\<lambda>port. io_ok \<lparr>sa_ip = V4 (from_be_bytes raw), sa_port = port\<rparr>))
     else if address_type ! 0 = 3 then
       io_then (px_read_exact 1) (\<lambda>len.
       io_then (px_read_exact (unat (len ! 0))) (\<lambda>domain.
       io_then (io_result (ok_or (from_utf8 domain) InvalidDomainTarget)) (\<lambda>domain.
       io_then read_trojan_udp_port (\<lambda>port. io_result (first_address env domain port)))))
     else if address_type ! 0 = 4 then
       io_then (px_read_exact 16) (\<lambda>raw.
       io_then read_trojan_udp_port (\<lambda>port. io_ok \<lparr>sa_ip = V6 (Ipv6Addr_from raw), sa_port = port\<rparr>))
     else
       io_err (trojan_error stage (''unsupported Trojan UDP metadata type '' @ dec_string (unat (address_type ! 0)))))"

definition read_trojan_udp_packet_frame :: "NetEnv \<Rightarrow> nat \<Rightarrow> (SocketAddr \<times> bytes) proxy_io" where
  "read_trojan_udp_packet_frame env buf_len =
     io_then (read_trojan_udp_metadata env ''udp response'') (\<lambda>peer.
     io_then (px_read_exact 2) (\<lambda>payload_len.
     let payload_len = unat (u16_from_be_bytes (payload_len ! 0) (payload_len ! 1)) in
     io_then (px_read_exact 2) (\<lambda>crlf.
     if crlf \<noteq> CRLF then io_err (trojan_error ''udp response'' ''missing Trojan UDP packet CRLF'')
     else if buf_len < payload_len then
       io_err (trojan_error ''udp response'' ''Trojan UDP response exceeds receive buffer'')
     else io_then (px_read_exact payload_len) (\<lambda>payload. io_ok (peer, payload)))))"

section \<open>VLESS\<close>

definition vless_error :: "string \<Rightarrow> string \<Rightarrow> TransportError" where
  "vless_error stage message = VlessProxy stage message"

fun vless_network_byte :: "Network \<Rightarrow> byte" where
  "vless_network_byte Tcp = 1"
| "vless_network_byte Udp = 2"

definition encode_vless_target_metadata :: "OwnedProxyHeader \<Rightarrow> (bytes, TransportError) result" where
  "encode_vless_target_metadata header =
     map_ok (\<lambda>address. to_be_bytes 2 (oh_port header) @ address)
       (case oh_address header of
          OwnedIpv4 address \<Rightarrow> Ok (1 # Ipv4Addr_octets address)
        | OwnedDomain domain \<Rightarrow>
            if 255 < length domain then Err (vless_error ''request'' ''domain target exceeds VLESS metadata length'')
            else Ok (2 # of_nat (length domain) # as_bytes domain)
        | OwnedIpv6 address \<Rightarrow> Ok (3 # Ipv6Addr_octets address))"

text \<open>
  The stream under the VLESS wrapper as its polls meet it: pieces that have arrived, polls that find
  nothing yet, and then the end of the peer's side. A poll takes what fits of one piece.
\<close>

datatype arrival = Arrives bytes | NotYet

record PolledStream =
  ps_arrivals :: "arrival list"
  ps_end :: local_end
  ps_output :: bytes
  ps_write_error :: "IoError option"

datatype read_poll = ReadPending | ReadError IoError | ReadData bytes

definition poll_inner :: "nat \<Rightarrow> PolledStream \<Rightarrow> read_poll \<times> PolledStream" where
  "poll_inner n s =
     (case ps_arrivals s of
        [] \<Rightarrow> (case ps_end s of
                 LocalClosed \<Rightarrow> (ReadData [], s)
               | LocalReset e \<Rightarrow> (ReadError e, s)
               | LocalSilent \<Rightarrow> (ReadPending, s))
      | NotYet # arrivals \<Rightarrow> (ReadPending, s\<lparr>ps_arrivals := arrivals\<rparr>)
      | Arrives bs # arrivals \<Rightarrow>
          (ReadData (take n bs),
           s\<lparr>ps_arrivals := (if length bs \<le> n then arrivals else Arrives (drop n bs) # arrivals)\<rparr>))"

datatype VlessResponseHeaderState = Prefix bytes | Addons nat | Ready

record VlessTcpProxyTargetStream =
  vs_inner :: PolledStream
  vs_response_header :: VlessResponseHeaderState

definition VlessTcpProxyTargetStream_new :: "PolledStream \<Rightarrow> VlessTcpProxyTargetStream" where
  "VlessTcpProxyTargetStream_new inner = \<lparr>vs_inner = inner, vs_response_header = Prefix []\<rparr>"

definition unexpected_eof :: IoError where "unexpected_eof = IoError UnexpectedEof None"
definition invalid_version :: IoError where "invalid_version = IoError InvalidData None"

text \<open>One turn of the \<^verbatim>\<open>while\<close> loop of \<^verbatim>\<open>poll_read\<close>: no result is another turn.\<close>

definition vless_header_turn ::
    "VlessTcpProxyTargetStream \<Rightarrow> read_poll option \<times> VlessTcpProxyTargetStream" where
  "vless_header_turn v =
     (case vs_response_header v of
        Prefix bytes \<Rightarrow>
          (case poll_inner (2 - length bytes) (vs_inner v) of
             (ReadPending, inner) \<Rightarrow> (Some ReadPending, v\<lparr>vs_inner := inner\<rparr>)
           | (ReadError e, inner) \<Rightarrow> (Some (ReadError e), v\<lparr>vs_inner := inner\<rparr>)
           | (ReadData bs, inner) \<Rightarrow>
               (let v = v\<lparr>vs_inner := inner, vs_response_header := Prefix (bytes @ bs)\<rparr> in
                if bs = [] then (Some (ReadError unexpected_eof), v)
                else if length (bytes @ bs) = 2 then
                  (if (bytes @ bs) ! 0 \<noteq> 0 then (Some (ReadError invalid_version), v)
                   else
                     let remaining = unat ((bytes @ bs) ! 1) in
                     (None, v\<lparr>vs_response_header := (if remaining = 0 then Ready else Addons remaining)\<rparr>))
                else (None, v)))
      | Addons remaining \<Rightarrow>
          (case poll_inner (min remaining 64) (vs_inner v) of
             (ReadPending, inner) \<Rightarrow> (Some ReadPending, v\<lparr>vs_inner := inner\<rparr>)
           | (ReadError e, inner) \<Rightarrow> (Some (ReadError e), v\<lparr>vs_inner := inner\<rparr>)
           | (ReadData bs, inner) \<Rightarrow>
               (let v = v\<lparr>vs_inner := inner\<rparr> in
                if bs = [] then (Some (ReadError unexpected_eof), v)
                else
                  let remaining = remaining - length bs in
                  (None, v\<lparr>vs_response_header := (if remaining = 0 then Ready else Addons remaining)\<rparr>)))
      | Ready \<Rightarrow> (None, v))"

text \<open>How much is still to come: every turn and every read takes some of it.\<close>

fun arrival_size :: "arrival \<Rightarrow> nat" where
  "arrival_size (Arrives bs) = Suc (length bs)"
| "arrival_size NotYet = 1"

definition to_come :: "PolledStream \<Rightarrow> nat" where
  "to_come s = sum_list (map arrival_size (ps_arrivals s))"

lemma poll_inner_takes:
  "poll_inner n s = (ReadData bs, s') \<Longrightarrow> bs \<noteq> [] \<Longrightarrow> to_come s' < to_come s"
  "poll_inner n s = (ReadPending, s') \<Longrightarrow> ps_arrivals s \<noteq> [] \<Longrightarrow> to_come s' < to_come s"
  "poll_inner n s = (ReadPending, s') \<Longrightarrow> to_come s' \<le> to_come s"
  by (auto simp: poll_inner_def to_come_def split: list.splits arrival.splits local_end.splits if_splits)

lemma vless_header_turn_takes:
  assumes "vless_header_turn v = (None, v')" "vs_response_header v \<noteq> Ready"
  shows "to_come (vs_inner v') < to_come (vs_inner v)"
  using assms
  by (auto simp: vless_header_turn_def Let_def poll_inner_takes split: VlessResponseHeaderState.splits prod.splits
      read_poll.splits if_splits)

function vless_poll_read :: "nat \<Rightarrow> VlessTcpProxyTargetStream \<Rightarrow> read_poll \<times> VlessTcpProxyTargetStream" where
  "vless_poll_read n v =
     (if vs_response_header v = Ready then
        (case poll_inner n (vs_inner v) of (r, inner) \<Rightarrow> (r, v\<lparr>vs_inner := inner\<rparr>))
      else
        case vless_header_turn v of
          (Some r, v) \<Rightarrow> (r, v)
        | (None, v) \<Rightarrow> vless_poll_read n v)"
  by pat_completeness auto
termination
  by (relation "measure (\<lambda>(n, v). to_come (vs_inner v))") (auto dest: vless_header_turn_takes [OF sym])

declare vless_poll_read.simps [simp del]

lemma vless_header_turn_pends:
  assumes "vless_header_turn v = (Some ReadPending, v')" "ps_arrivals (vs_inner v) \<noteq> []"
  shows "to_come (vs_inner v') < to_come (vs_inner v)"
  using assms
  by (auto simp: vless_header_turn_def Let_def poll_inner_takes split: VlessResponseHeaderState.splits prod.splits
      read_poll.splits if_splits)

lemma vless_header_turn_pends_le:
  assumes "vless_header_turn v = (Some ReadPending, v')"
  shows "to_come (vs_inner v') \<le> to_come (vs_inner v)"
  using assms
  by (auto simp: vless_header_turn_def Let_def poll_inner_takes split: VlessResponseHeaderState.splits prod.splits
      read_poll.splits if_splits)

lemma vless_header_turn_no_data: "vless_header_turn v \<noteq> (Some (ReadData bs), v')"
  by (auto simp: vless_header_turn_def Let_def split: VlessResponseHeaderState.splits prod.splits
      read_poll.splits if_splits)

lemma vless_poll_read_takes:
  "vless_poll_read n v = (r, v') \<Longrightarrow> r = ReadPending \<or> (\<exists>bs. r = ReadData bs \<and> bs \<noteq> []) \<Longrightarrow>
   to_come (vs_inner v') \<le> to_come (vs_inner v)
   \<and> (r \<noteq> ReadPending \<or> ps_arrivals (vs_inner v) \<noteq> [] \<longrightarrow> to_come (vs_inner v') < to_come (vs_inner v))"
proof (induction n v rule: vless_poll_read.induct)
  case (1 n v)
  show ?case
  proof (cases "vs_response_header v = Ready")
    case True
    then show ?thesis
      using "1.prems" by (subst (asm) vless_poll_read.simps) (auto simp: poll_inner_takes dest: poll_inner_takes split: prod.splits intro: less_imp_le)
  next
    case False
    show ?thesis
    proof (cases "vless_header_turn v")
      case (Pair r' w)
      show ?thesis
      proof (cases r')
        case None
        with Pair vless_header_turn_takes [of v w] False have "to_come (vs_inner w) < to_come (vs_inner v)" by simp
        moreover have "vless_poll_read n w = (r, v')"
          using "1.prems"(1) False Pair None by (subst (asm) vless_poll_read.simps) simp
        ultimately show ?thesis using "1.IH" [OF False Pair [symmetric] None] "1.prems"(2) by auto
      next
        case (Some x)
        with "1.prems"(1) False Pair have "x = r" "w = v'" by (auto simp: vless_poll_read.simps [of n v])
        with Pair Some "1.prems"(2) show ?thesis
          using vless_header_turn_pends [of v v'] vless_header_turn_pends_le [of v v'] vless_header_turn_no_data by auto
      qed
    qed
  qed
qed

text \<open>\<^verbatim>\<open>AsyncReadExt::read_exact\<close> over the polls: a poll that finds nothing and has nothing to come waits.\<close>

function vless_read_exact_from :: "nat \<Rightarrow> bytes \<Rightarrow> (VlessTcpProxyTargetStream, bytes, TransportError) exchange" where
  "vless_read_exact_from n acc v =
     (if n = 0 then (Got acc, v)
      else
        case vless_poll_read n v of
          (ReadPending, v') \<Rightarrow>
            if ps_arrivals (vs_inner v) = [] then (Waiting, v') else vless_read_exact_from n acc v'
        | (ReadError e, v') \<Rightarrow> (Refused (Io e), v')
        | (ReadData bs, v') \<Rightarrow>
            if bs = [] then (Refused (Io unexpected_eof), v')
            else vless_read_exact_from (n - length bs) (acc @ bs) v')"
  by pat_completeness auto
termination
  by (relation "measure (\<lambda>(n, acc, v). to_come (vs_inner v))")
     (auto dest: vless_poll_read_takes [OF sym])

declare vless_read_exact_from.simps [simp del]

definition vless_read_exact :: "nat \<Rightarrow> (VlessTcpProxyTargetStream, bytes, TransportError) exchange" where
  "vless_read_exact n = vless_read_exact_from n []"

definition vless_write_all :: "bytes \<Rightarrow> (VlessTcpProxyTargetStream, unit, TransportError) exchange" where
  "vless_write_all bs v =
     (case ps_write_error (vs_inner v) of
        None \<Rightarrow> (Got (), v\<lparr>vs_inner := (vs_inner v)\<lparr>ps_output := ps_output (vs_inner v) @ bs\<rparr>\<rparr>)
      | Some e \<Rightarrow> (Refused (Io e), v))"

definition write_vless_request_header ::
    "OwnedProxyHeader \<Rightarrow> VlessDialerLink \<Rightarrow> (VlessTcpProxyTargetStream, unit, TransportError) exchange" where
  "write_vless_request_header header link =
     io_then (io_result (encode_vless_target_metadata header)) (\<lambda>metadata.
     vless_write_all ([0] @ vl_key link @ [0, vless_network_byte (oh_network header)] @ metadata))"

definition connect_tcp_proxy_target_via_vless ::
    "NetEnv \<Rightarrow> (SocketAddr \<Rightarrow> PolledStream) \<Rightarrow> OwnedProxyHeader \<Rightarrow> ProxyEgressPolicy \<Rightarrow> VlessDialerLink
     \<Rightarrow> (VlessTcpProxyTargetStream UpstreamStream, TransportError) handshake" where
  "connect_tcp_proxy_target_via_vless env conns header egress link =
     connect_via_proxy env (\<lambda>target. VlessTcpProxyTargetStream_new (conns target)) egress (vl_host link) (vl_port link)
       (write_vless_request_header header link)"

definition write_vless_udp_packet_frame :: "bytes \<Rightarrow> (VlessTcpProxyTargetStream, unit, TransportError) exchange" where
  "write_vless_udp_packet_frame payload =
     (if 65535 < length payload then io_err (vless_error ''udp packet'' ''payload exceeds VLESS UDP frame length'')
      else
        io_then (vless_write_all (to_be_bytes 2 (of_nat (length payload) :: u16))) (\<lambda>_.
        vless_write_all payload))"

definition read_vless_udp_packet_frame :: "nat \<Rightarrow> (VlessTcpProxyTargetStream, bytes, TransportError) exchange" where
  "read_vless_udp_packet_frame buf_len =
     io_then (vless_read_exact 2) (\<lambda>length_bytes.
     let len = unat (u16_from_be_bytes (length_bytes ! 0) (length_bytes ! 1)) in
     if buf_len < len then io_err (vless_error ''udp packet'' ''payload exceeds receive buffer'')
     else vless_read_exact len)"

section \<open>Datagrams through the links\<close>

text \<open>
  A reply that does not come within the second is an error of the relay. What the stream brings in that
  second is what it holds: a stream that is then silent is one whose reply is late.
\<close>

datatype UdpEgressRelayState =
    RelayDirect
  | RelayTrojan "LocalStream option"
  | RelayVless "(OwnedProxyHeader \<times> VlessTcpProxyTargetStream) option"

definition UdpEgressRelayState_default :: UdpEgressRelayState where
  "UdpEgressRelayState_default = RelayDirect"

fun within_one_second :: "('a, TransportError) handshake \<Rightarrow> ('a, TransportError) handshake" where
  "within_one_second Waiting = Refused NoUsableUdpTarget"
| "within_one_second (Got x) = Got x"
| "within_one_second (Refused e) = Refused e"

definition connect_trojan_udp_association ::
    "DialLibs \<Rightarrow> TlsLibs \<Rightarrow> (bytes \<Rightarrow> bytes) \<Rightarrow> NetEnv \<Rightarrow> (SocketAddr \<Rightarrow> LocalStream) \<Rightarrow> OwnedProxyHeader
     \<Rightarrow> ProxyEgressPolicy \<Rightarrow> TrojanDialerLink \<Rightarrow> (LocalStream, TransportError) handshake" where
  "connect_trojan_udp_association libs tls sha224 env conns header egress link =
     (if oh_network header \<noteq> Udp then Refused (UnexpectedProxyNetwork (oh_network header))
      else case connect_tcp_proxy_target_via_trojan libs tls sha224 env conns header egress link of
          Got u \<Rightarrow> Got (up_stream u)
        | Refused e \<Rightarrow> Refused e
        | Waiting \<Rightarrow> Waiting)"

definition trojan_exchange :: "NetEnv \<Rightarrow> OwnedProxyHeader \<Rightarrow> bytes \<Rightarrow> (SocketAddr \<times> SocketAddr \<times> bytes) proxy_io" where
  "trojan_exchange env header payload =
     io_then (write_trojan_udp_packet_frame header payload) (\<lambda>_.
     io_then (\<lambda>s. case read_trojan_udp_packet_frame env 65535 s of (r, s) \<Rightarrow> (within_one_second r, s))
       (\<lambda>(peer, response).
     case udp_ip_header_target header of
       Ok target \<Rightarrow> io_ok (target, peer, response)
     | Err error \<Rightarrow> if error = UnsupportedDomainTarget then io_ok (peer, peer, response) else io_err error))"

definition relay_udp_payload_to_target_via_trojan ::
    "DialLibs \<Rightarrow> TlsLibs \<Rightarrow> (bytes \<Rightarrow> bytes) \<Rightarrow> NetEnv \<Rightarrow> (SocketAddr \<Rightarrow> LocalStream) \<Rightarrow> ProxyEgressPolicy
     \<Rightarrow> TrojanDialerLink \<Rightarrow> UdpEgressRelayState \<Rightarrow> OwnedProxyHeader \<Rightarrow> bytes
     \<Rightarrow> (SocketAddr \<times> SocketAddr \<times> bytes, TransportError) handshake \<times> UdpEgressRelayState" where
  "relay_udp_payload_to_target_via_trojan libs tls sha224 env conns egress link relay_state header payload =
     (if oh_network header \<noteq> Udp then (Refused (UnexpectedProxyNetwork (oh_network header)), relay_state)
      else
        let association = (case relay_state of RelayTrojan association \<Rightarrow> association | _ \<Rightarrow> None) in
        case (case association of
                Some stream \<Rightarrow> Got stream
              | None \<Rightarrow> connect_trojan_udp_association libs tls sha224 env conns header egress link) of
          Refused e \<Rightarrow> (Refused e, RelayTrojan None)
        | Waiting \<Rightarrow> (Waiting, RelayTrojan None)
        | Got stream \<Rightarrow>
            (case trojan_exchange env header payload stream of (r, stream) \<Rightarrow> (r, RelayTrojan (Some stream))))"

definition connect_vless_udp_association ::
    "NetEnv \<Rightarrow> (SocketAddr \<Rightarrow> PolledStream) \<Rightarrow> OwnedProxyHeader \<Rightarrow> ProxyEgressPolicy \<Rightarrow> VlessDialerLink
     \<Rightarrow> (VlessTcpProxyTargetStream, TransportError) handshake" where
  "connect_vless_udp_association env conns header egress link =
     (if oh_network header \<noteq> Udp then Refused (UnexpectedProxyNetwork (oh_network header))
      else case connect_tcp_proxy_target_via_vless env conns header egress link of
          Got u \<Rightarrow> Got (up_stream u)
        | Refused e \<Rightarrow> Refused e
        | Waiting \<Rightarrow> Waiting)"

definition vless_exchange ::
    "NetEnv \<Rightarrow> OwnedProxyHeader \<Rightarrow> bytes
     \<Rightarrow> (VlessTcpProxyTargetStream, SocketAddr \<times> SocketAddr \<times> bytes, TransportError) exchange" where
  "vless_exchange env header payload =
     io_then (write_vless_udp_packet_frame payload) (\<lambda>_.
     io_then (\<lambda>s. case read_vless_udp_packet_frame 65535 s of (r, s) \<Rightarrow> (within_one_second r, s))
       (\<lambda>response.
     io_then (io_result (case udp_ip_header_target header of
         Ok target \<Rightarrow> Ok target
       | Err error \<Rightarrow>
           if error = UnsupportedDomainTarget then
             and_then (udp_header_targets env header) (\<lambda>targets.
             case targets of [] \<Rightarrow> Err NoUsableUdpTarget | target # _ \<Rightarrow> Ok target)
           else Err error))
       (\<lambda>peer. io_ok (peer, peer, response))))"

definition relay_udp_payload_to_target_via_vless ::
    "NetEnv \<Rightarrow> (SocketAddr \<Rightarrow> PolledStream) \<Rightarrow> ProxyEgressPolicy \<Rightarrow> VlessDialerLink
     \<Rightarrow> UdpEgressRelayState \<Rightarrow> OwnedProxyHeader \<Rightarrow> bytes
     \<Rightarrow> (SocketAddr \<times> SocketAddr \<times> bytes, TransportError) handshake \<times> UdpEgressRelayState" where
  "relay_udp_payload_to_target_via_vless env conns egress link relay_state header payload =
     (if oh_network header \<noteq> Udp then (Refused (UnexpectedProxyNetwork (oh_network header)), relay_state)
      else
        let association = (case relay_state of RelayVless association \<Rightarrow> association | _ \<Rightarrow> None) in
        case (case association of
                Some (current, stream) \<Rightarrow>
                  if current \<noteq> header then connect_vless_udp_association env conns header egress link else Got stream
              | None \<Rightarrow> connect_vless_udp_association env conns header egress link) of
          Refused e \<Rightarrow> (Refused e, RelayVless association)
        | Waiting \<Rightarrow> (Waiting, RelayVless association)
        | Got stream \<Rightarrow>
            (case vless_exchange env header payload stream of
               (r, stream) \<Rightarrow> (r, RelayVless (Some (header, stream)))))"

section \<open>The VLESS stream is the stream behind the response header\<close>

fun arrival_bytes :: "arrival \<Rightarrow> bytes" where
  "arrival_bytes (Arrives bs) = bs"
| "arrival_bytes NotYet = []"

text \<open>The same stream without its polls, and what is left to read for \<open>n\<close> bytes in each header state.\<close>

definition unpolled :: "PolledStream \<Rightarrow> LocalStream" where
  "unpolled s = \<lparr>ls_input = concat (map arrival_bytes (ps_arrivals s)), ls_end = ps_end s,
     ls_output = ps_output s, ls_write_error = ps_write_error s\<rparr>"

definition no_empty_piece :: "PolledStream \<Rightarrow> bool" where
  "no_empty_piece s \<longleftrightarrow> Arrives [] \<notin> set (ps_arrivals s)"

definition after_vless_version :: "nat \<Rightarrow> bytes \<Rightarrow> bytes proxy_io" where
  "after_vless_version n prefix =
     (if prefix ! 0 \<noteq> 0 then io_err (Io invalid_version)
      else io_then (px_read_exact (unat (prefix ! 1))) (\<lambda>_. px_read_exact n))"

fun vless_expected :: "nat \<Rightarrow> VlessResponseHeaderState \<Rightarrow> bytes proxy_io" where
  "vless_expected n (Prefix bytes) =
     io_then (px_read_exact (2 - length bytes)) (\<lambda>later. after_vless_version n (bytes @ later))"
| "vless_expected n (Addons remaining) = io_then (px_read_exact remaining) (\<lambda>_. px_read_exact n)"
| "vless_expected n Ready = px_read_exact n"

fun header_state_ok :: "VlessResponseHeaderState \<Rightarrow> bool" where
  "header_state_ok (Prefix bytes) = (length bytes < 2)"
| "header_state_ok (Addons remaining) = (0 < remaining)"
| "header_state_ok Ready = True"

lemma poll_inner_cases:
  assumes "no_empty_piece s" "0 < n"
  obtains (data) bs s' where "poll_inner n s = (ReadData bs, s')" "bs \<noteq> []" "length bs \<le> n" "no_empty_piece s'"
      "ls_input (unpolled s) = bs @ ls_input (unpolled s')" "unpolled s' = (unpolled s)\<lparr>ls_input := ls_input (unpolled s')\<rparr>"
  | (pends) s' where "poll_inner n s = (ReadPending, s')" "unpolled s' = unpolled s" "no_empty_piece s'"
      "ps_arrivals s = [] \<longrightarrow> ls_end (unpolled s) = LocalSilent \<and> s' = s"
  | (closed) "poll_inner n s = (ReadData [], s)" "ls_input (unpolled s) = []" "ls_end (unpolled s) = LocalClosed"
  | (reset) e where "poll_inner n s = (ReadError e, s)" "ls_input (unpolled s) = []" "ls_end (unpolled s) = LocalReset e"
proof (cases "ps_arrivals s")
  case Nil
  then show ?thesis
    using pends [of s] closed reset assms by (cases "ps_end s") (auto simp: poll_inner_def unpolled_def)
next
  case (Cons a as)
  show ?thesis
  proof (cases a)
    case NotYet
    with Cons show ?thesis
      by (intro pends [of "s\<lparr>ps_arrivals := as\<rparr>"]) (use assms in \<open>auto simp: poll_inner_def unpolled_def no_empty_piece_def\<close>)
  next
    case (Arrives bs)
    with Cons assms have "bs \<noteq> []" by (auto simp: no_empty_piece_def)
    then show ?thesis
      by (intro data [of "take n bs" "s\<lparr>ps_arrivals := (if length bs \<le> n then as else Arrives (drop n bs) # as)\<rparr>"])
        (use Cons Arrives assms in \<open>auto simp: poll_inner_def unpolled_def no_empty_piece_def\<close>)
  qed
qed

text \<open>A read of which the first bytes are there, or nothing is.\<close>

lemma read_first_part:
  assumes "ls_input l = bs @ rest" "length bs \<le> n"
  shows "io_then (stream_read_exact wrap n) f l =
    io_then (stream_read_exact wrap (n - length bs)) (\<lambda>later. f (bs @ later)) (l\<lparr>ls_input := rest\<rparr>)"
  using assms by (auto simp: io_then_def stream_read_exact_def split: local_end.splits)

lemma read_nothing_there:
  assumes "ls_input l = []" "0 < n"
  shows "ls_end l = LocalClosed \<Longrightarrow> fst (io_then (stream_read_exact wrap n) f l) = Refused (wrap (IoError UnexpectedEof None))"
    "ls_end l = LocalReset e \<Longrightarrow> fst (io_then (stream_read_exact wrap n) f l) = Refused (wrap e)"
    "ls_end l = LocalSilent \<Longrightarrow> fst (io_then (stream_read_exact wrap n) f l) = Waiting"
  using assms by (auto simp: io_then_def stream_read_exact_def)

lemma read_no_bytes: "io_then (stream_read_exact wrap 0) f l = f [] l"
  by (simp add: io_then_def stream_read_exact_def)

lemma read_then_ok: "io_then m io_ok = m"
  by (rule ext) (auto simp: io_then_def io_ok_def split: prod.splits handshake.splits)

abbreviation still_expected :: "nat \<Rightarrow> VlessTcpProxyTargetStream \<Rightarrow> (bytes, TransportError) handshake \<times> LocalStream" where
  "still_expected n v \<equiv> vless_expected n (vs_response_header v) (unpolled (vs_inner v))"

abbreviation vless_ok :: "VlessTcpProxyTargetStream \<Rightarrow> bool" where
  "vless_ok v \<equiv> header_state_ok (vs_response_header v) \<and> no_empty_piece (vs_inner v)"

fun turn_correct :: "nat \<Rightarrow> VlessTcpProxyTargetStream \<Rightarrow> read_poll option \<times> VlessTcpProxyTargetStream \<Rightarrow> bool" where
  "turn_correct n v (None, v') = (still_expected n v' = still_expected n v \<and> vless_ok v')"
| "turn_correct n v (Some ReadPending, v') =
     (still_expected n v' = still_expected n v \<and> vless_ok v'
      \<and> (ps_arrivals (vs_inner v) = [] \<longrightarrow> fst (still_expected n v) = Waiting))"
| "turn_correct n v (Some (ReadError e), v') = (fst (still_expected n v) = Refused (Io e))"
| "turn_correct n v (Some (ReadData bs), v') = False"

lemma length_less_2: "length xs < 2 \<Longrightarrow> xs = [] \<or> (\<exists>a. xs = [a])"
  by (cases xs; cases "tl xs") auto

lemma prefix_turn_correct:
  assumes ok: "no_empty_piece (vs_inner v)" and st: "vs_response_header v = Prefix bytes" "length bytes < 2"
  shows "turn_correct n v (vless_header_turn v)"
proof -
  have pos: "0 < 2 - length bytes" using st by simp
  show ?thesis
    using ok pos
  proof (cases rule: poll_inner_cases)
    case (data bs s')
    note first = read_first_part [OF data(5) data(3), where wrap = Io and f = "\<lambda>later. after_vless_version n (bytes @ later)"]
    show ?thesis
    proof (cases "length (bytes @ bs) = 2")
      case True
      then obtain a b where ab: "bytes @ bs = [a, b]" unfolding length_small by blast
      from True have sum: "length bytes + length bs = 2" by simp
      have "still_expected n v = after_vless_version n [a, b] (unpolled s')"
        using first data(6) sum st ab by (simp add: read_no_bytes flip: append_assoc)
      then show ?thesis
        using data st ab sum
        by (auto simp: vless_header_turn_def after_vless_version_def io_err_def read_no_bytes Let_def unat_eq_0 unat_gt_0
            simp flip: append_assoc)
    next
      case False
      then have "2 - length bytes - length bs = 2 - length (bytes @ bs)" "length (bytes @ bs) < 2" using data(3) st by auto
      then show ?thesis
        using first data st False by (simp add: vless_header_turn_def Let_def)
    qed
  next
    case (pends s')
    then show ?thesis using st pos by (auto simp: vless_header_turn_def read_nothing_there unpolled_def)
  next
    case closed
    then show ?thesis using st pos by (simp add: vless_header_turn_def Let_def read_nothing_there unexpected_eof_def)
  next
    case (reset e)
    then show ?thesis using st pos by (simp add: vless_header_turn_def read_nothing_there)
  qed
qed

lemma addons_turn_correct:
  assumes ok: "no_empty_piece (vs_inner v)" and st: "vs_response_header v = Addons remaining" "0 < remaining"
  shows "turn_correct n v (vless_header_turn v)"
proof -
  have pos: "0 < min remaining 64" using st by simp
  show ?thesis
    using ok pos
  proof (cases rule: poll_inner_cases)
    case (data bs s')
    then have len: "length bs \<le> remaining" by simp
    note first = read_first_part [OF data(5) len, where wrap = Io and f = "\<lambda>_. px_read_exact n"]
    then show ?thesis
      using data st by (auto simp: vless_header_turn_def Let_def read_no_bytes)
  next
    case (pends s')
    then show ?thesis using st by (auto simp: vless_header_turn_def read_nothing_there unpolled_def)
  next
    case closed
    then show ?thesis using st by (simp add: vless_header_turn_def Let_def read_nothing_there unexpected_eof_def)
  next
    case (reset e)
    then show ?thesis using st by (simp add: vless_header_turn_def read_nothing_there)
  qed
qed

lemma vless_header_turn_correct:
  assumes "vless_ok v" "vs_response_header v \<noteq> Ready"
  shows "turn_correct n v (vless_header_turn v)"
  using assms prefix_turn_correct addons_turn_correct by (cases "vs_response_header v") auto

text \<open>A poll of the wrapped stream, against what is expected of it.\<close>

fun poll_correct :: "nat \<Rightarrow> VlessTcpProxyTargetStream \<Rightarrow> read_poll \<times> VlessTcpProxyTargetStream \<Rightarrow> bool" where
  "poll_correct n v (ReadPending, v') =
     (still_expected n v' = still_expected n v \<and> vless_ok v'
      \<and> (ps_arrivals (vs_inner v) = [] \<longrightarrow> fst (still_expected n v) = Waiting))"
| "poll_correct n v (ReadError e, v') = (fst (still_expected n v) = Refused (Io e))"
| "poll_correct n v (ReadData bs, v') =
     (if bs = [] then fst (still_expected n v) = Refused (Io unexpected_eof)
      else length bs \<le> n \<and> vs_response_header v' = Ready \<and> vless_ok v'
        \<and> still_expected n v =
            io_then (px_read_exact (n - length bs)) (\<lambda>later. io_ok (bs @ later)) (unpolled (vs_inner v')))"

lemma ready_poll_correct:
  assumes ok: "vless_ok v" and st: "vs_response_header v = Ready" and n: "0 < n"
  shows "poll_correct n v (vless_poll_read n v)"
proof -
  from ok have "no_empty_piece (vs_inner v)" by simp
  from this n show ?thesis
  proof (cases rule: poll_inner_cases)
    case (data bs s')
    from read_first_part [OF data(5) data(3), where wrap = Io and f = io_ok] show ?thesis
      using data st by (simp add: vless_poll_read.simps read_then_ok)
  next
    case (pends s')
    from pends(4) read_nothing_there(3) [of "unpolled (vs_inner v)" n Io io_ok] show ?thesis
      using pends st n by (auto simp: vless_poll_read.simps read_then_ok unpolled_def)
  next
    case closed
    with read_nothing_there(1) [of "unpolled (vs_inner v)" n Io io_ok] show ?thesis
      using st n by (simp add: vless_poll_read.simps read_then_ok unexpected_eof_def)
  next
    case (reset e)
    with read_nothing_there(2) [of "unpolled (vs_inner v)" n e Io io_ok] show ?thesis
      using st n by (simp add: vless_poll_read.simps read_then_ok)
  qed
qed

lemma pending_after_turn:
  assumes "vless_header_turn v = (None, w)" "vs_response_header v \<noteq> Ready"
  shows "ps_arrivals (vs_inner v) \<noteq> []"
  using vless_header_turn_takes [OF assms] by (auto simp: to_come_def)

lemma vless_poll_read_correct:
  "vless_ok v \<Longrightarrow> 0 < n \<Longrightarrow> poll_correct n v (vless_poll_read n v)"
proof (induction n v rule: vless_poll_read.induct)
  case (1 n v)
  show ?case
  proof (cases "vs_response_header v = Ready")
    case True
    with "1.prems" show ?thesis by (simp add: ready_poll_correct)
  next
    case False
    obtain r w where t: "vless_header_turn v = (r, w)" by fastforce
    note turn = vless_header_turn_correct [OF "1.prems"(1) False, of n, unfolded t]
    show ?thesis
    proof (cases r)
      case None
      with t False have step: "vless_poll_read n v = vless_poll_read n w" by (simp add: vless_poll_read.simps [of n v])
      from None turn have "still_expected n w = still_expected n v" "vless_ok w" by simp_all
      moreover from "1.IH" [OF False t [symmetric] None] "1.prems"(2) this have "poll_correct n w (vless_poll_read n w)" by simp
      ultimately show ?thesis
        using pending_after_turn [of v w] t None False step
        by (cases "vless_poll_read n w"; cases "fst (vless_poll_read n w)") auto
    next
      case (Some x)
      with t False have "vless_poll_read n v = (x, w)" by (simp add: vless_poll_read.simps [of n v])
      with turn Some show ?thesis by (cases x) auto
    qed
  qed
qed

text \<open>An exchange on the wrapped stream agrees with one on the plain stream.\<close>

definition agrees :: "('a, TransportError) handshake \<times> VlessTcpProxyTargetStream
    \<Rightarrow> ('a, TransportError) handshake \<times> LocalStream \<Rightarrow> bool" where
  "agrees polled plain \<longleftrightarrow>
     fst polled = fst plain
     \<and> ((\<exists>x. fst plain = Got x) \<longrightarrow> unpolled (vs_inner (snd polled)) = snd plain
          \<and> vs_response_header (snd polled) = Ready \<and> no_empty_piece (vs_inner (snd polled)))"

lemma io_then_cong_result:
  "m s = m' s' \<Longrightarrow> io_then m f s = io_then m' f s'"
  by (simp add: io_then_def)

lemma io_then_stops:
  "fst (m s) = Refused e \<Longrightarrow> fst (io_then m f s) = Refused e"
  "fst (m s) = Waiting \<Longrightarrow> fst (io_then m f s) = Waiting"
  by (auto simp: io_then_def split: prod.splits handshake.splits)

lemma vless_read_exact_from_correct:
  "vless_ok v \<Longrightarrow> 0 < n \<or> vs_response_header v = Ready \<Longrightarrow>
   agrees (vless_read_exact_from n acc v)
     (io_then (vless_expected n (vs_response_header v)) (\<lambda>later. io_ok (acc @ later)) (unpolled (vs_inner v)))"
proof (induction n acc v rule: vless_read_exact_from.induct)
  case (1 n acc v)
  let ?plain = "\<lambda>n acc v. io_then (vless_expected n (vs_response_header v)) (\<lambda>later. io_ok (acc @ later)) (unpolled (vs_inner v))"
  show ?case
  proof (cases "n = 0")
    case True
    with "1.prems" show ?thesis
      by (simp add: vless_read_exact_from.simps read_no_bytes io_ok_def agrees_def)
  next
    case False
    obtain p w where p: "vless_poll_read n v = (p, w)" by fastforce
    from vless_poll_read_correct [OF "1.prems"(1), of n] False p have c: "poll_correct n v (p, w)" by simp
    show ?thesis
    proof (cases p)
      case ReadPending
      show ?thesis
      proof (cases "ps_arrivals (vs_inner v) = []")
        case True
        with c ReadPending p False show ?thesis
          by (simp add: vless_read_exact_from.simps [of n acc v] agrees_def io_then_stops)
      next
        case silent: False
        from c ReadPending have "?plain n acc w = ?plain n acc v" "vless_ok w" by (auto intro: io_then_cong_result)
        with "1.IH"(1) [OF False p [symmetric] ReadPending silent] False p ReadPending silent show ?thesis
          by (simp add: vless_read_exact_from.simps [of n acc v])
      qed
    next
      case (ReadError e)
      with c p False show ?thesis
        by (simp add: vless_read_exact_from.simps [of n acc v] agrees_def io_then_stops)
    next
      case (ReadData bs)
      show ?thesis
      proof (cases "bs = []")
        case True
        with c ReadData p False show ?thesis
          by (simp add: vless_read_exact_from.simps [of n acc v] agrees_def io_then_stops)
      next
        case some: False
        from c ReadData some have w: "vs_response_header w = Ready" "vless_ok w"
          and e: "still_expected n v = io_then (px_read_exact (n - length bs)) (\<lambda>later. io_ok (bs @ later)) (unpolled (vs_inner w))"
          by auto
        have "?plain n acc v = ?plain (n - length bs) (acc @ bs) w"
          unfolding io_then_def [of _ _ "unpolled (vs_inner v)"] e unfolding io_then_def [symmetric] w(1)
          by (auto simp: io_then_def io_ok_def split: prod.splits handshake.splits)
        with "1.IH"(2) [OF False p [symmetric] ReadData some] w False p ReadData some show ?thesis
          by (simp add: vless_read_exact_from.simps [of n acc v])
      qed
    qed
  qed
qed

section \<open>Trojan frames read back\<close>

definition trojan_metadata :: "OwnedProxyHeader \<Rightarrow> bytes" where
  "trojan_metadata header =
     (case oh_address header of
        OwnedIpv4 address \<Rightarrow> 1 # Ipv4Addr_octets address
      | OwnedIpv6 address \<Rightarrow> 4 # Ipv6Addr_octets address
      | OwnedDomain domain \<Rightarrow> 3 # of_nat (length domain) # as_bytes domain)
     @ to_be_bytes 2 (oh_port header)"

definition trojan_frame :: "OwnedProxyHeader \<Rightarrow> bytes \<Rightarrow> bytes" where
  "trojan_frame header payload =
     trojan_metadata header @ to_be_bytes 2 (of_nat (length payload) :: u16) @ CRLF @ payload"

text \<open>The peer that a reply's metadata name.\<close>

definition trojan_peer :: "NetEnv \<Rightarrow> OwnedProxyHeader \<Rightarrow> (SocketAddr, TransportError) result" where
  "trojan_peer env header =
     (case oh_address header of
        OwnedIpv4 a \<Rightarrow> Ok \<lparr>sa_ip = V4 a, sa_port = oh_port header\<rparr>
      | OwnedIpv6 a \<Rightarrow> Ok \<lparr>sa_ip = V6 a, sa_port = oh_port header\<rparr>
      | OwnedDomain domain \<Rightarrow> first_address env domain (oh_port header))"

abbreviation wf_header :: "OwnedProxyHeader \<Rightarrow> bool" where
  "wf_header h \<equiv> short_domain (oh_address h) \<and> wf_owned_address (oh_address h)"

lemma encode_trojan_metadata_Ok:
  "encode_trojan_metadata header = Ok bs \<longleftrightarrow> short_domain (oh_address header) \<and> bs = trojan_metadata header"
  by (auto simp: encode_trojan_metadata_def trojan_metadata_def result_simps split: OwnedProxyAddress.splits)

lemma write_trojan_frame_Got:
  "write_trojan_udp_packet_frame header payload s = (Got u, s') \<longleftrightarrow>
     length payload \<le> 65535 \<and> short_domain (oh_address header) \<and> ls_write_error s = None
     \<and> s' = s\<lparr>ls_output := ls_output s @ trojan_frame header payload\<rparr>"
  by (auto simp: write_trojan_udp_packet_frame_def encode_trojan_metadata_Ok trojan_frame_def io_steps)

text \<open>Reading a field whose encoding has a fixed length.\<close>

lemma then_read_field:
  assumes "\<And>bs. length bs = n \<Longrightarrow> enc (dec bs) = bs" "\<And>x. length (enc x) = n" "\<And>x. dec (enc x) = x"
    "\<And>bs. length bs = n \<Longrightarrow> f bs = g (dec bs)"
  shows "io_then (stream_read_exact wrap n) f s = (Got y, s') \<longleftrightarrow>
    (\<exists>x rest. ls_input s = enc x @ rest \<and> g x (s\<lparr>ls_input := rest\<rparr>) = (Got y, s'))"
  unfolding then_read_Got by (metis assms)

lemma then_read_port_Got [io_steps]:
  "io_then read_trojan_udp_port f s = (Got y, s') \<longleftrightarrow>
     (\<exists>p rest. ls_input s = to_be_bytes 2 p @ rest \<and> f p (s\<lparr>ls_input := rest\<rparr>) = (Got y, s'))"
proof -
  have "io_then read_trojan_udp_port f = io_then (px_read_exact 2) (\<lambda>port. f (u16_from_be_bytes (port ! 0) (port ! 1)))"
    by (simp add: read_trojan_udp_port_def io_then_assoc then_ok_Got [abs_def])
  moreover have "u16_from_be_bytes (bs ! 0) (bs ! 1) = from_be_bytes bs" if "length bs = 2" for bs
    using that [unfolded length_small] by auto
  ultimately show ?thesis
    by (simp add: then_read_field [where dec = from_be_bytes and enc = "to_be_bytes 2" and g = f] to_be_bytes_from_be_bytes)
qed

text \<open>The fields of an address, after the byte that tells its type.\<close>

lemmas read_fields = then_read_1 then_read_port_Got then_result_Got then_ok_Got then_err_Got
  then_read_Got [where n = 4] then_read_Got [where n = 16] then_read_Got [where n = "unat k" for k]

lemma known_first_part:
  "length xs = n \<Longrightarrow> (\<exists>bs. length bs = n \<and> (\<exists>rest. xs @ ys = bs @ rest \<and> P bs rest)) \<longleftrightarrow> P xs ys"
  by (metis append_eq_append_conv)

lemma to_be_bytes_2_inject [simp]: "to_be_bytes 2 (p :: u16) = to_be_bytes 2 q \<longleftrightarrow> p = q"
  by (metis u16_bytes_roundtrip(1))

lemma read_known:
  "ls_input s = bs @ rest \<Longrightarrow> length bs = n \<Longrightarrow>
     io_then (stream_read_exact wrap n) f s = f bs (s\<lparr>ls_input := rest\<rparr>)"
  "ls_input s = a # b # rest \<Longrightarrow> io_then (stream_read_exact wrap 2) f s = f [a, b] (s\<lparr>ls_input := rest\<rparr>)"
  by (simp_all add: io_eval io_then_def stream_read_exact_def)

lemma domain_field:
  "length raw = unat (n :: byte) \<and> from_utf8 raw = Some d \<longleftrightarrow>
     length d \<le> 255 \<and> utf8_string d \<and> n = of_nat (length d) \<and> raw = as_bytes d"
proof
  assume "length raw = unat n \<and> from_utf8 raw = Some d"
  then show "length d \<le> 255 \<and> utf8_string d \<and> n = of_nat (length d) \<and> raw = as_bytes d"
    using unat_byte_le [of n] by (auto simp: from_utf8_def utf8_string_def split: if_splits)
qed (auto simp: unat_of_nat_u8)

lemma read_trojan_metadata_Got [io_steps]:
  "io_then (read_trojan_udp_metadata env stage) f s = (Got y, s') \<longleftrightarrow>
     (\<exists>h peer rest. oh_network h = Udp \<and> wf_header h \<and> trojan_peer env h = Ok peer
        \<and> ls_input s = trojan_metadata h @ rest \<and> f peer (s\<lparr>ls_input := rest\<rparr>) = (Got y, s'))"
  (is "?l \<longleftrightarrow> ?r")
proof
  assume ?l
  then consider raw p rest where "ls_input s = 1 # raw @ to_be_bytes 2 p @ rest" "length raw = 4"
      "f \<lparr>sa_ip = V4 (from_be_bytes raw), sa_port = p\<rparr> (s\<lparr>ls_input := rest\<rparr>) = (Got y, s')"
    | raw p rest where "ls_input s = 4 # raw @ to_be_bytes 2 p @ rest" "length raw = 16"
      "f \<lparr>sa_ip = V6 (Ipv6Addr_from raw), sa_port = p\<rparr> (s\<lparr>ls_input := rest\<rparr>) = (Got y, s')"
    | n raw d p rest peer where "ls_input s = 3 # n # raw @ to_be_bytes 2 p @ rest" "length raw = unat n" "from_utf8 raw = Some d"
      "first_address env d p = Ok peer" "f peer (s\<lparr>ls_input := rest\<rparr>) = (Got y, s')"
    by (auto simp: read_trojan_udp_metadata_def io_then_assoc read_fields ok_or_Ok split: if_splits)
  then show ?r
  proof cases
    case (1 raw p rest)
    then show ?thesis
      by (intro exI [of _ "\<lparr>oh_network = Udp, oh_address = OwnedIpv4 (from_be_bytes raw), oh_port = p\<rparr>"] exI [of _ rest] exI)
        (simp add: trojan_peer_def trojan_metadata_def octets_from_be_bytes)
  next
    case (2 raw p rest)
    then show ?thesis
      by (intro exI [of _ "\<lparr>oh_network = Udp, oh_address = OwnedIpv6 (Ipv6Addr_from raw), oh_port = p\<rparr>"] exI [of _ rest] exI)
        (simp add: trojan_peer_def trojan_metadata_def)
  next
    case (3 n raw d p rest peer)
    with domain_field [of raw n d] show ?thesis
      by (intro exI [of _ "\<lparr>oh_network = Udp, oh_address = OwnedDomain d, oh_port = p\<rparr>"] exI [of _ rest] exI)
        (simp add: trojan_peer_def trojan_metadata_def)
  qed
next
  assume ?r
  then obtain h peer rest where h: "wf_header h" "trojan_peer env h = Ok peer" "ls_input s = trojan_metadata h @ rest"
    "f peer (s\<lparr>ls_input := rest\<rparr>) = (Got y, s')" by blast
  then show ?l
    by (cases "oh_address h") (simp_all add: read_trojan_udp_metadata_def io_then_assoc read_fields trojan_metadata_def
        trojan_peer_def known_first_part octets_from_be_bytes ok_or_Ok unat_of_nat_u8)
qed

lemma read_trojan_frame_Got:
  "read_trojan_udp_packet_frame env 65535 s = (Got (peer, payload), s') \<longleftrightarrow>
     (\<exists>h rest. oh_network h = Udp \<and> wf_header h \<and> trojan_peer env h = Ok peer \<and> length payload \<le> 65535
        \<and> ls_input s = trojan_frame h payload @ rest \<and> s' = s\<lparr>ls_input := rest\<rparr>)"
  (is "?l \<longleftrightarrow> ?r")
proof
  assume ?l
  then obtain h a b rest where h: "oh_network h = Udp" "wf_header h" "trojan_peer env h = Ok peer"
    "ls_input s = trojan_metadata h @ a # b # 13 # 10 # payload @ rest"
    "length payload = unat (u16_from_be_bytes a b)" "s' = s\<lparr>ls_input := rest\<rparr>"
    by (auto simp: read_trojan_udp_packet_frame_def io_steps then_read_Got [where n = "unat k" for k] Let_def
        split: if_splits)
  moreover from h(5) have "to_be_bytes 2 (of_nat (length payload) :: u16) = [a, b]" by simp
  ultimately show ?r
    using unat_u16_le [of "u16_from_be_bytes a b"]
    by (intro exI [of _ h] exI [of _ rest]) (simp add: trojan_frame_def)
next
  assume ?r
  then obtain h rest where h: "oh_network h = Udp" "wf_header h" "trojan_peer env h = Ok peer" "length payload \<le> 65535"
    "ls_input s = trojan_metadata h @ to_be_bytes 2 (of_nat (length payload) :: u16) @ CRLF @ payload @ rest"
    "s' = s\<lparr>ls_input := rest\<rparr>" by (auto simp: trojan_frame_def)
  show ?l
    unfolding read_trojan_udp_packet_frame_def read_trojan_metadata_Got
  proof (intro exI [of _ h] exI [of _ peer] exI conjI)
    show "ls_input s = trojan_metadata h @ to_be_bytes 2 (of_nat (length payload) :: u16) @ CRLF @ payload @ rest" by fact
  qed (use h in \<open>simp_all add: read_known to_be_bytes_2 Let_def unat_of_nat_u16 io_ok_def\<close>)
qed

text \<open>One datagram over the association, when it is answered.\<close>

definition answer_target :: "OwnedProxyHeader \<Rightarrow> SocketAddr \<Rightarrow> SocketAddr" where
  "answer_target header peer = (case udp_ip_header_target header of Ok target \<Rightarrow> target | Err _ \<Rightarrow> peer)"

lemma udp_ip_header_target_Err:
  "oh_network header = Udp \<Longrightarrow> udp_ip_header_target header = Err e \<Longrightarrow> e = UnsupportedDomainTarget"
  by (auto simp: udp_ip_header_target_def split: OwnedProxyAddress.splits option.splits)

lemma within_one_second_Got: "within_one_second r = Got x \<longleftrightarrow> r = Got x"
  by (cases r) auto

definition trojan_reply :: "NetEnv \<Rightarrow> OwnedProxyHeader \<Rightarrow> answer \<Rightarrow> bytes \<Rightarrow> bool" where
  "trojan_reply env header a reply \<longleftrightarrow>
     (case a of (target, peer, response) \<Rightarrow>
        \<exists>h. oh_network h = Udp \<and> wf_header h \<and> trojan_peer env h = Ok peer \<and> length response \<le> 65535
          \<and> reply = trojan_frame h response \<and> target = answer_target header peer)"

lemma trojan_exchange_Got:
  assumes "oh_network header = Udp"
  shows "trojan_exchange env header payload s = (Got a, s') \<longleftrightarrow>
     length payload \<le> 65535 \<and> short_domain (oh_address header) \<and> ls_write_error s = None
     \<and> (\<exists>reply rest. trojan_reply env header a reply \<and> ls_input s = reply @ rest
          \<and> s' = s\<lparr>ls_input := rest, ls_output := ls_output s @ trojan_frame header payload\<rparr>)"
proof -
  have target: "(case udp_ip_header_target header of Ok target \<Rightarrow> io_ok (target, peer, response)
      | Err error \<Rightarrow> if error = UnsupportedDomainTarget then io_ok (peer, peer, response) else io_err error) =
      io_ok (answer_target header peer, peer, response)" for peer response
    using udp_ip_header_target_Err [OF assms] by (auto simp: answer_target_def split: result.splits)
  have read: "(case read_trojan_udp_packet_frame env 65535 s of (r, s) \<Rightarrow> (within_one_second r, s)) = (Got x, s') \<longleftrightarrow>
      read_trojan_udp_packet_frame env 65535 s = (Got x, s')" for s x s'
    by (auto simp: within_one_second_Got split: prod.splits)
  show ?thesis
    by (cases a) (auto simp: trojan_exchange_def target io_then_Got write_trojan_frame_Got read read_trojan_frame_Got
        io_ok_Got trojan_reply_def)
qed

section \<open>The links as relays\<close>

definition trojan_stream :: "(LocalStream \<Rightarrow> bytes) \<Rightarrow> UdpEgressRelayState \<Rightarrow> bytes" where
  "trojan_stream part st = (case st of RelayTrojan (Some s) \<Rightarrow> part s | _ \<Rightarrow> [])"

definition trojan_ready :: "UdpEgressRelayState \<Rightarrow> OwnedProxyHeader \<Rightarrow> bool" where
  "trojan_ready st h \<longleftrightarrow> oh_network h = Udp \<and> (\<exists>s. st = RelayTrojan (Some s))"

definition trojan_late :: "UdpEgressRelayState \<Rightarrow> bool" where
  "trojan_late st \<longleftrightarrow>
     (\<exists>s. st = RelayTrojan (Some s) \<and> ls_input s = [] \<and> ls_end s = LocalSilent \<and> ls_write_error s = None)"

lemma trojan_relay_ready:
  "oh_network h = Udp \<Longrightarrow>
   relay_udp_payload_to_target_via_trojan libs tls sha224 env conns egress link (RelayTrojan (Some s)) h p =
     (case trojan_exchange env h p s of (r, s) \<Rightarrow> (r, RelayTrojan (Some s)))"
  by (simp add: relay_udp_payload_to_target_via_trojan_def)

lemma trojan_unanswered:
  assumes "oh_network h = Udp" "ls_input s = []" "ls_end s = LocalSilent" "ls_write_error s = None" "sendable h p"
  shows "fst (trojan_exchange env h p s) = Refused NoUsableUdpTarget"
proof -
  from assms have "write_trojan_udp_packet_frame h p s =
      (Got (), s\<lparr>ls_output := ls_output s @ trojan_frame h p\<rparr>)"
    by (cases "oh_address h") (auto simp: write_trojan_frame_Got sendable_def as_borrowed_def ProxyHeader_new_def)
  with assms show ?thesis
    by (simp add: trojan_exchange_def io_then_def read_trojan_udp_packet_frame_def read_trojan_udp_metadata_def
        stream_read_exact_def)
qed

definition trojan_opened ::
    "DialLibs \<Rightarrow> TlsLibs \<Rightarrow> (bytes \<Rightarrow> bytes) \<Rightarrow> NetEnv \<Rightarrow> (SocketAddr \<Rightarrow> LocalStream) \<Rightarrow> ProxyEgressPolicy
     \<Rightarrow> TrojanDialerLink \<Rightarrow> UdpEgressRelayState \<Rightarrow> OwnedProxyHeader \<Rightarrow> UdpEgressRelayState \<Rightarrow> bool" where
  "trojan_opened libs tls sha224 env conns egress link st h st0 \<longleftrightarrow>
     (case st of
        RelayTrojan (Some s) \<Rightarrow> st0 = st
      | _ \<Rightarrow> \<exists>s. connect_trojan_udp_association libs tls sha224 env conns h egress link = Got s \<and> st0 = RelayTrojan (Some s))"

lemma trojan_opens:
  assumes "relay_udp_payload_to_target_via_trojan libs tls sha224 env conns egress link st h p = (Got a, st')"
  shows "\<exists>st0. trojan_opened libs tls sha224 env conns egress link st h st0
    \<and> relay_udp_payload_to_target_via_trojan libs tls sha224 env conns egress link st0 h p = (Got a, st')"
  using assms
  by (auto simp: relay_udp_payload_to_target_via_trojan_def trojan_opened_def Let_def
      split: if_splits UdpEgressRelayState.splits option.splits handshake.splits)

interpretation trojan: dialed_link "relay_udp_payload_to_target_via_trojan libs tls sha224 env conns egress link"
  "trojan_stream ls_output" "trojan_stream ls_input" trojan_frame "trojan_reply env" trojan_ready trojan_late
  "trojan_opened libs tls sha224 env conns egress link"
  for libs tls sha224 env conns egress link
proof
  fix st h p a st'
  assume "trojan_ready st h" "relay_udp_payload_to_target_via_trojan libs tls sha224 env conns egress link st h p = (Got a, st')"
  then obtain s s' where st: "st = RelayTrojan (Some s)" "st' = RelayTrojan (Some s')" "oh_network h = Udp"
    "trojan_exchange env h p s = (Got a, s')"
    by (auto simp: trojan_ready_def trojan_relay_ready split: prod.splits)
  then show "trojan_stream ls_output st' = trojan_stream ls_output st @ trojan_frame h p
      \<and> (\<exists>c. trojan_reply env h a c \<and> trojan_stream ls_input st = c @ trojan_stream ls_input st')"
    by (auto simp: trojan_exchange_Got trojan_stream_def)
  show "trojan_ready st h' \<Longrightarrow> trojan_ready st' h'" for h'
    using st by (simp add: trojan_ready_def)
next
  fix st h p
  assume "trojan_ready st h" "trojan_late st" "sendable h p"
  then show "fst (relay_udp_payload_to_target_via_trojan libs tls sha224 env conns egress link st h p) = Refused NoUsableUdpTarget"
    using trojan_unanswered by (auto simp: trojan_ready_def trojan_late_def trojan_relay_ready split: prod.splits) (metis fst_conv)
qed (rule trojan_opens)

text \<open>What is left of a VLESS response header in each state.\<close>

fun header_rest :: "VlessResponseHeaderState \<Rightarrow> bytes \<Rightarrow> bool" where
  "header_rest (Prefix bytes) later = (\<exists>n addons. bytes @ later = 0 # n # addons \<and> length addons = unat n)"
| "header_rest (Addons remaining) later = (length later = remaining)"
| "header_rest Ready later = (later = [])"

lemma vless_expected_Got:
  assumes "header_state_ok st" "vless_expected n st l = (Got bs, l')"
  shows "\<exists>later rest. header_rest st later \<and> length bs = n \<and> ls_input l = later @ bs @ rest \<and> l' = l\<lparr>ls_input := rest\<rparr>"
proof (cases st)
  case (Prefix bytes)
  with assms obtain ys l1 where ys: "length ys = 2 - length bytes" "ls_input l = ys @ l1"
    and v: "after_vless_version n (bytes @ ys) (l\<lparr>ls_input := l1\<rparr>) = (Got bs, l')"
    by (auto simp: then_read_Got)
  from ys assms Prefix have "length (bytes @ ys) = 2" by simp
  then obtain a b where ab: "bytes @ ys = [a, b]" unfolding length_small by blast
  with v obtain addons rest where "a = 0" "length addons = unat b" "length bs = n" "l1 = addons @ bs @ rest"
    "l' = l\<lparr>ls_input := rest\<rparr>"
    by (auto simp: after_vless_version_def then_read_Got stream_read_exact_Got io_err_def split: if_splits)
  with ys ab Prefix show ?thesis
    by (intro exI [of _ "ys @ addons"] exI [of _ rest]) (auto simp flip: append_assoc)
qed (use assms in \<open>auto simp: then_read_Got stream_read_exact_Got\<close>)

lemma vless_read_exact_Got:
  assumes "vless_ok v" "0 < n \<or> vs_response_header v = Ready" "vless_read_exact n v = (Got bs, v')"
  shows "\<exists>later rest. header_rest (vs_response_header v) later \<and> length bs = n
    \<and> ls_input (unpolled (vs_inner v)) = later @ bs @ rest
    \<and> unpolled (vs_inner v') = (unpolled (vs_inner v))\<lparr>ls_input := rest\<rparr> \<and> vs_response_header v' = Ready \<and> vless_ok v'"
proof -
  from vless_read_exact_from_correct [OF assms(1,2), of "[]"] assms(3)
  have "agrees (Got bs, v') (still_expected n v)"
    by (simp add: vless_read_exact_def read_then_ok)
  then have "still_expected n v = (Got bs, unpolled (vs_inner v'))" "vs_response_header v' = Ready" "vless_ok v'"
    by (cases "still_expected n v"; force simp: agrees_def)+
  with vless_expected_Got [OF _ this(1)] assms(1) show ?thesis by blast
qed

definition vless_frame :: "OwnedProxyHeader \<Rightarrow> bytes \<Rightarrow> bytes" where
  "vless_frame header payload = to_be_bytes 2 (of_nat (length payload) :: u16) @ payload"

lemma vless_write_Got:
  "vless_write_all bs v = (Got u, v') \<longleftrightarrow> ps_write_error (vs_inner v) = None
     \<and> v' = v\<lparr>vs_inner := (vs_inner v)\<lparr>ps_output := ps_output (vs_inner v) @ bs\<rparr>\<rparr>"
  by (auto simp: vless_write_all_def split: option.splits)

lemma write_vless_frame_Got:
  "write_vless_udp_packet_frame payload v = (Got u, v') \<longleftrightarrow>
     length payload \<le> 65535 \<and> ps_write_error (vs_inner v) = None
     \<and> v' = v\<lparr>vs_inner := (vs_inner v)\<lparr>ps_output := ps_output (vs_inner v) @ vless_frame h payload\<rparr>\<rparr>"
  by (auto simp: write_vless_udp_packet_frame_def io_then_Got vless_write_Got vless_frame_def io_err_def split: if_splits)

lemma read_vless_frame_Got:
  assumes "vless_ok v" "read_vless_udp_packet_frame 65535 v = (Got response, v')"
  shows "\<exists>later rest. header_rest (vs_response_header v) later \<and> length response \<le> 65535
    \<and> ls_input (unpolled (vs_inner v)) = later @ vless_frame h response @ rest
    \<and> unpolled (vs_inner v') = (unpolled (vs_inner v))\<lparr>ls_input := rest\<rparr> \<and> vless_ok v'"
proof -
  from assms(2) obtain l v1 where l: "vless_read_exact 2 v = (Got l, v1)"
    and r: "vless_read_exact (unat (u16_from_be_bytes (l ! 0) (l ! 1))) v1 = (Got response, v')"
    by (auto simp: read_vless_udp_packet_frame_def io_then_Got Let_def io_err_def split: if_splits)
  from vless_read_exact_Got [OF assms(1) _ l] obtain later rest1 where
    l2: "header_rest (vs_response_header v) later" "length l = 2" "ls_input (unpolled (vs_inner v)) = later @ l @ rest1"
    and v1: "unpolled (vs_inner v1) = (unpolled (vs_inner v))\<lparr>ls_input := rest1\<rparr>" "vs_response_header v1 = Ready" "vless_ok v1"
    by auto
  from vless_read_exact_Got [OF v1(3) _ r] v1 obtain rest where
    len: "length response = unat (u16_from_be_bytes (l ! 0) (l ! 1))" and "rest1 = response @ rest"
    "unpolled (vs_inner v') = (unpolled (vs_inner v))\<lparr>ls_input := rest\<rparr>" "vless_ok v'"
    by auto
  moreover from l2(2) obtain a b where "l = [a, b]" unfolding length_small by blast
  with len have "vless_frame h response = l @ response" by (simp add: vless_frame_def)
  ultimately show ?thesis
    using l2 unat_u16_le by (intro exI [of _ later] exI [of _ rest]) auto
qed

definition vless_peer :: "NetEnv \<Rightarrow> OwnedProxyHeader \<Rightarrow> (SocketAddr, TransportError) result" where
  "vless_peer env header =
     (case oh_address header of
        OwnedDomain domain \<Rightarrow> first_address env domain (oh_port header)
      | _ \<Rightarrow> udp_ip_header_target header)"

definition vless_reply :: "NetEnv \<Rightarrow> OwnedProxyHeader \<Rightarrow> answer \<Rightarrow> bytes \<Rightarrow> bool" where
  "vless_reply env header a reply \<longleftrightarrow>
     (case a of (target, peer, response) \<Rightarrow>
        target = peer \<and> vless_peer env header = Ok peer \<and> length response \<le> 65535
        \<and> (\<exists>st later. header_state_ok st \<and> header_rest st later \<and> reply = later @ vless_frame header response))"

lemma vless_exchange_Got:
  assumes "oh_network header = Udp" "vless_ok v" "vless_exchange env header payload v = (Got a, v')"
  shows "length payload \<le> 65535 \<and> vless_ok v'
     \<and> ps_output (vs_inner v') = ps_output (vs_inner v) @ vless_frame header payload
     \<and> (\<exists>reply rest. vless_reply env header a reply \<and> ls_input (unpolled (vs_inner v)) = reply @ rest
          \<and> ls_input (unpolled (vs_inner v')) = rest)"
proof -
  have peer: "(case udp_ip_header_target header of Ok target \<Rightarrow> Ok target
       | Err error \<Rightarrow>
           if error = UnsupportedDomainTarget then
             and_then (udp_header_targets env header) (\<lambda>targets.
             case targets of [] \<Rightarrow> Err NoUsableUdpTarget | target # _ \<Rightarrow> Ok target)
           else Err error) = vless_peer env header"
    using assms(1) by (cases "oh_address header") (auto simp: vless_peer_def udp_ip_header_target_def udp_header_targets_def
        header_addresses_def first_address_def split: option.splits)
  let ?v = "v\<lparr>vs_inner := (vs_inner v)\<lparr>ps_output := ps_output (vs_inner v) @ vless_frame header payload\<rparr>\<rparr>"
  from assms(3) obtain response p where len: "length payload \<le> 65535"
    and r: "read_vless_udp_packet_frame 65535 ?v = (Got response, v')" and p: "vless_peer env header = Ok p" "a = (p, p, response)"
    by (auto simp: vless_exchange_def peer io_then_Got write_vless_frame_Got [where h = header] within_one_second_Got
        io_result_Got io_ok_Got split: prod.splits)
  have "vless_ok ?v" "unpolled (vs_inner ?v) = (unpolled (vs_inner v))\<lparr>ls_output := ps_output (vs_inner ?v)\<rparr>"
    using assms(2) by (simp_all add: no_empty_piece_def unpolled_def)
  with read_vless_frame_Got [OF this(1) r, of header] obtain later rest where
    "header_rest (vs_response_header v) later" "length response \<le> 65535" "vless_ok v'"
    "ls_input (unpolled (vs_inner v)) = later @ vless_frame header response @ rest"
    "unpolled (vs_inner v') = (unpolled (vs_inner v))\<lparr>ls_output := ps_output (vs_inner ?v), ls_input := rest\<rparr>"
    by auto
  moreover from this(5) have "ps_output (vs_inner v') = ps_output (vs_inner ?v)" by (simp add: unpolled_def)
  ultimately show ?thesis
    using assms(2) p len by (auto simp: vless_reply_def)
qed

definition vless_stream :: "(PolledStream \<Rightarrow> bytes) \<Rightarrow> UdpEgressRelayState \<Rightarrow> bytes" where
  "vless_stream part st = (case st of RelayVless (Some (h, v)) \<Rightarrow> part (vs_inner v) | _ \<Rightarrow> [])"

abbreviation polled_input :: "PolledStream \<Rightarrow> bytes" where
  "polled_input s \<equiv> ls_input (unpolled s)"

definition vless_ready :: "UdpEgressRelayState \<Rightarrow> OwnedProxyHeader \<Rightarrow> bool" where
  "vless_ready st h \<longleftrightarrow> oh_network h = Udp \<and> (\<exists>v. st = RelayVless (Some (h, v)) \<and> vless_ok v)"

definition vless_late :: "UdpEgressRelayState \<Rightarrow> bool" where
  "vless_late st \<longleftrightarrow> (\<exists>h v. st = RelayVless (Some (h, v)) \<and> ps_arrivals (vs_inner v) = []
     \<and> ps_end (vs_inner v) = LocalSilent \<and> ps_write_error (vs_inner v) = None)"

lemma vless_relay_ready:
  "oh_network h = Udp \<Longrightarrow>
   relay_udp_payload_to_target_via_vless env conns egress link (RelayVless (Some (h, v))) h p =
     (case vless_exchange env h p v of (r, v) \<Rightarrow> (r, RelayVless (Some (h, v))))"
  by (simp add: relay_udp_payload_to_target_via_vless_def)

lemma vless_silent_poll:
  assumes "ps_arrivals (vs_inner v) = []" "ps_end (vs_inner v) = LocalSilent"
  shows "fst (vless_poll_read n v) = ReadPending"
proof -
  have "poll_inner k (vs_inner v) = (ReadPending, vs_inner v)" for k using assms by (simp add: poll_inner_def)
  then show ?thesis
    by (cases "vs_response_header v") (simp_all add: vless_poll_read.simps vless_header_turn_def)
qed

lemma vless_unanswered:
  assumes "ps_arrivals (vs_inner v) = []" "ps_end (vs_inner v) = LocalSilent" "ps_write_error (vs_inner v) = None"
    "length p \<le> 65535"
  shows "fst (vless_exchange env h p v) = Refused NoUsableUdpTarget"
proof -
  let ?v = "v\<lparr>vs_inner := (vs_inner v)\<lparr>ps_output := ps_output (vs_inner v) @ vless_frame h p\<rparr>\<rparr>"
  have "write_vless_udp_packet_frame p v = (Got (), ?v)" using assms by (simp add: write_vless_frame_Got [where h = h])
  moreover obtain w where "vless_poll_read 2 ?v = (ReadPending, w)"
    using vless_silent_poll [of ?v 2] assms by (cases "vless_poll_read 2 ?v") simp
  then have "read_vless_udp_packet_frame 65535 ?v = (Waiting, w)"
    using assms by (simp add: read_vless_udp_packet_frame_def io_then_def vless_read_exact_def vless_read_exact_from.simps)
  ultimately show ?thesis by (simp add: vless_exchange_def io_then_def)
qed

definition vless_opened ::
    "NetEnv \<Rightarrow> (SocketAddr \<Rightarrow> PolledStream) \<Rightarrow> ProxyEgressPolicy \<Rightarrow> VlessDialerLink
     \<Rightarrow> UdpEgressRelayState \<Rightarrow> OwnedProxyHeader \<Rightarrow> UdpEgressRelayState \<Rightarrow> bool" where
  "vless_opened env conns egress link st h st0 \<longleftrightarrow>
     st0 = st \<and> (\<exists>v. st = RelayVless (Some (h, v)))
     \<or> (\<exists>v. connect_vless_udp_association env conns h egress link = Got v \<and> st0 = RelayVless (Some (h, v)))"

lemma vless_opens:
  assumes "relay_udp_payload_to_target_via_vless env conns egress link st h p = (Got a, st')"
  shows "\<exists>st0. vless_opened env conns egress link st h st0
    \<and> relay_udp_payload_to_target_via_vless env conns egress link st0 h p = (Got a, st')"
  using assms
  by (auto simp: relay_udp_payload_to_target_via_vless_def vless_opened_def Let_def
      split: if_splits UdpEgressRelayState.splits option.splits handshake.splits prod.splits)

interpretation vless: dialed_link "relay_udp_payload_to_target_via_vless env conns egress link"
  "vless_stream ps_output" "vless_stream polled_input" vless_frame "vless_reply env" vless_ready vless_late
  "vless_opened env conns egress link"
  for env conns egress link
proof
  fix st h p a st'
  assume "vless_ready st h" "relay_udp_payload_to_target_via_vless env conns egress link st h p = (Got a, st')"
  then obtain v v' where st: "st = RelayVless (Some (h, v))" "st' = RelayVless (Some (h, v'))" "oh_network h = Udp"
    "vless_ok v" and x: "vless_exchange env h p v = (Got a, v')"
    by (auto simp: vless_ready_def vless_relay_ready split: prod.splits)
  note facts = vless_exchange_Got [OF st(3) st(4) x]
  with st show "vless_stream ps_output st' = vless_stream ps_output st @ vless_frame h p
      \<and> (\<exists>c. vless_reply env h a c \<and> vless_stream polled_input st = c @ vless_stream polled_input st')"
    by (auto simp: vless_stream_def)
  show "vless_ready st h' \<Longrightarrow> vless_ready st' h'" for h'
    using st facts by (simp add: vless_ready_def)
next
  fix st h p
  assume "vless_ready st h" "vless_late st" "sendable h p"
  then show "fst (relay_udp_payload_to_target_via_vless env conns egress link st h p) = Refused NoUsableUdpTarget"
    using vless_unanswered [of _ p env h]
    by (fastforce simp: vless_ready_def vless_late_def vless_relay_ready sendable_def split: prod.splits)
qed (rule vless_opens)

section \<open>Properties\<close>

text \<open>
  C931: reading through the VLESS wrapper is reading the stream behind the response header. In whatever
  pieces and after however many pending polls the bytes arrive, a read of \<open>n\<close> bytes has the outcome of
  reading two bytes, checking the version, skipping the announced number of addon bytes and reading
  \<open>n\<close> bytes, errors and waiting included, and it leaves the stream at the same place.
\<close>

theorem vless_stream_strips_header:
  assumes "no_empty_piece inner" "0 < n"
  shows "agrees (vless_read_exact n (VlessTcpProxyTargetStream_new inner))
    (io_then (px_read_exact 2) (after_vless_version n) (unpolled inner))"
  using vless_read_exact_from_correct [of "VlessTcpProxyTargetStream_new inner" n "[]"] assms
  by (simp add: VlessTcpProxyTargetStream_new_def vless_read_exact_def read_then_ok)

theorem vless_stream_strips_header_witness:
  "\<exists>v. vless_read_exact 2 (VlessTcpProxyTargetStream_new
      \<lparr>ps_arrivals = [Arrives [0], NotYet, Arrives [1, 9, 7], Arrives [8, 6]], ps_end = LocalSilent, ps_output = [],
       ps_write_error = None\<rparr>) = (Got [7, 8], v)
    \<and> polled_input (vs_inner v) = [6]"
proof -
  let ?s = "\<lparr>ps_arrivals = [Arrives [0], NotYet, Arrives [1, 9, 7], Arrives [8, 6]], ps_end = LocalSilent, ps_output = [],
       ps_write_error = None\<rparr>"
  have "no_empty_piece ?s" by (simp add: no_empty_piece_def)
  note agree = vless_stream_strips_header [OF this, of 2]
  have "io_then (px_read_exact 2) (after_vless_version 2) (unpolled ?s) =
      (Got [7, 8], \<lparr>ls_input = [6], ls_end = LocalSilent, ls_output = [], ls_write_error = None\<rparr>)"
    by (simp add: unpolled_def io_then_def stream_read_exact_def after_vless_version_def)
  with agree show ?thesis
    by (cases "vless_read_exact 2 (VlessTcpProxyTargetStream_new ?s)") (auto simp: agrees_def)
qed

text \<open>
  C932: a completed UDP session through a Trojan link carries every datagram. The client's stream is a
  sequence of frames; the proxy's stream, opened for the first of them, has received one Trojan packet
  per frame in order and nothing else; from the proxy one packet per datagram was taken, and the
  client's stream received, in order, one frame with the peer and the payload of each.
\<close>

theorem trojan_session_relays_exactly:
  assumes "link_session_loop (relay_udp_payload_to_target_via_trojan libs tls sha224 env conns egress link)
      UdpEgressRelayState_default idles \<lparr>ls_first_target = None, ls_bytes_from_client = 0, ls_bytes_from_target = 0\<rparr>
      send recv = Some (Ok report, send', st')"
  shows "\<exists>fs as cs rest s s'. fs \<noteq> [] \<and> fst recv = concat (map client_frame fs) @ rest
     \<and> connect_trojan_udp_association libs tls sha224 env conns (uf_header (hd fs)) egress link = Got s
     \<and> st' = RelayTrojan (Some s')
     \<and> ls_output s' = ls_output s @ concat (map (\<lambda>f. trojan_frame (uf_header f) (uf_payload f)) fs)
     \<and> length as = length fs \<and> list_all2 (\<lambda>(f, a) c. trojan_reply env (uf_header f) a c) (zip fs as) cs
     \<and> ls_input s = concat cs @ ls_input s'
     \<and> written send' = written send @ concat (map answer_bytes as)"
proof -
  from trojan.session_exact [OF assms] obtain fs as rest st0 where fs: "fs \<noteq> []" "list_all frame_ok fs"
      "trojan_opened libs tls sha224 env conns egress link UdpEgressRelayState_default (uf_header (hd fs)) st0"
      "fst recv = concat (map client_frame fs) @ rest" "written send' = written send @ concat (map answer_bytes as)"
    and carried: "list_all (\<lambda>f. trojan_ready st0 (uf_header f)) fs \<longrightarrow>
          trojan_stream ls_output st' = trojan_stream ls_output st0 @ concat (map (\<lambda>f. trojan_frame (uf_header f) (uf_payload f)) fs)
          \<and> (\<exists>cs. list_all2 (\<lambda>(f, a) c. trojan_reply env (uf_header f) a c) (zip fs as) cs
               \<and> trojan_stream ls_input st0 = concat cs @ trojan_stream ls_input st')
          \<and> length as = length fs \<and> trojan_ready st' (uf_header (hd fs))"
    by blast
  from fs(3) obtain s where s: "connect_trojan_udp_association libs tls sha224 env conns (uf_header (hd fs)) egress link = Got s"
    "st0 = RelayTrojan (Some s)" by (auto simp: trojan_opened_def UdpEgressRelayState_default_def)
  with fs(2) have "list_all (\<lambda>f. trojan_ready st0 (uf_header f)) fs"
    by (auto simp: list_all_iff trojan_ready_def sendable_def)
  with carried obtain cs s' where "st' = RelayTrojan (Some s')" "length as = length fs"
    "list_all2 (\<lambda>(f, a) c. trojan_reply env (uf_header f) a c) (zip fs as) cs"
    "ls_input s = concat cs @ ls_input s'"
    "ls_output s' = ls_output s @ concat (map (\<lambda>f. trojan_frame (uf_header f) (uf_payload f)) fs)"
    by (auto simp: trojan_ready_def trojan_stream_def s)
  with fs s show ?thesis by blast
qed

text \<open>A Trojan proxy that answers the frame of the example with one byte.\<close>

definition demo_trojan_link :: TrojanDialerLink where
  "demo_trojan_link = \<lparr>tj_host = ''p'', tj_port = 443, tj_password = ''k'', tj_sni = ''p'', tj_allow_insecure = False\<rparr>"

definition demo_trojan_relay :: "LocalStream \<Rightarrow> UdpEgressRelayState datagram_relay" where
  "demo_trojan_relay s = relay_udp_payload_to_target_via_trojan demo_dial_libs demo_tls_libs (\<lambda>_. []) demo_proxy_env
     (\<lambda>_. s) egress_direct demo_trojan_link"

definition demo_head :: bytes where
  "demo_head = CRLF @ [3] @ trojan_metadata (uf_header demo_frame) @ CRLF"

lemma demo_frame_ok: "frame_ok demo_frame" "oh_network (uf_header demo_frame) = Udp"
  by (simp_all add: demo_frame_def sendable_def from_ip_def as_borrowed_def ProxyHeader_new_def)

lemma demo_trojan_connects:
  assumes "ls_write_error s = None"
  shows "connect_trojan_udp_association demo_dial_libs demo_tls_libs (\<lambda>_. []) demo_proxy_env (\<lambda>_. s)
    (uf_header demo_frame) egress_direct demo_trojan_link = Got (s\<lparr>ls_output := ls_output s @ demo_head\<rparr>)"
proof -
  have "encode_trojan_metadata (uf_header demo_frame) = Ok (trojan_metadata (uf_header demo_frame))"
    by (simp add: encode_trojan_metadata_Ok demo_frame_def from_ip_def)
  then have "connect_trojan_stream demo_dial_libs demo_tls_libs (\<lambda>_. []) (uf_header demo_frame) demo_trojan_link s =
      (Got (), s\<lparr>ls_output := ls_output s @ demo_head\<rparr>)"
    using assms demo_frame_ok
    by (simp add: connect_trojan_stream_def tls_over_def demo_dial_libs_def io_then_def io_ok_def io_result_def demo_head_def
        write_trojan_tcp_request_header_def trojan_password_sha224_hex_def stream_write_all_def)
  then show ?thesis
    by (simp add: connect_trojan_udp_association_def demo_frame_ok connect_tcp_proxy_target_via_trojan_def connect_via_proxy_def
        demo_proxy_env_def egress_direct_def proxy_egress_def with_send_through_and_fwmark_def plain_stream_def
        egress_source_mismatches_target_def connect_tcp_socket_to_target_def Let_def succeed_def)
qed

lemma demo_trojan_answers:
  assumes "ls_write_error s = None" "ls_input s = trojan_frame (from_ip Udp (V4 7) 53) [9] @ rest"
  shows "demo_trojan_relay s RelayDirect (uf_header demo_frame) (uf_payload demo_frame) =
    (Got (\<lparr>sa_ip = V4 7, sa_port = 53\<rparr>, \<lparr>sa_ip = V4 7, sa_port = 53\<rparr>, [9]),
     RelayTrojan (Some (s\<lparr>ls_input := rest, ls_output := ls_output s @ demo_head @ trojan_frame (uf_header demo_frame) [1, 2]\<rparr>)))"
proof -
  let ?s = "s\<lparr>ls_output := ls_output s @ demo_head\<rparr>"
  have "trojan_exchange demo_proxy_env (uf_header demo_frame) (uf_payload demo_frame) ?s =
    (Got (\<lparr>sa_ip = V4 7, sa_port = 53\<rparr>, \<lparr>sa_ip = V4 7, sa_port = 53\<rparr>, [9]),
     ?s\<lparr>ls_input := rest, ls_output := ls_output ?s @ trojan_frame (uf_header demo_frame) [1, 2]\<rparr>)"
    unfolding trojan_exchange_Got [OF demo_frame_ok(2)]
    by (intro conjI exI [of _ "trojan_frame (from_ip Udp (V4 7) 53) [9]"] exI [of _ rest])
       (use assms in \<open>auto simp: demo_frame_def from_ip_def trojan_reply_def trojan_peer_def answer_target_def
          udp_ip_header_target_def intro!: exI [of _ "from_ip Udp (V4 7) 53"]\<close>)
  then show ?thesis
    by (simp add: demo_trojan_relay_def relay_udp_payload_to_target_via_trojan_def demo_frame_ok demo_trojan_connects assms)
qed

theorem trojan_session_relays_exactly_witness:
  "\<exists>fs as rest. fs \<noteq> [] \<and> demo_frame_bytes = concat (map client_frame fs) @ rest \<and> length as = length fs
     \<and> concat (map answer_bytes as) = reply_bytes (\<lparr>sa_ip = V4 7, sa_port = 53\<rparr>, [9])"
proof -
  let ?s = "listener_stream (trojan_frame (from_ip Udp (V4 7) 53) [9])"
  have s: "ls_write_error ?s = None" "ls_input ?s = trojan_frame (from_ip Udp (V4 7) 53) [9] @ []"
    by (simp_all add: listener_stream_def)
  have run: "\<exists>report st'. link_session_loop (demo_trojan_relay ?s) UdpEgressRelayState_default [False, False]
      \<lparr>ls_first_target = None, ls_bytes_from_client = 0, ls_bytes_from_target = 0\<rparr> fresh_send (demo_frame_bytes, Fin) =
      Some (Ok report, \<lparr>written = reply_bytes (\<lparr>sa_ip = V4 7, sa_port = 53\<rparr>, [9]),
        write_error = Some (Write WriteClosedStream), finished = True\<rparr>, st')"
    using read_demo_frame [of "[]" Fin]
    by (simp add: UdpEgressRelayState_default_def demo_trojan_answers [OF s] write_response_Ok
        response_frame_bytes reply_bytes_def send_write_all_def end_link_session_def send_finish_def)
  then obtain report st' where "link_session_loop (demo_trojan_relay ?s) UdpEgressRelayState_default [False, False]
      \<lparr>ls_first_target = None, ls_bytes_from_client = 0, ls_bytes_from_target = 0\<rparr> fresh_send (demo_frame_bytes, Fin) =
      Some (Ok report, \<lparr>written = reply_bytes (\<lparr>sa_ip = V4 7, sa_port = 53\<rparr>, [9]),
        write_error = Some (Write WriteClosedStream), finished = True\<rparr>, st')" by blast
  from trojan_session_relays_exactly [OF this [unfolded demo_trojan_relay_def]] show ?thesis
    by (elim exE conjE) (metis append_Nil SendStream.select_convs(1) fst_conv)
qed

text \<open>
  C933: one datagram that a link's proxy does not answer within the second ends the whole UDP session.
  Whatever was answered before and whatever the client sends after it, the session returns the error
  \<^verbatim>\<open>NoUsableUdpTarget\<close>, leaves the client's stream unfinished and drops the association. This holds
  for the Trojan and for the VLESS link.
\<close>

theorem unanswered_datagram_ends_session:
  assumes "list_all frame_ok (fs @ [f])" "list_all (\<lambda>a. length (snd (snd a)) \<le> 65535) as" "write_error send = None"
  shows "(relayed (relay_udp_payload_to_target_via_trojan libs tls sha224 env conns egress link) st fs as st1
      \<and> trojan_late st1 \<longrightarrow>
      (\<exists>st2. link_session_loop (relay_udp_payload_to_target_via_trojan libs tls sha224 env conns egress link) st
          (replicate (Suc (length fs)) False @ idles) s send (concat (map client_frame (fs @ [f])) @ rest, eos) =
        Some (Err NoUsableUdpTarget, answers_sent send as, st2)))
   \<and> (relayed (relay_udp_payload_to_target_via_vless env vconns egress vlink) st fs as st1
      \<and> vless_late st1 \<and> vless_ready st1 (uf_header f) \<longrightarrow>
      (\<exists>st2. link_session_loop (relay_udp_payload_to_target_via_vless env vconns egress vlink) st
          (replicate (Suc (length fs)) False @ idles) s send (concat (map client_frame (fs @ [f])) @ rest, eos) =
        Some (Err NoUsableUdpTarget, answers_sent send as, st2)))"
proof -
  have "trojan_ready st1 (uf_header f)" if "trojan_late st1"
    using that assms(1) by (auto simp: trojan_ready_def trojan_late_def sendable_def)
  then show ?thesis
    by (intro conjI impI; elim conjE)
       (rule trojan.session_ends_unanswered [OF _ _ _ assms] vless.session_ends_unanswered [OF _ _ _ assms]; simp)+
qed

theorem unanswered_datagram_ends_session_witness:
  "\<exists>st2. link_session_loop (demo_trojan_relay (listener_stream (trojan_frame (from_ip Udp (V4 7) 53) [9])))
     UdpEgressRelayState_default [False, False, False]
     \<lparr>ls_first_target = None, ls_bytes_from_client = 0, ls_bytes_from_target = 0\<rparr> fresh_send
     (demo_frame_bytes @ demo_frame_bytes @ demo_frame_bytes, Fin) =
     Some (Err NoUsableUdpTarget, fresh_send\<lparr>written := reply_bytes (\<lparr>sa_ip = V4 7, sa_port = 53\<rparr>, [9])\<rparr>, st2)"
proof -
  let ?s = "listener_stream (trojan_frame (from_ip Udp (V4 7) 53) [9])"
  let ?a = "(\<lparr>sa_ip = V4 7, sa_port = 53\<rparr>, \<lparr>sa_ip = V4 7, sa_port = 53\<rparr>, [9]) :: answer"
  have s: "ls_write_error ?s = None" "ls_input ?s = trojan_frame (from_ip Udp (V4 7) 53) [9] @ []"
    by (simp_all add: listener_stream_def)
  obtain st1 where st1: "demo_trojan_relay ?s UdpEgressRelayState_default (uf_header demo_frame) (uf_payload demo_frame) = (Got ?a, st1)"
    "trojan_late st1"
    using demo_trojan_answers [OF s] by (auto simp: UdpEgressRelayState_default_def trojan_late_def listener_stream_def)
  have "relayed (demo_trojan_relay ?s) UdpEgressRelayState_default [demo_frame] [?a] st1"
    by (rule relayed_step [where relay = "demo_trojan_relay ?s", OF st1(1) relayed_none])
  with unanswered_datagram_ends_session [of "[demo_frame]" demo_frame "[?a]" fresh_send demo_dial_libs demo_tls_libs "\<lambda>_. []"
      demo_proxy_env "\<lambda>_. ?s" egress_direct demo_trojan_link UdpEgressRelayState_default st1 "[False]" _ demo_frame_bytes Fin]
    st1(2) demo_frame_ok
  show ?thesis
    by (simp add: demo_trojan_relay_def [symmetric] client_frame_def demo_frame_bytes_def answers_sent_def answer_bytes_def)
qed

end
