(* ===== verification/Spec2Isabelle.thy ===== *)
theory Spec2Isabelle
  imports ServerReports TuicUdp ClientMixed Dae StreamDialers
begin

text \<open>
  Verification of zuicity.
\<close>

section \<open>From the local program to the target\<close>

definition fresh_streams :: "'c DialNet \<Rightarrow> bool" where
  "fresh_streams net \<longleftrightarrow> (\<forall>c send recv. dn_open_bi net c = Ok (send, recv) \<longrightarrow> written send = [])"

lemma relay_mixed_stream_done:
  assumes "relay_mixed_stream env s peer target stream = RelayDone report local_write quic_write"
  shows "\<exists>down. ls_end s = LocalClosed \<and> read_to_end (re_quic_reads env) = Some down
     \<and> w_out quic_write = written (ps_send stream) @ ls_input s
     \<and> w_out local_write = ls_output s @ down
     \<and> report = \<lparr>tf_local_peer = peer, tf_remote_target = target,
         tf_bytes_from_client = of_nat (length (ls_input s)), tf_bytes_from_target = of_nat (length down)\<rparr>"
proof -
  have read: "read_to_end (map Ok (split_reads sizes bs) @ tail) = map_option ((@) bs) (read_to_end tail)" for sizes bs tail
    by (induction sizes bs rule: split_reads.induct; cases "read_to_end tail") (auto simp: append_assoc [symmetric])
  from assms have r: "relay_local_tcp_stream (re_nodelay env) (re_read_first env) (re_client_first env) peer target
        (local_halves env s) (into_split stream (re_quic_replies env) (re_quic_reads env))
      = RelayDone report local_write quic_write" and e: "ls_end s \<noteq> LocalSilent"
    by (auto simp: relay_mixed_stream_def split: relay_end.splits if_splits)
  from relay_local_tcp_stream_done [OF r [unfolded local_halves_def into_split_def]] e show ?thesis
    using read [of _ _ "[]"] by (cases "ls_end s") (auto simp: read)
qed

lemma relay_to_target_done:
  assumes "relay_to_target net env reply s peer target dialer = (RelayDone report local_write quic_write, dialer')"
    and "fresh_streams net" and "wf_target target"
  shows "\<exists>down. ls_end s = LocalClosed \<and> read_to_end (re_quic_reads env) = Some down
     \<and> read_proxy_header_prefix (w_out quic_write, e) = Ok ((forward_header Tcp target, []), ls_input s, e)
     \<and> w_out local_write = ls_output s @ reply @ down
     \<and> report = \<lparr>tf_local_peer = peer, tf_remote_target = target,
         tf_bytes_from_client = of_nat (length (ls_input s)), tf_bytes_from_target = of_nat (length down)\<rparr>"
proof -
  from assms(1) obtain c stream s1 where o: "open_tcp_stream net target c = Ok stream"
    and s1: "io_write_all reply s = (Got (), s1)"
    and r: "relay_mixed_stream env s1 peer target stream = RelayDone report local_write quic_write"
    by (auto simp: relay_to_target_def mixed_open_tcp_proxy_stream_def
        split: prod.splits result.splits handshake.splits)
  from o assms(2) have "valid_header (as_borrowed (forward_header Tcp target))"
    "written (ps_send stream) = header_bytes (as_borrowed (forward_header Tcp target))"
    by (auto simp: open_tcp_stream_Ok fresh_streams_def) blast
  moreover from s1 have "s1 = s\<lparr>ls_output := ls_output s @ reply\<rparr>" by (simp add: stream_write_all_Got)
  ultimately show ?thesis
    using relay_mixed_stream_done [OF r] server_reads_target [OF assms(3), of Tcp "ls_input s" e] by auto
qed

text \<open>
  C1: end to end. A local program sends a SOCKS5 CONNECT request and data on one connection, the
  mixed listener's relay of it completes, and the server's relay of the stream completes on the bytes
  the client sent after the header. Then the server has read exactly the target the program asked for,
  the target has received exactly the data, the program has received the SOCKS5 replies and then exactly
  what the target sent, and both sides report the same byte counts.
\<close>

theorem socks5_tunnel_end_to_end:
  assumes "handle_socks5_connect net env program peer dialer = (RelayDone report local_write quic_write, dialer')"
    and "fresh_streams net"
    and "relay_tcp_proxy_stream client_first read_first quic_send quic_recv target_stream [] =
      (Some (Ok server_report), target_write, server_write)"
    and "read_proxy_header_prefix (w_out quic_write, Fin) = Ok ((header, initial), (rest, Fin))"
    and "nonempty_chunks quic_recv" and "chunks_to_end quic_recv = Some rest"
    and "w_out (qs_writer quic_send) = []" and "read_to_end (re_quic_reads env) = Some (w_out server_write)"
  shows "\<exists>methods target data reply.
      ls_input program = socks5_connect_request methods target @ data
    \<and> header = forward_header Tcp target
    \<and> w_out target_write = w_out (ts_writer target_stream) @ data
    \<and> read_to_end (ts_reader target_stream) = Some reply
    \<and> w_out local_write = ls_output program @ [0x05, 0x00] @ [0x05, 0x00, 0x00, 0x01, 0, 0, 0, 0, 0, 0] @ reply
    \<and> tf_bytes_from_client report = tr_bytes_from_client server_report
    \<and> tf_bytes_from_target report = tr_bytes_from_target server_report"
proof -
  from assms(1) obtain target s where h: "read_socks5_connect_target program = (Got target, s)"
    and r: "relay_to_target net env [0x05, 0x00, 0x00, 0x01, 0, 0, 0, 0, 0, 0] s peer target dialer
      = (RelayDone report local_write quic_write, dialer')"
    by (auto simp: handle_socks5_connect_def relay_socks5_connect_def split: prod.splits handshake.splits)
  from h obtain methods data where m: "wf_target target" "ls_input program = socks5_connect_request methods target @ data"
    and s: "s = program\<lparr>ls_input := data, ls_output := ls_output program @ [0x05, 0x00]\<rparr>"
    by (auto simp: read_socks5_connect_target_Got)
  from relay_to_target_done [OF r assms(2) m(1), of Fin] assms(4,8) have c: "header = forward_header Tcp target"
    "rest = data" "w_out local_write = ls_output s @ [0x05, 0x00, 0x00, 0x01, 0, 0, 0, 0, 0, 0] @ w_out server_write"
    "report = \<lparr>tf_local_peer = peer, tf_remote_target = target,
         tf_bytes_from_client = of_nat (length data), tf_bytes_from_target = of_nat (length (w_out server_write))\<rparr>"
    by (auto simp: s)
  from relay_tcp_proxy_stream_done [OF assms(3,5)] assms(6,7) c(2) m(2) show ?thesis
    by (intro exI [of _ methods] exI [of _ target] exI [of _ data] exI [of _ "w_out server_write"])
       (auto simp: c s)
qed


definition demo_program :: LocalStream where
  "demo_program =
     \<lparr>ls_input = socks5_connect_request [0] (TargetIp \<lparr>sa_ip = V4 7, sa_port = 80\<rparr>) @ [7, 8],
      ls_end = LocalClosed, ls_output = [], ls_write_error = None\<rparr>"

definition demo_relay_env :: relay_env where
  "demo_relay_env =
     \<lparr>re_read_sizes = [], re_local_replies = [], re_shutdown_error = None, re_nodelay = Ok (), re_read_first = [],
      re_client_first = True, re_quic_replies = [], re_quic_reads = [Ok [9]]\<rparr>"

definition demo_target_stream :: TcpProxyTargetStream where
  "demo_target_stream =
     \<lparr>ts_kind = Plain, ts_peer_addr = \<lparr>sa_ip = V4 7, sa_port = 80\<rparr>, ts_reader = [Ok [9]], ts_writer = demo_writer []\<rparr>"

lemma demo_client_relay:
  "\<exists>report local_write quic_write dialer'. handle_socks5_connect demo_dial_net demo_relay_env demo_program
      \<lparr>sa_ip = V4 9, sa_port = 1000\<rparr> (demo_dialer\<lparr>sd_cache := Some 2\<rparr>) = (RelayDone report local_write quic_write, dialer')
    \<and> w_out quic_write = header_bytes (as_borrowed (forward_header Tcp (TargetIp \<lparr>sa_ip = V4 7, sa_port = 80\<rparr>))) @ [7, 8]"
proof -
  have h: "read_socks5_connect_target demo_program = (Got (TargetIp \<lparr>sa_ip = V4 7, sa_port = 80\<rparr>),
      demo_program\<lparr>ls_input := [7, 8], ls_output := [5, 0]\<rparr>)"
    by (subst read_socks5_connect_target_Got) (auto simp: demo_program_def intro!: exI [of _ "[0]"])
  have o: "open_tcp_stream demo_dial_net (TargetIp \<lparr>sa_ip = V4 7, sa_port = 80\<rparr>) 2
      = Ok \<lparr>ps_send = fresh_send\<lparr>written := header_bytes (proxy_header_for_ip Tcp (V4 7) 80)\<rparr>,
            ps_recv = (demo_frame_bytes, Fin)\<rparr>"
    by (subst open_tcp_stream_Ok) (simp add: demo_dial_net_def as_borrowed_from_ip valid_header_def)
  have g: "get_connection demo_dial_net (demo_dialer\<lparr>sd_cache := Some 2\<rparr>) = (Ok 2, demo_dialer\<lparr>sd_cache := Some 2\<rparr>)"
    by (simp add: get_connection_def demo_dial_net_def)
  show ?thesis
    by (simp add: handle_socks5_connect_def h relay_socks5_connect_def relay_to_target_def o g
        mixed_open_tcp_proxy_stream_def stream_write_all_def)
       (simp add: relay_mixed_stream_def demo_program_def demo_relay_env_def relay_local_tcp_stream_def local_halves_def into_split_def
        local_to_remote_def remote_to_local_def relay_copy_local_to_quic_eq write_all.simps writer_write_def
        flush_copy_def writer_flush_def quic_finish_def writer_shutdown_def as_borrowed_from_ip)
qed

lemma demo_server_relay:
  "\<exists>report target_write server_write. relay_tcp_proxy_stream True [] \<lparr>qs_writer = demo_writer [], qs_stopped = Some (Ok None)\<rparr>
      [Ok [[7, 8]]] demo_target_stream [] = (Some (Ok report), target_write, server_write) \<and> w_out server_write = [9]"
  using write_vectored_loop_eq [of 0 "[[7, 8]]"]
  by (simp add: relay_tcp_proxy_stream_def client_to_target_task_def demo_target_stream_def target_to_client_task_def
      relay_quic_chunks_to_target_with_stall_timeout_def write_all_vectored_with_stall_timeout_def pending_chunks_def
      relay_copy_read_ahead_with_stall_timeout_def read_buf_def read_ahead_loop_eq write_all_with_stall_timeout_def
      write_all.simps writer_write_def demo_writer_def within_stall_timeout_def flush_copied_def writer_flush_def
      writer_shutdown_def quic_finish_def assemble_report_def)

theorem socks5_tunnel_end_to_end_witness:
  "\<exists>report target_write server_write. relay_tcp_proxy_stream True []
      \<lparr>qs_writer = demo_writer [], qs_stopped = Some (Ok None)\<rparr> [Ok [[7, 8]]] demo_target_stream []
      = (Some (Ok report), target_write, server_write)
    \<and> (\<exists>methods target data reply.
      ls_input demo_program = socks5_connect_request methods target @ data
    \<and> w_out target_write = data \<and> read_to_end (ts_reader demo_target_stream) = Some reply)"
proof -
  obtain report local_write quic_write dialer' where c: "handle_socks5_connect demo_dial_net demo_relay_env demo_program
      \<lparr>sa_ip = V4 9, sa_port = 1000\<rparr> (demo_dialer\<lparr>sd_cache := Some 2\<rparr>) = (RelayDone report local_write quic_write, dialer')"
    and q: "w_out quic_write = header_bytes (as_borrowed (forward_header Tcp (TargetIp \<lparr>sa_ip = V4 7, sa_port = 80\<rparr>))) @ [7, 8]"
    using demo_client_relay by blast
  obtain server_report target_write server_write where s: "relay_tcp_proxy_stream True []
      \<lparr>qs_writer = demo_writer [], qs_stopped = Some (Ok None)\<rparr> [Ok [[7, 8]]] demo_target_stream []
      = (Some (Ok server_report), target_write, server_write)" and w: "w_out server_write = [9]"
    using demo_server_relay by blast
  have f: "fresh_streams demo_dial_net" by (simp add: fresh_streams_def demo_dial_net_def)
  have r: "read_proxy_header_prefix (w_out quic_write, Fin)
      = Ok ((forward_header Tcp (TargetIp \<lparr>sa_ip = V4 7, sa_port = 80\<rparr>), []), ([7, 8], Fin))"
    unfolding q by (rule server_reads_target) (simp_all add: as_borrowed_from_ip valid_header_def)
  from socks5_tunnel_end_to_end [OF c f s r] s show ?thesis
    by (auto simp: nonempty_chunks_def demo_writer_def demo_relay_env_def w demo_target_stream_def)
qed

end
